(* ===== verification/Prelude.thy ===== *)
theory Prelude
  imports Main "HOL-Library.State_Monad" "HOL-Library.Char_ord" "HOL-Library.List_Lexorder"
begin

text \<open>
  Shared vocabulary of the development.

  The Go code is imperative: a handler reads and writes the process state, calls services and
  writes the response.  Every such function is a computation of \<^theory_text>\<open>State_Monad\<close>
  over one state type, and a Go pair \<open>(T, error)\<close> is a value of the sum type \<open>'e + 'a\<close>
  (\<open>Inl\<close> the error).  This theory gives the small calculus the proofs use:
  \<^item> \<open>wp m Q s\<close>, the condition \<open>Q\<close> on the result and final state of \<open>m\<close> run from \<open>s\<close>;
    the collection \<open>wp_simps\<close> evaluates it through the monad's operators;
  \<^item> \<open>keeps I m\<close>, "\<open>m\<close> preserves the invariant \<open>I\<close>", with one rule per operator in the
    collection \<open>keeps_intros\<close>;
  \<^item> a few list and map lemmas the components share.
\<close>

named_theorems wp_simps \<open>evaluation of wp through the operators of the monad\<close>
named_theorems keeps_intros \<open>preservation rules, one per operator or operation\<close>

section \<open>Running computations\<close>

definition gets :: "('s \<Rightarrow> 'a) \<Rightarrow> ('s, 'a) state" where
  "gets f = State (\<lambda>s. (f s, s))"

definition modify :: "('s \<Rightarrow> 's) \<Rightarrow> ('s, unit) state" where
  "modify f = State (\<lambda>s. ((), f s))"

text \<open>Go's \<open>x, err := m(); if err != nil { return err }\<close> followed by \<open>f\<close>.\<close>

definition on_ok :: "('s, 'e + 'a) state \<Rightarrow> ('a \<Rightarrow> ('s, 'e + 'b) state) \<Rightarrow> ('s, 'e + 'b) state" where
  "on_ok m f = do { r \<leftarrow> m; case r of Inl e \<Rightarrow> State_Monad.return (Inl e) | Inr x \<Rightarrow> f x }"

definition skip :: "('s, unit) state" where
  "skip = State_Monad.return ()"

definition wp :: "('s, 'a) state \<Rightarrow> ('a \<Rightarrow> 's \<Rightarrow> bool) \<Rightarrow> 's \<Rightarrow> bool" where
  "wp m Q s = (case run_state m s of (a, t) \<Rightarrow> Q a t)"

definition final :: "('s, 'a) state \<Rightarrow> 's \<Rightarrow> 's" where
  "final m s = snd (run_state m s)"

definition answer :: "('s, 'a) state \<Rightarrow> 's \<Rightarrow> 'a" where
  "answer m s = fst (run_state m s)"

lemma run_state_gets [simp]: "run_state (gets f) s = (f s, s)"
  by (simp add: gets_def)

lemma run_state_modify [simp]: "run_state (modify f) s = ((), f s)"
  by (simp add: modify_def)

lemma run_state_skip [simp]: "run_state skip s = ((), s)"
  by (simp add: skip_def)

lemma wp_final: "wp m (\<lambda>a t. P t) s = P (final m s)"
  by (simp add: wp_def final_def split: prod.split)

lemma wp_answer: "wp m (\<lambda>a t. P a) s = P (answer m s)"
  by (simp add: wp_def answer_def split: prod.split)

lemma wp_run: "wp m Q s = Q (answer m s) (final m s)"
  by (simp add: wp_def answer_def final_def split: prod.split)

text \<open>
  The rules are equations between predicates of the state, so that they also rewrite a
  continuation under a binder, where the state is not yet applied.
\<close>

lemma wp_return [wp_simps]: "wp (State_Monad.return a) Q = Q a"
  by (simp add: wp_def fun_eq_iff)

lemma wp_bind [wp_simps]: "wp (State_Monad.bind m f) Q = wp m (\<lambda>a. wp (f a) Q)"
  by (simp add: wp_def fun_eq_iff split: prod.split)

lemma wp_gets [wp_simps]: "wp (gets f) Q = (\<lambda>s. Q (f s) s)"
  by (simp add: wp_def fun_eq_iff)

lemma wp_modify [wp_simps]: "wp (modify f) Q = (\<lambda>s. Q () (f s))"
  by (simp add: wp_def fun_eq_iff)

lemma wp_skip [wp_simps]: "wp skip Q = Q ()"
  by (simp add: wp_def fun_eq_iff)

lemma wp_get [wp_simps]: "wp State_Monad.get Q = (\<lambda>s. Q s s)"
  by (simp add: wp_def fun_eq_iff)

lemma wp_if [wp_simps]: "wp (if b then m else n) Q = (\<lambda>s. if b then wp m Q s else wp n Q s)"
  by (simp add: fun_eq_iff)

lemma wp_case_sum [wp_simps]:
  "wp (case r of Inl e \<Rightarrow> f e | Inr x \<Rightarrow> g x) Q
   = (\<lambda>s. case r of Inl e \<Rightarrow> wp (f e) Q s | Inr x \<Rightarrow> wp (g x) Q s)"
  by (cases r) (simp_all add: fun_eq_iff)

lemma wp_case_option [wp_simps]:
  "wp (case r of None \<Rightarrow> m | Some x \<Rightarrow> g x) Q
   = (\<lambda>s. case r of None \<Rightarrow> wp m Q s | Some x \<Rightarrow> wp (g x) Q s)"
  by (cases r) (simp_all add: fun_eq_iff)

lemma wp_case_prod [wp_simps]:
  "wp (case p of (x, y) \<Rightarrow> g x y) Q = (\<lambda>s. case p of (x, y) \<Rightarrow> wp (g x y) Q s)"
  by (cases p) (simp add: fun_eq_iff)

lemma wp_Let [wp_simps]: "wp (let x = e in f x) Q = (\<lambda>s. let x = e in wp (f x) Q s)"
  by (simp add: Let_def fun_eq_iff)

lemma wp_on_ok [wp_simps]:
  "wp (on_ok m f) Q = wp m (\<lambda>r s. case r of Inl e \<Rightarrow> Q (Inl e) s | Inr x \<Rightarrow> wp (f x) Q s)"
  unfolding on_ok_def wp_bind
  by (rule arg_cong [where f = "wp m"]) (auto simp: fun_eq_iff wp_case_sum wp_return split: sum.split)

lemma wp_conj: "wp m (\<lambda>a t. P a t \<and> Q a t) s = (wp m P s \<and> wp m Q s)"
  by (simp add: wp_def split: prod.split)

lemma wp_mono: "wp m P s \<Longrightarrow> (\<And>a t. P a t \<Longrightarrow> Q a t) \<Longrightarrow> wp m Q s"
  by (simp add: wp_def split: prod.splits)

text \<open>The final state and the answer, operator by operator.\<close>

lemma final_bind: "final (State_Monad.bind m f) s = final (f (answer m s)) (final m s)"
  by (simp add: final_def answer_def split: prod.split)

lemma answer_bind: "answer (State_Monad.bind m f) s = answer (f (answer m s)) (final m s)"
  by (simp add: final_def answer_def split: prod.split)

lemma final_return: "final (State_Monad.return a) s = s" "answer (State_Monad.return a) s = a"
  by (simp_all add: final_def answer_def)

lemma final_gets: "final (gets f) s = s" "answer (gets f) s = f s"
  by (simp_all add: final_def answer_def)

lemma final_modify: "final (modify f) s = f s"
  by (simp add: final_def)

lemma final_skip: "final skip s = s"
  by (simp add: final_def)

lemmas final_simps = final_bind answer_bind final_return final_gets final_modify final_skip

lemma on_ok_InrE:
  assumes "answer (on_ok m f) s = Inr y"
  obtains x where "answer m s = Inr x" "answer (f x) (final m s) = Inr y"
    "final (on_ok m f) s = final (f x) (final m s)"
  using assms by (cases "answer m s") (simp_all add: on_ok_def final_simps)

section \<open>Preservation of invariants\<close>

definition keeps :: "('s \<Rightarrow> bool) \<Rightarrow> ('s, 'a) state \<Rightarrow> bool" where
  "keeps I m \<longleftrightarrow> (\<forall>s. I s \<longrightarrow> I (snd (run_state m s)))"

lemma keepsI: "(\<And>s. I s \<Longrightarrow> wp m (\<lambda>_. I) s) \<Longrightarrow> keeps I m"
  by (simp add: keeps_def wp_def case_prod_beta)

lemma keepsD: "keeps I m \<Longrightarrow> I s \<Longrightarrow> wp m (\<lambda>_. I) s"
  by (simp add: keeps_def wp_def case_prod_beta)

lemma keeps_final: "keeps I m \<Longrightarrow> I s \<Longrightarrow> I (final m s)"
  by (simp add: keeps_def final_def)

lemma keeps_return [keeps_intros]: "keeps I (State_Monad.return a)"
  by (simp add: keeps_def)

lemma keeps_bind [keeps_intros]:
  "keeps I m \<Longrightarrow> (\<And>a. keeps I (f a)) \<Longrightarrow> keeps I (State_Monad.bind m f)"
  by (simp add: keeps_def case_prod_beta)

lemma keeps_gets [keeps_intros]: "keeps I (gets f)"
  by (simp add: keeps_def)

lemma keeps_skip [keeps_intros]: "keeps I skip"
  by (simp add: keeps_def)

lemma keeps_get [keeps_intros]: "keeps I State_Monad.get"
  by (simp add: keeps_def)

lemma keeps_modify: "(\<And>s. I s \<Longrightarrow> I (f s)) \<Longrightarrow> keeps I (modify f)"
  by (simp add: keeps_def)

lemma keeps_if [keeps_intros]:
  "(b \<Longrightarrow> keeps I m) \<Longrightarrow> (\<not> b \<Longrightarrow> keeps I n) \<Longrightarrow> keeps I (if b then m else n)"
  by simp

lemma keeps_case_sum [keeps_intros]:
  "(\<And>e. r = Inl e \<Longrightarrow> keeps I (f e)) \<Longrightarrow> (\<And>x. r = Inr x \<Longrightarrow> keeps I (g x))
   \<Longrightarrow> keeps I (case r of Inl e \<Rightarrow> f e | Inr x \<Rightarrow> g x)"
  by (cases r) simp_all

lemma keeps_case_option [keeps_intros]:
  "(r = None \<Longrightarrow> keeps I m) \<Longrightarrow> (\<And>x. r = Some x \<Longrightarrow> keeps I (g x))
   \<Longrightarrow> keeps I (case r of None \<Rightarrow> m | Some x \<Rightarrow> g x)"
  by (cases r) simp_all

lemma keeps_case_prod [keeps_intros]:
  "(\<And>x y. p = (x, y) \<Longrightarrow> keeps I (g x y)) \<Longrightarrow> keeps I (case p of (x, y) \<Rightarrow> g x y)"
  by (cases p) simp

lemma keeps_Let [keeps_intros]: "keeps I (f e) \<Longrightarrow> keeps I (let x = e in f x)"
  by simp

lemma keeps_on_ok [keeps_intros]:
  "keeps I m \<Longrightarrow> (\<And>x. keeps I (f x)) \<Longrightarrow> keeps I (on_ok m f)"
  unfolding on_ok_def by (intro keeps_bind keeps_case_sum keeps_return) auto

section \<open>Loops over a slice\<close>

text \<open>Go's \<open>for i, x := range xs\<close> whose body produces one element per iteration.\<close>

fun for_each :: "nat \<Rightarrow> 'a list \<Rightarrow> (nat \<Rightarrow> 'a \<Rightarrow> ('s, 'b) state) \<Rightarrow> ('s, 'b list) state" where
  "for_each i [] f = State_Monad.return []"
| "for_each i (x # xs) f =
     do { y \<leftarrow> f i x; ys \<leftarrow> for_each (Suc i) xs f; State_Monad.return (y # ys) }"

lemma keeps_for_each [keeps_intros]:
  "(\<And>i x. keeps I (f i x)) \<Longrightarrow> keeps I (for_each i xs f)"
  by (induction xs arbitrary: i) (auto intro!: keeps_intros)

text \<open>A fact about every element of the result follows from one about every iteration.\<close>

lemma wp_for_each_all2:
  assumes step: "\<And>i x s. I s \<Longrightarrow> x \<in> set xs \<Longrightarrow> wp (f i x) (\<lambda>y t. R x y \<and> I t) s" and "I s"
  shows "wp (for_each i xs f) (\<lambda>ys t. list_all2 R xs ys \<and> I t) s"
  using assms
proof (induction xs arbitrary: i s)
  case Nil
  then show ?case by (simp add: wp_simps)
next
  case (Cons x xs)
  have "wp (f i x) (\<lambda>y t. R x y \<and> I t) s"
    using Cons.prems by simp
  then have "wp (f i x) (\<lambda>y t. wp (for_each (Suc i) xs f)
      (\<lambda>ys t. list_all2 R (x # xs) (y # ys) \<and> I t) t) s"
  proof (rule wp_mono)
    fix y t assume "R x y \<and> I t"
    then have "wp (for_each (Suc i) xs f) (\<lambda>ys t. list_all2 R xs ys \<and> I t) t"
      using Cons.prems(1) by (intro Cons.IH) auto
    then show "wp (for_each (Suc i) xs f) (\<lambda>ys t. list_all2 R (x # xs) (y # ys) \<and> I t) t"
      by (rule wp_mono) (use \<open>R x y \<and> I t\<close> in auto)
  qed
  then show ?case by (simp only: for_each.simps wp_bind wp_return)
qed

section \<open>Lists\<close>

lemma filter_cong_set: "(\<And>x. x \<in> set xs \<Longrightarrow> P x = Q x) \<Longrightarrow> filter P xs = filter Q xs"
  by (induction xs) auto

lemma takeWhile_append_notin:
  "c \<notin> set xs \<Longrightarrow> takeWhile (\<lambda>d. d \<noteq> c) (xs @ c # ys) = xs"
  by (induction xs) auto

lemma dropWhile_append_notin:
  "c \<notin> set xs \<Longrightarrow> dropWhile (\<lambda>d. d \<noteq> c) (xs @ c # ys) = c # ys"
  by (induction xs) auto

text \<open>A separator that occurs in neither prefix splits a text in one way only.\<close>

lemma split_at_first:
  assumes "xs @ c # ys = xs' @ c # ys'" "c \<notin> set xs" "c \<notin> set xs'"
  shows "xs = xs' \<and> ys = ys'"
  using assms
proof (induction xs arbitrary: xs')
  case Nil
  then show ?case by (cases xs') auto
next
  case (Cons x xs)
  then show ?case by (cases xs') auto
qed

lemma split_at_last_fixed:
  assumes "xs @ ys = xs' @ ys'" "length ys = length ys'"
  shows "xs = xs' \<and> ys = ys'"
  using assms by simp

end
