(* ===== verification/GoText.thy ===== *)
theory GoText
  imports Prelude
begin

text \<open>
  The parts of Go's standard library on text that the service's own logic rests on:
  \<open>strings\<close> (trimming), \<open>strconv.Itoa\<close>, \<open>net/url\<close> escaping and query encoding,
  \<open>encoding/base64\<close>, and the two regular expressions of sign-in method names.  A Go string
  is a byte string, so it is a \<^typ>\<open>string\<close> (a list of 8-bit characters).
  White space is the ASCII white space of \<open>unicode.IsSpace\<close>.
\<close>

section \<open>Characters\<close>

definition code :: "char \<Rightarrow> nat" where
  "code c = of_char c"

lemma code_lt [simp]: "code c < 256"
  by (simp add: code_def)

lemma char_of_code [simp]: "char_of (code c) = c"
  by (simp add: code_def)

lemma code_char_of: "n < 256 \<Longrightarrow> code (char_of n) = n"
  by (simp add: code_def)

definition is_alpha :: "char \<Rightarrow> bool" where
  "is_alpha c \<longleftrightarrow> (65 \<le> code c \<and> code c \<le> 90) \<or> (97 \<le> code c \<and> code c \<le> 122)"

definition is_digit :: "char \<Rightarrow> bool" where
  "is_digit c \<longleftrightarrow> 48 \<le> code c \<and> code c \<le> 57"

definition is_alnum :: "char \<Rightarrow> bool" where
  "is_alnum c \<longleftrightarrow> is_alpha c \<or> is_digit c"

definition is_space :: "char \<Rightarrow> bool" where
  "is_space c \<longleftrightarrow> code c \<in> {9, 10, 11, 12, 13, 32}"

section \<open>Trimming and numbers\<close>

definition trim_right :: "char \<Rightarrow> string \<Rightarrow> string" where
  "trim_right c s = rev (dropWhile (\<lambda>d. d = c) (rev s))"

definition trim_space :: "string \<Rightarrow> string" where
  "trim_space s = rev (dropWhile is_space (rev (dropWhile is_space s)))"

definition trim_suffix :: "string \<Rightarrow> string \<Rightarrow> string" where
  "trim_suffix s suf =
     (if suf \<noteq> [] \<and> length suf \<le> length s \<and> drop (length s - length suf) s = suf
      then take (length s - length suf) s else s)"

fun dec_digits :: "nat \<Rightarrow> string" where
  "dec_digits n = (if n < 10 then [char_of (48 + n)]
                   else dec_digits (n div 10) @ [char_of (48 + n mod 10)])"

declare dec_digits.simps [simp del]

definition itoa :: "int \<Rightarrow> string" where
  "itoa i = (if i < 0 then CHR ''-'' # dec_digits (nat (- i)) else dec_digits (nat i))"

lemma trim_right_no_suffix: "trim_right c s = [] \<or> last (trim_right c s) \<noteq> c"
proof (cases "dropWhile (\<lambda>d. d = c) (rev s)")
  case Nil
  then show ?thesis by (simp add: trim_right_def)
next
  case (Cons d ds)
  then have "d \<noteq> c"
    by (metis (mono_tags) dropWhile_eq_Cons_conv)
  with Cons show ?thesis by (simp add: trim_right_def)
qed

lemma trim_right_idem: "trim_right c (trim_right c s) = trim_right c s"
  by (simp add: trim_right_def)

section \<open>URL escaping\<close>

text \<open>
  \<open>url.PathEscape\<close> leaves the unreserved characters and \<open>$ & + : = @\<close> as they are,
  \<open>url.QueryEscape\<close> the unreserved ones only and writes a space as \<open>+\<close>; every other
  byte is \<open>%XX\<close> with upper-case hexadecimal digits.
\<close>

definition unreserved :: "char \<Rightarrow> bool" where
  "unreserved c \<longleftrightarrow> is_alnum c \<or> c \<in> set ''-_.~''"

definition path_plain :: "char \<Rightarrow> bool" where
  "path_plain c \<longleftrightarrow> unreserved c \<or> c \<in> set ''$&+:=@''"

definition hex_digit :: "nat \<Rightarrow> char" where
  "hex_digit n = char_of (if n < 10 then 48 + n else 55 + n)"

definition unhex :: "char \<Rightarrow> nat option" where
  "unhex c = (let n = code c in
     if 48 \<le> n \<and> n \<le> 57 then Some (n - 48)
     else if 65 \<le> n \<and> n \<le> 70 then Some (n - 55)
     else if 97 \<le> n \<and> n \<le> 102 then Some (n - 87) else None)"

definition pct :: "char \<Rightarrow> string" where
  "pct c = [CHR ''%'', hex_digit (code c div 16), hex_digit (code c mod 16)]"

definition path_escape :: "string \<Rightarrow> string" where
  "path_escape s = concat (map (\<lambda>c. if path_plain c then [c] else pct c) s)"

definition query_escape :: "string \<Rightarrow> string" where
  "query_escape s = concat (map (\<lambda>c. if unreserved c then [c]
                                     else if c = CHR '' '' then ''+'' else pct c) s)"

text \<open>The decoder of the receiving end (\<open>url.PathUnescape\<close>, \<open>url.QueryUnescape\<close>).\<close>

fun unescape :: "bool \<Rightarrow> string \<Rightarrow> string option" where
  "unescape q [] = Some []"
| "unescape q (c # cs) =
     (if c = CHR ''%'' then
        (case cs of h # l # r \<Rightarrow>
           (case (unhex h, unhex l) of
              (Some a, Some b) \<Rightarrow> map_option (\<lambda>t. char_of (16 * a + b) # t) (unescape q r)
            | _ \<Rightarrow> None)
         | _ \<Rightarrow> None)
      else map_option (\<lambda>t. (if q \<and> c = CHR ''+'' then CHR '' '' else c) # t) (unescape q cs))"

lemma unhex_hex_digit: "n < 16 \<Longrightarrow> unhex (hex_digit n) = Some n"
  by (auto simp: unhex_def hex_digit_def code_char_of Let_def)

lemma code_div_16 [simp]: "code c div 16 < 16"
  by (rule less_mult_imp_div_less) simp

lemma unescape_pct: "unescape q (pct c @ s) = map_option (\<lambda>t. c # t) (unescape q s)"
  by (simp add: pct_def unhex_hex_digit)

lemma plain_not_pct: "unreserved c \<Longrightarrow> c \<noteq> CHR ''%''" "unreserved c \<Longrightarrow> c \<noteq> CHR ''+''"
  "path_plain c \<Longrightarrow> c \<noteq> CHR ''%''"
  by (auto simp: path_plain_def unreserved_def is_alnum_def is_alpha_def is_digit_def code_def)

lemma unescape_path_escape_append:
  "unescape False (path_escape s @ t) = map_option (\<lambda>u. s @ u) (unescape False t)"
proof (induction s)
  case Nil
  then show ?case by (simp add: path_escape_def option.map_ident)
next
  case (Cons c s)
  have eq: "path_escape (c # s) @ t
      = (if path_plain c then [c] else pct c) @ (path_escape s @ t)"
    by (simp add: path_escape_def)
  show ?case
    by (cases "path_plain c")
       (simp_all add: eq unescape_pct Cons plain_not_pct option.map_comp comp_def)
qed

lemma unescape_path_escape: "unescape False (path_escape s) = Some s"
  using unescape_path_escape_append [of s "[]"] by simp

lemma unescape_query_escape: "unescape True (query_escape s) = Some s"
proof (induction s)
  case Nil
  then show ?case by (simp add: query_escape_def)
next
  case (Cons c s)
  have eq: "query_escape (d # s)
      = (if unreserved d then [d] else if d = CHR '' '' then ''+'' else pct d) @ query_escape s" for d
    by (simp add: query_escape_def)
  have "\<not> unreserved (CHR '' '')"
    by (simp add: unreserved_def is_alnum_def is_alpha_def is_digit_def code_def)
  then show ?case
    by (cases "unreserved c"; cases "c = CHR '' ''")
       (simp_all add: eq unescape_pct Cons plain_not_pct)
qed

lemma path_escape_inj: "path_escape s = path_escape t \<longleftrightarrow> s = t"
  by (metis option.inject unescape_path_escape)

lemma query_escape_inj: "query_escape s = query_escape t \<longleftrightarrow> s = t"
  by (metis option.inject unescape_query_escape)

lemma hex_digit_alnum: "n < 16 \<Longrightarrow> is_alnum (hex_digit n)"
  by (auto simp: hex_digit_def is_alnum_def is_alpha_def is_digit_def code_char_of)

lemma set_pct_D: "d \<in> set (pct c) \<Longrightarrow> d = CHR ''%'' \<or> is_alnum d"
  by (auto simp: pct_def hex_digit_alnum)

text \<open>No escaped text holds a separator of a path or of a query.\<close>

lemma path_escape_chars: "c \<in> set (path_escape s) \<Longrightarrow> path_plain c \<or> c = CHR ''%''"
  by (auto simp: path_escape_def path_plain_def unreserved_def split: if_splits dest!: set_pct_D)

lemma query_escape_chars:
  "c \<in> set (query_escape s) \<Longrightarrow> unreserved c \<or> c = CHR ''%'' \<or> c = CHR ''+''"
  by (auto simp: query_escape_def unreserved_def split: if_splits dest!: set_pct_D)

lemma separators_escaped:
  "\<not> path_plain (CHR ''/'')" "\<not> path_plain (CHR ''?'')" "\<not> path_plain (CHR ''#'')"
  "\<not> unreserved (CHR ''&'')" "\<not> unreserved (CHR ''='')" "\<not> unreserved (CHR ''#'')"
  by code_simp+

lemma path_escape_no_separator:
  "CHR ''/'' \<notin> set (path_escape s)" "CHR ''?'' \<notin> set (path_escape s)"
  "CHR ''#'' \<notin> set (path_escape s)"
  using path_escape_chars [of "CHR ''/''" s] path_escape_chars [of "CHR ''?''" s]
    path_escape_chars [of "CHR ''#''" s] separators_escaped by auto

lemma query_escape_no_separator:
  "CHR ''&'' \<notin> set (query_escape s)" "CHR ''='' \<notin> set (query_escape s)"
  "CHR ''#'' \<notin> set (query_escape s)"
  using query_escape_chars [of "CHR ''&''" s] query_escape_chars [of "CHR ''=''" s]
    query_escape_chars [of "CHR ''#''" s] separators_escaped by auto

fun join :: "string \<Rightarrow> string list \<Rightarrow> string" where
  "join sep [] = []"
| "join sep [x] = x"
| "join sep (x # y # zs) = x @ sep @ join sep (y # zs)"

text \<open>\<open>url.Values.Encode\<close>: the pairs sorted by key.\<close>

definition values_encode :: "(string \<times> string) list \<Rightarrow> string" where
  "values_encode kvs =
     join ''&'' (map (\<lambda>(k, v). query_escape k @ ''='' @ query_escape v) (sort_key fst kvs))"

section \<open>The regular expressions of sign-in method names\<close>

datatype re = Cls "char \<Rightarrow> bool" | Seq re re | Rep re nat nat

inductive re_match :: "re \<Rightarrow> string \<Rightarrow> bool" where
  Cls: "p c \<Longrightarrow> re_match (Cls p) [c]"
| Seq: "re_match r s \<Longrightarrow> re_match q t \<Longrightarrow> re_match (Seq r q) (s @ t)"
| Rep: "lo \<le> length ss \<Longrightarrow> length ss \<le> hi \<Longrightarrow> (\<forall>s \<in> set ss. re_match r s)
        \<Longrightarrow> re_match (Rep r lo hi) (concat ss)"

inductive_simps re_match_Cls: "re_match (Cls p) s"
inductive_simps re_match_Seq: "re_match (Seq r q) s"
inductive_simps re_match_Rep: "re_match (Rep r lo hi) s"

lemmas re_match_simps = re_match_Cls re_match_Seq re_match_Rep

definition re_name :: re where
  "re_name = Seq (Cls is_alpha) (Rep (Cls is_alnum) 0 63)"

definition re_names :: re where
  "re_names = Seq re_name (Rep (Seq (Cls (\<lambda>c. c = CHR '' '')) re_name) 0 7)"

text \<open>Executable recognisers of the two expressions.\<close>

definition method_name :: "string \<Rightarrow> bool" where
  "method_name s = (case s of [] \<Rightarrow> False
     | c # cs \<Rightarrow> is_alpha c \<and> length cs \<le> 63 \<and> list_all is_alnum cs)"

fun split_on :: "char \<Rightarrow> string \<Rightarrow> string list" where
  "split_on sep [] = [[]]"
| "split_on sep (c # cs) =
     (if c = sep then [] # split_on sep cs
      else case split_on sep cs of w # ws \<Rightarrow> (c # w) # ws | [] \<Rightarrow> [[c]])"

definition method_names :: "string \<Rightarrow> bool" where
  "method_names s = (let ws = split_on (CHR '' '') s in
     length ws \<le> 8 \<and> list_all method_name ws)"

lemma split_on_nonempty: "split_on sep s \<noteq> []"
  by (induction s) (auto split: list.splits)

lemma split_on_word: "sep \<notin> set w \<Longrightarrow> split_on sep w = [w]"
  by (induction w) auto

lemma split_on_append: "sep \<notin> set w \<Longrightarrow> split_on sep (w @ sep # s) = w # split_on sep s"
  by (induction w) auto

lemma split_on_join_rest:
  "split_on sep s = w # ws \<Longrightarrow> s = w @ concat (map (\<lambda>v. sep # v) ws)"
proof (induction s arbitrary: w ws)
  case Nil
  then show ?case by simp
next
  case (Cons c s)
  obtain v vs where "split_on sep s = v # vs"
    using split_on_nonempty [of sep s] by (cases "split_on sep s") auto
  note sp = this
  have h: "s = v @ concat (map (\<lambda>v. sep # v) vs)"
    using Cons.IH [OF sp] .
  show ?case
    by (cases "c = sep") (use Cons.prems sp in \<open>simp_all add: h\<close>)
qed

lemma split_on_concat:
  "sep \<notin> set w \<Longrightarrow> (\<forall>v \<in> set ws. sep \<notin> set v)
   \<Longrightarrow> split_on sep (w @ concat (map (\<lambda>v. sep # v) ws)) = w # ws"
proof (induction ws arbitrary: w)
  case Nil
  then show ?case by (simp add: split_on_word)
next
  case (Cons v ws)
  then show ?case by (simp add: split_on_append)
qed

lemma rep_Cls: "re_match (Rep (Cls p) lo hi) s \<longleftrightarrow> lo \<le> length s \<and> length s \<le> hi \<and> list_all p s"
proof
  assume "re_match (Rep (Cls p) lo hi) s"
  then obtain ss where s: "s = concat ss" "lo \<le> length ss" "length ss \<le> hi"
    and all: "\<forall>t \<in> set ss. \<exists>c. t = [c] \<and> p c"
    unfolding re_match_Rep re_match_Cls by blast
  have "length (concat ss) = length ss \<and> list_all p (concat ss)"
    using all by (induction ss) auto
  with s show "lo \<le> length s \<and> length s \<le> hi \<and> list_all p s" by simp
next
  assume a: "lo \<le> length s \<and> length s \<le> hi \<and> list_all p s"
  have "s = concat (map (\<lambda>c. [c]) s)" by (induction s) auto
  moreover have "\<forall>t \<in> set (map (\<lambda>c. [c]) s). re_match (Cls p) t"
    using a by (auto simp: re_match_simps list_all_iff)
  ultimately show "re_match (Rep (Cls p) lo hi) s"
    using a re_match.Rep [of lo "map (\<lambda>c. [c]) s" hi "Cls p"] by simp
qed

lemma re_name_iff: "re_match re_name s \<longleftrightarrow> method_name s"
proof (cases s)
  case Nil
  then show ?thesis
    by (auto simp: re_name_def method_name_def re_match_Seq re_match_Cls)
next
  case (Cons c cs)
  have "re_match re_name s \<longleftrightarrow> (\<exists>d t. c # cs = [d] @ t \<and> is_alpha d \<and> re_match (Rep (Cls is_alnum) 0 63) t)"
    unfolding re_name_def re_match_Seq Cons re_match_Cls by blast
  also have "\<dots> \<longleftrightarrow> is_alpha c \<and> re_match (Rep (Cls is_alnum) 0 63) cs"
    by simp
  finally show ?thesis by (simp add: Cons method_name_def rep_Cls)
qed

lemma method_name_no_space: "method_name w \<Longrightarrow> CHR '' '' \<notin> set w"
  by (cases w) (auto simp: method_name_def is_alpha_def is_alnum_def is_digit_def code_def
      list_all_iff split: if_splits)

lemma re_names_iff: "re_match re_names s \<longleftrightarrow> method_names s"
proof
  assume "re_match re_names s"
  then obtain w ss where w: "method_name w" and s: "s = w @ concat ss" and n: "length ss \<le> 7"
    and ss: "\<forall>t \<in> set ss. \<exists>v. t = CHR '' '' # v \<and> method_name v"
    by (auto simp: re_names_def re_match_Seq re_match_Rep re_match_Cls re_name_iff)
  from ss obtain vs where vs: "ss = map (\<lambda>v. CHR '' '' # v) vs" "\<forall>v \<in> set vs. method_name v"
  proof (induction ss arbitrary: thesis)
    case Nil
    then show ?case by simp
  next
    case (Cons t ss)
    obtain v where "t = CHR '' '' # v" "method_name v" using Cons.prems(2) by auto
    moreover obtain vs where "ss = map (\<lambda>v. CHR '' '' # v) vs" "\<forall>v \<in> set vs. method_name v"
      using Cons.IH Cons.prems(2) by auto
    ultimately show ?case using Cons.prems(1) [of "v # vs"] by simp
  qed
  have "split_on (CHR '' '') s = w # vs"
    unfolding s vs(1) using w vs(2) by (intro split_on_concat) (auto dest: method_name_no_space)
  with w vs n show "method_names s"
    by (simp add: method_names_def list_all_iff)
next
  assume a: "method_names s"
  obtain w ws where sp: "split_on (CHR '' '') s = w # ws"
    using split_on_nonempty [of _ s] by (meson neq_Nil_conv)
  then have s: "s = w @ concat (map (\<lambda>v. CHR '' '' # v) ws)"
    by (rule split_on_join_rest)
  have "\<forall>t \<in> set (map (\<lambda>v. CHR '' '' # v) ws). re_match (Seq (Cls (\<lambda>c. c = CHR '' '')) re_name) t"
    using a sp by (auto simp: method_names_def list_all_iff re_match_Seq re_match_Cls re_name_iff)
  moreover have "method_name w" "length ws \<le> 7"
    using a sp by (auto simp: method_names_def)
  ultimately show "re_match re_names s"
    unfolding re_names_def s
    by (intro re_match.Seq re_match.Rep) (auto simp: re_name_iff)
qed

section \<open>Base64\<close>

text \<open>
  \<open>base64.StdEncoding\<close> (padded) and \<open>base64.RawURLEncoding\<close> (URL alphabet, no padding).
  A decoder skips line breaks and does not check the unused trailing bits, as Go's
  non-strict decoders do.
\<close>

definition b64_char :: "bool \<Rightarrow> nat \<Rightarrow> char" where
  "b64_char u n = char_of (if n < 26 then 65 + n else if n < 52 then 71 + n
     else if n < 62 then n - 4 else if n = 62 then (if u then 45 else 43)
     else if u then 95 else 47)"

definition b64_val :: "bool \<Rightarrow> char \<Rightarrow> nat option" where
  "b64_val u c = (let n = code c in
     if 65 \<le> n \<and> n \<le> 90 then Some (n - 65)
     else if 97 \<le> n \<and> n \<le> 122 then Some (n - 71)
     else if 48 \<le> n \<and> n \<le> 57 then Some (n + 4)
     else if n = (if u then 45 else 43) then Some 62
     else if n = (if u then 95 else 47) then Some 63 else None)"

fun b64_enc :: "bool \<Rightarrow> bool \<Rightarrow> nat list \<Rightarrow> string" where
  "b64_enc u p (a # b # c # r) =
     b64_char u (a div 4) # b64_char u (a mod 4 * 16 + b div 16)
     # b64_char u (b mod 16 * 4 + c div 64) # b64_char u (c mod 64) # b64_enc u p r"
| "b64_enc u p [a, b] =
     [b64_char u (a div 4), b64_char u (a mod 4 * 16 + b div 16), b64_char u (b mod 16 * 4)]
     @ (if p then ''='' else [])"
| "b64_enc u p [a] =
     [b64_char u (a div 4), b64_char u (a mod 4 * 16)] @ (if p then ''=='' else [])"
| "b64_enc u p [] = []"

definition tail2 :: "bool \<Rightarrow> char \<Rightarrow> char \<Rightarrow> nat list option" where
  "tail2 u w x = (case (b64_val u w, b64_val u x) of
     (Some i, Some j) \<Rightarrow> Some [i * 4 + j div 16] | _ \<Rightarrow> None)"

definition tail3 :: "bool \<Rightarrow> char \<Rightarrow> char \<Rightarrow> char \<Rightarrow> nat list option" where
  "tail3 u w x y = (case (b64_val u w, b64_val u x, b64_val u y) of
     (Some i, Some j, Some k) \<Rightarrow> Some [i * 4 + j div 16, j mod 16 * 16 + k div 4] | _ \<Rightarrow> None)"

fun b64_dec :: "bool \<Rightarrow> bool \<Rightarrow> string \<Rightarrow> nat list option" where
  "b64_dec u p [] = Some []"
| "b64_dec u p [w] = None"
| "b64_dec u p [w, x] = (if p then None else tail2 u w x)"
| "b64_dec u p [w, x, y] = (if p then None else tail3 u w x y)"
| "b64_dec u p (w # x # y # z # r) =
     (if p \<and> z = CHR ''='' then
        (if r \<noteq> [] then None
         else if y = CHR ''='' then tail2 u w x else tail3 u w x y)
      else case (b64_val u w, b64_val u x, b64_val u y, b64_val u z) of
        (Some i, Some j, Some k, Some l) \<Rightarrow>
          map_option (\<lambda>t. [i * 4 + j div 16, j mod 16 * 16 + k div 4, k mod 4 * 64 + l] @ t)
            (b64_dec u p r)
      | _ \<Rightarrow> None)"

definition std_encode :: "string \<Rightarrow> string" where
  "std_encode s = b64_enc False True (map code s)"

definition raw_url_encode :: "string \<Rightarrow> string" where
  "raw_url_encode s = b64_enc True False (map code s)"

definition b64_decode :: "bool \<Rightarrow> bool \<Rightarrow> string \<Rightarrow> string option" where
  "b64_decode u p s = map_option (map char_of)
     (b64_dec u p (filter (\<lambda>c. code c \<noteq> 10 \<and> code c \<noteq> 13) s))"

definition raw_encoded_len :: "nat \<Rightarrow> nat" where
  "raw_encoded_len n = n div 3 * 4 + (n mod 3 * 8 + 5) div 6"

lemma b64_code: "n < 64 \<Longrightarrow> code (b64_char u n) = (if n < 26 then 65 + n else if n < 52 then 71 + n
     else if n < 62 then n - 4 else if n = 62 then (if u then 45 else 43) else if u then 95 else 47)"
  by (simp add: b64_char_def code_char_of)

lemma b64_val_char: "n < 64 \<Longrightarrow> b64_val u (b64_char u n) = Some n"
  by (auto simp: b64_val_def b64_code Let_def)

lemma b64_char_plain:
  assumes "n < 64"
  shows "b64_char u n \<noteq> CHR ''=''" "b64_char u n \<noteq> CHR ''.''"
    "code (b64_char u n) \<noteq> 10" "code (b64_char u n) \<noteq> 13"
proof -
  have "code (b64_char u n) \<in> {43, 45, 47, 95} \<union> {48..57} \<union> {65..90} \<union> {97..122}"
    using assms by (simp add: b64_code) arith
  then have c: "code (b64_char u n) \<notin> {10, 13, 46, 61}"
    by auto
  then show "code (b64_char u n) \<noteq> 10" "code (b64_char u n) \<noteq> 13"
    by simp_all
  show "b64_char u n \<noteq> CHR ''=''" "b64_char u n \<noteq> CHR ''.''"
    using c by (auto simp: code_def)
qed

lemma unpack_div: "y < m \<Longrightarrow> (x * m + y) div m = (x :: nat)"
  by simp

lemma unpack_mod: "y < m \<Longrightarrow> (x * m + y) mod m = (y :: nat)"
  by simp

text \<open>Three bytes are four sextets, and the decoder's shifts put them together again.\<close>

lemma sextets:
  assumes "a < 256" "b < 256" "c < (256 :: nat)"
  shows "a div 4 < 64" "a mod 4 * 16 + b div 16 < 64" "b mod 16 * 4 + c div 64 < 64"
    "c mod 64 < 64" "a mod 4 * 16 < 64" "b mod 16 * 4 < 64"
proof -
  have "a mod 4 < 4" "b div 16 < 16" "b mod 16 < 16" "c div 64 < 4" "a div 4 < 64"
    using assms by (auto intro: less_mult_imp_div_less)
  then show "a div 4 < 64" "a mod 4 * 16 + b div 16 < 64" "b mod 16 * 4 + c div 64 < 64"
    "c mod 64 < 64" "a mod 4 * 16 < 64" "b mod 16 * 4 < 64"
    by simp_all
qed

lemma reassemble:
  assumes "b < 256" "c < (256 :: nat)"
  shows "a div 4 * 4 + (a mod 4 * 16 + b div 16) div 16 = a"
    "(a mod 4 * 16 + b div 16) mod 16 * 16 + (b mod 16 * 4 + c div 64) div 4 = b"
    "(b mod 16 * 4 + c div 64) mod 4 * 64 + c mod 64 = c"
    "(a mod 4 * 16 + b div 16) mod 16 * 16 + b mod 16 * 4 div 4 = b"
proof -
  have "b div 16 < 16" "c div 64 < 4"
    using assms by (auto intro: less_mult_imp_div_less)
  then show "a div 4 * 4 + (a mod 4 * 16 + b div 16) div 16 = a"
    "(a mod 4 * 16 + b div 16) mod 16 * 16 + (b mod 16 * 4 + c div 64) div 4 = b"
    "(b mod 16 * 4 + c div 64) mod 4 * 64 + c mod 64 = c"
    "(a mod 4 * 16 + b div 16) mod 16 * 16 + b mod 16 * 4 div 4 = b"
    by (simp_all only: unpack_div unpack_mod div_mult_mod_eq) (simp_all add: div_mult_mod_eq)
qed

lemma zero_less_256: "(0 :: nat) < 256"
  by simp

lemma b64_dec_enc: "list_all (\<lambda>b. b < 256) bs \<Longrightarrow> b64_dec u p (b64_enc u p bs) = Some bs"
proof (induction u p bs rule: b64_enc.induct)
  case (1 u p a b c r)
  then have l: "a < 256" "b < 256" "c < 256" and ih: "b64_dec u p (b64_enc u p r) = Some r"
    by auto
  note s = sextets [OF l]
  show ?case
    unfolding b64_enc.simps b64_dec.simps b64_val_char [OF s(1)] b64_val_char [OF s(2)]
      b64_val_char [OF s(3)] b64_val_char [OF s(4)] ih
    using reassemble(1,2) [of b c a] reassemble(3) [of b c] l b64_char_plain(1) [OF s(4)] by simp
next
  case (2 u p a b)
  then have l: "a < 256" "b < 256" by auto
  note s = sextets [OF l zero_less_256]
  have "tail3 u (b64_char u (a div 4)) (b64_char u (a mod 4 * 16 + b div 16))
      (b64_char u (b mod 16 * 4)) = Some [a, b]"
    unfolding tail3_def b64_val_char [OF s(1)] b64_val_char [OF s(2)]
    using b64_val_char [OF s(6)] reassemble(1,4) [where a = a and b = b and c = 0] l(2) by simp
  then show ?case using b64_char_plain(1) [OF s(6)] by simp
next
  case (3 u p a)
  then have l: "a < 256" by auto
  note s = sextets [OF l zero_less_256 zero_less_256]
  have "tail2 u (b64_char u (a div 4)) (b64_char u (a mod 4 * 16)) = Some [a]"
    unfolding tail2_def b64_val_char [OF s(1)]
    using b64_val_char [OF s(5)] by simp
  then show ?case by simp
next
  case (4 u p)
  then show ?case by simp
qed

lemma b64_enc_chars:
  "list_all (\<lambda>b. b < 256) bs \<Longrightarrow> c \<in> set (b64_enc u p bs)
   \<Longrightarrow> (\<exists>n < 64. c = b64_char u n) \<or> (p \<and> c = CHR ''='')"
proof (induction u p bs rule: b64_enc.induct)
  case (1 u p a b d r)
  then have l: "a < 256" "b < 256" "d < 256" by auto
  show ?case
  proof (cases "c \<in> set (b64_enc u p r)")
    case True
    then show ?thesis using 1 by simp
  next
    case False
    then have "c \<in> b64_char u ` {a div 4, a mod 4 * 16 + b div 16, b mod 16 * 4 + d div 64, d mod 64}"
      using 1(3) by auto
    then show ?thesis using sextets(1-4) [OF l] by blast
  qed
next
  case (2 u p a b)
  then have l: "a < 256" "b < 256" by auto
  show ?case
    using 2(2) sextets(1) [OF l, of 0] sextets(2) [OF l, of 0] sextets(6) [OF l, of 0]
    by (cases p) (auto intro: exI [of _ "b mod 16 * 4"])
next
  case (3 u p a)
  then have l: "a < 256" by auto
  show ?case
    using 3(2) sextets(1) [OF l, of 0 0] sextets(5) [OF l, of 0 0]
    by (cases p) (auto intro: exI [of _ "a mod 4 * 16"])
qed auto

lemma bytes_of_string: "list_all (\<lambda>b. b < 256) (map code s)"
  by (simp add: list_all_iff)

lemma b64_no_breaks:
  "filter (\<lambda>c. code c \<noteq> 10 \<and> code c \<noteq> 13) (b64_enc u p (map code s)) = b64_enc u p (map code s)"
proof (rule filter_True, rule ballI)
  fix c assume "c \<in> set (b64_enc u p (map code s))"
  then have "(\<exists>n < 64. c = b64_char u n) \<or> c = CHR ''=''"
    using b64_enc_chars [OF bytes_of_string, of c u p s] by blast
  then show "code c \<noteq> 10 \<and> code c \<noteq> 13"
    by (auto simp: b64_char_plain) (simp_all add: code_def)
qed

lemma b64_roundtrip: "b64_decode u p (b64_enc u p (map code s)) = Some s"
  by (simp add: b64_decode_def b64_no_breaks b64_dec_enc bytes_of_string comp_def)

lemma raw_url_no_dot: "CHR ''.'' \<notin> set (raw_url_encode s)"
proof
  assume "CHR ''.'' \<in> set (raw_url_encode s)"
  then obtain n where "n < 64" "CHR ''.'' = b64_char True n"
    using b64_enc_chars [OF bytes_of_string, of "CHR ''.''" True False s]
    by (auto simp: raw_url_encode_def)
  then show False using b64_char_plain(2) [of n True] by simp
qed

lemma length_raw_url: "length (raw_url_encode s) = raw_encoded_len (length s)"
proof -
  have "length (b64_enc True False bs) = raw_encoded_len (length bs)" for bs
    by (induction True False bs rule: b64_enc.induct)
       (simp_all add: raw_encoded_len_def div_add_self1)
  then show ?thesis by (simp add: raw_url_encode_def)
qed

lemma raw_url_inj: "raw_url_encode s = raw_url_encode t \<longleftrightarrow> s = t"
  unfolding raw_url_encode_def by (metis b64_roundtrip option.inject)

end
