(* ===== verification/Config.thy ===== *)
theory Config
  imports GoText
begin

text \<open>
  \<open>config.go\<close> and the wiring of \<open>app.go\<close>: the settings, their defaults, the
  addresses derived from them, and which collaborators the application builds from them.
  Reading an environment variable, a secret file, a duration or a number are the framework's
  (viper); they are the arguments of \<open>Bind\<close>.  The rate of the framework's limiter
  (\<open>VerifyRatePerMinute\<close>) is a float only that limiter reads and is left out.
\<close>

section \<open>Settings\<close>

type_synonym duration = int

definition nanosecond :: duration where "nanosecond = 1"
definition second :: duration where "second = 1000000000"
definition minute :: duration where "minute = 60 * second"
definition hour :: duration where "hour = 60 * minute"

record configuration =
  issuer_url :: string
  auth_internal_url :: string
  auth_issuer :: string
  auth_client_id :: string
  auth_redirect_uri :: string
  post_login_url :: string
  signing_return_base_url :: string
  redis_url :: string
  session_ttl :: duration
  flow_ttl :: duration
  cookie_name :: string
  document_base_url :: string
  envelope_base_url :: string
  signflow_base_url :: string
  preview_base_url :: string
  document_audience :: string
  envelope_audience :: string
  signflow_audience :: string
  preview_audience :: string
  signer_base_url :: string
  signer_audience :: string
  signer_flows_ttl :: duration
  verify_max_bytes :: int
  verify_rate_burst :: int
  verify_concurrent_per_ip :: int
  validation_cache_ttl :: duration
  service_client_id :: string
  service_client_secret :: string
  outbound_issuer_url :: string
  access_audit_url :: string
  access_audit_audience :: string
  access_audit_scope :: string
  access_audit_outbox_dir :: string

text \<open>
  The sources of a value: an environment variable (an empty one counts as unset), the secret
  store, and the parsers of durations and integers.
\<close>

record sources =
  src_env :: "string \<Rightarrow> string"
  src_secret :: "string \<Rightarrow> string option"
  src_duration :: "string \<Rightarrow> duration option"
  src_int :: "string \<Rightarrow> int option"

definition env_or :: "sources \<Rightarrow> string \<Rightarrow> string \<Rightarrow> string" where
  "env_or v name dflt = (if src_env v name = [] then dflt else src_env v name)"

definition env_with :: "(string \<Rightarrow> 'a option) \<Rightarrow> sources \<Rightarrow> string \<Rightarrow> 'a \<Rightarrow> 'a option" where
  "env_with parse v name dflt =
     (if src_env v name = [] then Some dflt else parse (src_env v name))"

definition loadSecret :: "sources \<Rightarrow> string \<Rightarrow> string" where
  "loadSecret v name = (case src_secret v name of Some s \<Rightarrow> s | None \<Rightarrow> [])"

definition Bind_texts :: "sources \<Rightarrow> string \<Rightarrow> configuration" where
  "Bind_texts v issuer = \<lparr>
     issuer_url = issuer,
     auth_internal_url = env_or v ''AUTH_INTERNAL_URL'' [],
     auth_issuer = env_or v ''AUTH_ISSUER'' [],
     auth_client_id = env_or v ''AUTH_CLIENT_ID'' ''portal-spa'',
     auth_redirect_uri = env_or v ''AUTH_REDIRECT_URI'' [],
     post_login_url = env_or v ''POST_LOGIN_URL'' [],
     signing_return_base_url = env_or v ''SIGNING_RETURN_BASE_URL'' [],
     redis_url = env_or v ''REDIS_URL'' [],
     session_ttl = 12 * hour,
     flow_ttl = 10 * minute,
     cookie_name = env_or v ''COOKIE_NAME'' ''portal_session'',
     document_base_url = env_or v ''DOCUMENT_BASE_URL'' [],
     envelope_base_url = env_or v ''ENVELOPE_BASE_URL'' [],
     signflow_base_url = env_or v ''SIGNFLOW_BASE_URL'' [],
     preview_base_url = env_or v ''PREVIEW_BASE_URL'' [],
     document_audience = env_or v ''DOCUMENT_AUDIENCE'' ''svc:document'',
     envelope_audience = env_or v ''ENVELOPE_AUDIENCE'' ''svc:envelope'',
     signflow_audience = env_or v ''SIGNFLOW_AUDIENCE'' ''svc:signflow'',
     preview_audience = env_or v ''PREVIEW_AUDIENCE'' ''svc:preview'',
     signer_base_url = env_or v ''SIGNER_BASE_URL'' [],
     signer_audience = env_or v ''SIGNER_AUDIENCE'' ''svc:eparaksts-signer'',
     signer_flows_ttl = minute,
     verify_max_bytes = 25 * 2 ^ 20,
     verify_rate_burst = 3,
     verify_concurrent_per_ip = 1,
     validation_cache_ttl = 5 * minute,
     service_client_id = env_or v ''SERVICE_CLIENT_ID'' ''svc:portal-api'',
     service_client_secret = env_or v ''SERVICE_CLIENT_SECRET'' (loadSecret v ''SERVICE_CLIENT_SECRET''),
     outbound_issuer_url = env_or v ''OUTBOUND_ISSUER_URL'' [],
     access_audit_url = env_or v ''ACCESS_AUDIT_URL'' [],
     access_audit_audience = env_or v ''ACCESS_AUDIT_AUDIENCE'' ''svc:access-audit'',
     access_audit_scope = env_or v ''ACCESS_AUDIT_SCOPE'' ''access-audit:write'',
     access_audit_outbox_dir = env_or v ''ACCESS_AUDIT_OUTBOX_DIR'' []\<rparr>"

text \<open>The issuer of the auth settings is bound by their own library.\<close>

definition Bind :: "sources \<Rightarrow> string \<Rightarrow> configuration option" where
  "Bind v issuer = (let c = Bind_texts v issuer in
     case (env_with (src_duration v) v ''SESSION_TTL'' (session_ttl c),
           env_with (src_duration v) v ''FLOW_TTL'' (flow_ttl c),
           env_with (src_duration v) v ''SIGNER_FLOWS_TTL'' (signer_flows_ttl c),
           env_with (src_duration v) v ''VALIDATION_CACHE_TTL'' (validation_cache_ttl c)) of
       (Some st, Some ft, Some gt, Some vt) \<Rightarrow>
         (case (env_with (src_int v) v ''VERIFY_MAX_BYTES'' (verify_max_bytes c),
                env_with (src_int v) v ''VERIFY_RATE_BURST'' (verify_rate_burst c),
                env_with (src_int v) v ''VERIFY_CONCURRENT_PER_IP'' (verify_concurrent_per_ip c)) of
            (Some mb, Some rb, Some cp) \<Rightarrow>
              Some (c\<lparr>session_ttl := st, flow_ttl := ft, signer_flows_ttl := gt,
                      validation_cache_ttl := vt, verify_max_bytes := mb,
                      verify_rate_burst := rb, verify_concurrent_per_ip := cp\<rparr>)
          | _ \<Rightarrow> None)
     | _ \<Rightarrow> None)"

text \<open>
  The \<open>validate\<close> tags of the struct.  What a URL is, is the validator's
  (\<open>is_url\<close>); the base and auth settings are validated by their own libraries.
\<close>

definition Validate :: "(string \<Rightarrow> bool) \<Rightarrow> configuration \<Rightarrow> bool" where
  "Validate is_url c \<longleftrightarrow>
     list_all (\<lambda>u. u = [] \<or> is_url u)
       [auth_internal_url c, auth_issuer c, signing_return_base_url c, document_base_url c,
        envelope_base_url c, signflow_base_url c, preview_base_url c, signer_base_url c,
        outbound_issuer_url c, access_audit_url c] \<and>
     list_all (\<lambda>u. u \<noteq> [] \<and> is_url u) [auth_redirect_uri c, post_login_url c] \<and>
     auth_client_id c \<noteq> [] \<and> cookie_name c \<noteq> [] \<and>
     0 < session_ttl c \<and> 0 < flow_ttl c \<and> 0 < signer_flows_ttl c \<and> 0 < verify_max_bytes c \<and>
     0 < verify_rate_burst c \<and> 0 < verify_concurrent_per_ip c \<and> 0 \<le> validation_cache_ttl c"

section \<open>Parsing a URL\<close>

text \<open>
  \<open>url.Parse\<close>, of whose answer this code reads the scheme and the host.  \<open>url_scheme\<close>
  is \<open>getScheme\<close>, \<open>url_host\<close> is \<open>parseHost\<close>; the result is the scheme and the host,
  or nothing when the library answers an error.  The address inside brackets is not checked to
  be an IPv6 literal, which the library does.
\<close>

definition ascii_lower :: "string \<Rightarrow> string" where
  "ascii_lower s = map (\<lambda>c. if 65 \<le> code c \<and> code c \<le> 90 then char_of (code c + 32) else c) s"

definition scheme_char :: "char \<Rightarrow> bool" where
  "scheme_char c \<longleftrightarrow> is_alnum c \<or> c \<in> set ''+-.''"

definition url_scheme :: "string \<Rightarrow> (string \<times> string) option" where
  "url_scheme s = (let p = takeWhile scheme_char s; r = dropWhile scheme_char s in
     case r of
       c # rest \<Rightarrow>
         if c \<noteq> CHR '':'' then Some ([], s)
         else if p = [] then None
         else if is_alpha (hd p) then Some (p, rest) else Some ([], s)
     | [] \<Rightarrow> Some ([], s))"

definition host_plain :: "char \<Rightarrow> bool" where
  "host_plain c \<longleftrightarrow> is_alnum c \<or> c \<in> set ''-_.~!$&()*+,;=:[]<>'' \<or> code c = 34 \<or> code c = 39
                   \<or> 128 \<le> code c"

text \<open>A percent escape in a host may only encode a byte outside ASCII, or the zone mark \<open>%25\<close>.\<close>

fun host_unescape :: "string \<Rightarrow> string option" where
  "host_unescape [] = Some []"
| "host_unescape (c # cs) =
     (if c = CHR ''%'' then
        (case cs of h # l # r \<Rightarrow>
           (case (unhex h, unhex l) of
              (Some a, Some b) \<Rightarrow>
                if a < 8 \<and> \<not> (a = 2 \<and> b = 5) then None
                else map_option (\<lambda>t. char_of (16 * a + b) # t) (host_unescape r)
            | _ \<Rightarrow> None)
         | _ \<Rightarrow> None)
      else if host_plain c then map_option (\<lambda>t. c # t) (host_unescape cs) else None)"

text \<open>What follows the last separator, and what precedes it.\<close>

definition after_last :: "char \<Rightarrow> string \<Rightarrow> string" where
  "after_last c s = rev (takeWhile (\<lambda>d. d \<noteq> c) (rev s))"

definition before_last :: "char \<Rightarrow> string \<Rightarrow> string" where
  "before_last c s = take (length s - length (after_last c s) - 1) s"

definition url_host :: "string \<Rightarrow> string option" where
  "url_host h =
     (if h \<noteq> [] \<and> hd h = CHR ''['' then
        (if CHR '']'' \<notin> set h then None
         else let port = after_last (CHR '']'') h in
           if port = [] \<or> (hd port = CHR '':'' \<and> list_all is_digit (tl port))
           then host_unescape h else None)
      else if CHR '':'' \<in> set h \<and> \<not> list_all is_digit (after_last (CHR '':'') h) then None
      else host_unescape h)"

definition userinfo_char :: "char \<Rightarrow> bool" where
  "userinfo_char c \<longleftrightarrow> is_alnum c \<or> c \<in> set ''-._:~!$&()*+,;=%@'' \<or> code c = 39"

definition url_authority :: "string \<Rightarrow> string option" where
  "url_authority a =
     (if CHR ''@'' \<in> set a then
        (let u = before_last (CHR ''@'') a in
         if list_all userinfo_char u \<and> unescape False u \<noteq> None
         then url_host (after_last (CHR ''@'') a) else None)
      else url_host a)"

definition url_parse :: "string \<Rightarrow> (string \<times> string) option" where
  "url_parse raw =
     (let u = takeWhile (\<lambda>c. c \<noteq> CHR ''#'') raw; frag = drop (length u + 1) raw in
      if list_ex (\<lambda>c. code c < 32 \<or> code c = 127) u \<or> unescape False frag = None then None
      else if u = ''*'' then Some ([], [])
      else case url_scheme u of None \<Rightarrow> None
        | Some (sch, r) \<Rightarrow>
          let scheme = ascii_lower sch; rest = takeWhile (\<lambda>c. c \<noteq> CHR ''?'') r in
          if take 1 rest \<noteq> ''/'' \<and> scheme \<noteq> [] then Some (scheme, [])
          else if take 1 rest \<noteq> ''/'' \<and> CHR '':'' \<in> set (takeWhile (\<lambda>c. c \<noteq> CHR ''/'') rest)
          then None
          else if take 2 rest = ''//'' \<and> (scheme \<noteq> [] \<or> take 3 rest \<noteq> ''///'') then
            (let auth = takeWhile (\<lambda>c. c \<noteq> CHR ''/'') (drop 2 rest);
                 path = dropWhile (\<lambda>c. c \<noteq> CHR ''/'') (drop 2 rest) in
             case url_authority auth of None \<Rightarrow> None
             | Some h \<Rightarrow> if unescape False path = None then None else Some (scheme, h))
          else if unescape False rest = None then None else Some (scheme, []))"

section \<open>Derived addresses\<close>

definition slash :: char where "slash = CHR ''/''"

definition origin_of :: "string \<Rightarrow> string option" where
  "origin_of u = (case url_parse u of
     Some (s, h) \<Rightarrow> if s \<noteq> [] \<and> h \<noteq> [] then Some (s @ ''://'' @ h) else None
   | None \<Rightarrow> None)"

definition SignInIssuer :: "configuration \<Rightarrow> string" where
  "SignInIssuer c = (let u = trim_space (auth_issuer c) in
     if u \<noteq> [] then trim_suffix u ''/'' else trim_suffix (issuer_url c) ''/'')"

definition InternalURL :: "configuration \<Rightarrow> string" where
  "InternalURL c = (let u = trim_space (auth_internal_url c) in
     if u \<noteq> [] then u else issuer_url c)"

definition RedisEnabled :: "configuration \<Rightarrow> bool" where
  "RedisEnabled c \<longleftrightarrow> trim_space (redis_url c) \<noteq> []"

definition LogoutRedirectURI :: "configuration \<Rightarrow> string" where
  "LogoutRedirectURI c = (case origin_of (post_login_url c) of
     Some org \<Rightarrow> org @ ''/welcome'' | None \<Rightarrow> [])"

definition signingReturnOrigin :: "configuration \<Rightarrow> string" where
  "signingReturnOrigin c = (let org = trim_space (signing_return_base_url c) in
     trim_right slash
       (if org = [] then (case origin_of (post_login_url c) of Some org' \<Rightarrow> org' | None \<Rightarrow> org)
        else org))"

definition SigningSlotReturnURLs :: "configuration \<Rightarrow> string \<Rightarrow> string \<Rightarrow> string \<times> string" where
  "SigningSlotReturnURLs c envelopeID slotID = (let org = signingReturnOrigin c in
     if org = [] then ([], [])
     else let base = org @ ''/envelopes/'' @ path_escape envelopeID
                 @ ''/slots/'' @ path_escape slotID @ ''/sign?job={jobId}''
       in (base, base @ ''&error=1''))"

definition OutboundEnabled :: "configuration \<Rightarrow> bool" where
  "OutboundEnabled c \<longleftrightarrow>
     trim_space (document_base_url c) \<noteq> [] \<or> trim_space (envelope_base_url c) \<noteq> [] \<or>
     trim_space (signflow_base_url c) \<noteq> [] \<or> trim_space (preview_base_url c) \<noteq> [] \<or>
     trim_space (signer_base_url c) \<noteq> []"

definition outboundIssuer :: "configuration \<Rightarrow> string" where
  "outboundIssuer c = (let u = trim_space (outbound_issuer_url c) in
     if u \<noteq> [] then u else issuer_url c)"

text \<open>The outbound client's settings: the auth settings with these three replaced.\<close>

record auth_config =
  ac_issuer :: string
  ac_client_id :: string
  ac_client_secret :: string

definition OutboundAuthClientConfig :: "configuration \<Rightarrow> auth_config" where
  "OutboundAuthClientConfig c = \<lparr>ac_issuer = outboundIssuer c,
     ac_client_id = service_client_id c, ac_client_secret = service_client_secret c\<rparr>"

definition AccessAuditEnabled :: "configuration \<Rightarrow> bool" where
  "AccessAuditEnabled c \<longleftrightarrow> trim_space (access_audit_url c) \<noteq> []"

end
