(* ===== verification/GoJson.thy ===== *)
theory GoJson
  imports GoText
begin

text \<open>
  \<open>encoding/json\<close> as the service uses it.  A document is the value it denotes; a struct is
  encoded and decoded by the list of its tagged fields, as the library does by reflection:
  encoding walks the fields in order and leaves out an empty \<open>omitempty\<close> field, decoding
  walks the members of the object, looks the field up by name (an exact match first, then one
  that ignores the case of ASCII letters), skips unknown members, leaves the field alone on
  \<open>null\<close>, and fails on a value of the wrong kind.

  The locale \<open>codec\<close> is the contract between a type's encoder and decoder; its lemmas lift
  the round trip to slices and pointers, and every wire type of the service interprets it.
\<close>

section \<open>Values\<close>

text \<open>\<open>JFrac\<close> is a number literal that denotes no integer.\<close>

datatype json = JNull | JBool bool | JInt int | JFrac string | JStr string
  | JArr "json list" | JObj "(string \<times> json) list"

text \<open>A body: the JSON document its bytes denote, or bytes that are not a document.\<close>

datatype payload = Doc json | Bytes string

definition payload_empty :: "payload \<Rightarrow> bool" where
  "payload_empty b = (b = Bytes [])"

section \<open>Tagged fields\<close>

datatype 'r field = Field (fname: string) (fget: "'r \<Rightarrow> json option")
  (fset: "json \<Rightarrow> 'r \<Rightarrow> 'r option")

definition lower :: "char \<Rightarrow> char" where
  "lower c = (if 65 \<le> code c \<and> code c \<le> 90 then char_of (code c + 32) else c)"

definition fold_name :: "string \<Rightarrow> string" where
  "fold_name s = map lower s"

definition find_field :: "'r field list \<Rightarrow> string \<Rightarrow> 'r field option" where
  "find_field fs k = (case find (\<lambda>f. fname f = k) fs of
     Some f \<Rightarrow> Some f | None \<Rightarrow> find (\<lambda>f. fold_name (fname f) = fold_name k) fs)"

fun set_members :: "'r field list \<Rightarrow> (string \<times> json) list \<Rightarrow> 'r \<Rightarrow> 'r option" where
  "set_members fs [] r = Some r"
| "set_members fs ((k, v) # ms) r = (case find_field fs k of
     None \<Rightarrow> set_members fs ms r
   | Some f \<Rightarrow> (case fset f v r of None \<Rightarrow> None | Some r' \<Rightarrow> set_members fs ms r'))"

definition members :: "'r field list \<Rightarrow> 'r \<Rightarrow> (string \<times> json) list" where
  "members fs r =
     concat (map (\<lambda>f. case fget f r of None \<Rightarrow> [] | Some j \<Rightarrow> [(fname f, j)]) fs)"

definition enc_struct :: "'r field list \<Rightarrow> 'r \<Rightarrow> json" where
  "enc_struct fs r = JObj (members fs r)"

definition dec_struct :: "'r field list \<Rightarrow> json \<Rightarrow> 'r \<Rightarrow> 'r option" where
  "dec_struct fs j r = (case j of JNull \<Rightarrow> Some r | JObj ms \<Rightarrow> set_members fs ms r | _ \<Rightarrow> None)"

section \<open>The kinds of fields\<close>

definition set_str :: "((string \<Rightarrow> string) \<Rightarrow> 'r \<Rightarrow> 'r) \<Rightarrow> json \<Rightarrow> 'r \<Rightarrow> 'r option" where
  "set_str u j r = (case j of JStr s \<Rightarrow> Some (u (\<lambda>_. s) r) | JNull \<Rightarrow> Some r | _ \<Rightarrow> None)"

definition int64 :: "int \<Rightarrow> bool" where
  "int64 i \<longleftrightarrow> - (2 ^ 63) \<le> i \<and> i < 2 ^ 63"

definition set_int :: "((int \<Rightarrow> int) \<Rightarrow> 'r \<Rightarrow> 'r) \<Rightarrow> json \<Rightarrow> 'r \<Rightarrow> 'r option" where
  "set_int u j r = (case j of JInt i \<Rightarrow> if int64 i then Some (u (\<lambda>_. i) r) else None
     | JNull \<Rightarrow> Some r | _ \<Rightarrow> None)"

definition set_bool :: "((bool \<Rightarrow> bool) \<Rightarrow> 'r \<Rightarrow> 'r) \<Rightarrow> json \<Rightarrow> 'r \<Rightarrow> 'r option" where
  "set_bool u j r = (case j of JBool b \<Rightarrow> Some (u (\<lambda>_. b) r) | JNull \<Rightarrow> Some r | _ \<Rightarrow> None)"

definition str_field where
  "str_field n g u = Field n (\<lambda>r. Some (JStr (g r))) (set_str u)"

definition str_omit where
  "str_omit n g u = Field n (\<lambda>r. if g r = [] then None else Some (JStr (g r))) (set_str u)"

definition int_field where
  "int_field n g u = Field n (\<lambda>r. Some (JInt (g r))) (set_int u)"

definition int_omit where
  "int_omit n g u = Field n (\<lambda>r. if g r = 0 then None else Some (JInt (g r))) (set_int u)"

definition bool_field where
  "bool_field n g u = Field n (\<lambda>r. Some (JBool (g r))) (set_bool u)"

definition bool_omit where
  "bool_omit n g u = Field n (\<lambda>r. if g r then Some (JBool True) else None) (set_bool u)"

text \<open>A nested struct is decoded into the value already there.\<close>

definition sub_field where
  "sub_field n enc dec g u = Field n (\<lambda>r. Some (enc (g r)))
     (\<lambda>j r. map_option (\<lambda>x. u (\<lambda>_. x) r) (dec j (g r)))"

definition ptr_omit where
  "ptr_omit n enc dec zero g u = Field n (\<lambda>r. map_option enc (g r))
     (\<lambda>j r. if j = JNull then Some (u (\<lambda>_. None) r)
            else map_option (\<lambda>x. u (\<lambda>_. Some x) r)
              (dec j (case g r of Some x \<Rightarrow> x | None \<Rightarrow> zero)))"

definition dec_list :: "(json \<Rightarrow> 'a \<Rightarrow> 'a option) \<Rightarrow> 'a \<Rightarrow> json list \<Rightarrow> 'a list option" where
  "dec_list dec zero js = those (map (\<lambda>j. dec j zero) js)"

text \<open>
  A slice with \<open>omitempty\<close> never shows whether it was nil or empty, so it is a list; one
  without it encodes nil as \<open>null\<close>, so it is an optional list (\<open>None\<close> is nil).
\<close>

definition list_omit where
  "list_omit n enc dec zero g u = Field n
     (\<lambda>r. if g r = [] then None else Some (JArr (map enc (g r))))
     (\<lambda>j r. case j of JNull \<Rightarrow> Some (u (\<lambda>_. []) r)
        | JArr js \<Rightarrow> map_option (\<lambda>xs. u (\<lambda>_. xs) r) (dec_list dec zero js) | _ \<Rightarrow> None)"

definition slice_field where
  "slice_field n enc dec zero g u = Field n
     (\<lambda>r. Some (case g r of None \<Rightarrow> JNull | Some xs \<Rightarrow> JArr (map enc xs)))
     (\<lambda>j r. case j of JNull \<Rightarrow> Some (u (\<lambda>_. None) r)
        | JArr js \<Rightarrow> map_option (\<lambda>xs. u (\<lambda>_. Some xs) r) (dec_list dec zero js) | _ \<Rightarrow> None)"

definition enc_str :: "string \<Rightarrow> json" where "enc_str s = JStr s"

definition dec_str :: "json \<Rightarrow> string \<Rightarrow> string option" where
  "dec_str j s = (case j of JStr t \<Rightarrow> Some t | JNull \<Rightarrow> Some s | _ \<Rightarrow> None)"

text \<open>
  A \<open>time.Time\<close> is a count of nanoseconds from the zero time (the first of January of year
  1, UTC).  Its text form is RFC 3339; the calendar is a parameter (a formatter and a parser).
\<close>

type_synonym gotime = int

record calendar =
  fmt_time :: "gotime \<Rightarrow> string"
  parse_time :: "string \<Rightarrow> gotime option"

definition set_time :: "calendar \<Rightarrow> ((gotime \<Rightarrow> gotime) \<Rightarrow> 'r \<Rightarrow> 'r) \<Rightarrow> json \<Rightarrow> 'r \<Rightarrow> 'r option" where
  "set_time cal u j r = (case j of
     JStr s \<Rightarrow> map_option (\<lambda>t. u (\<lambda>_. t) r) (parse_time cal s) | JNull \<Rightarrow> Some r | _ \<Rightarrow> None)"

definition time_field where
  "time_field cal n g u = Field n (\<lambda>r. Some (JStr (fmt_time cal (g r)))) (set_time cal u)"

definition time_omit where
  "time_omit cal n g u = Field n
     (\<lambda>r. if g r = 0 then None else Some (JStr (fmt_time cal (g r)))) (set_time cal u)"

lemmas field_defs = str_field_def str_omit_def int_field_def int_omit_def bool_field_def
  bool_omit_def sub_field_def ptr_omit_def list_omit_def slice_field_def time_field_def
  time_omit_def

lemma fname_fields [simp]:
  "fname (str_field n g1 u1) = n" "fname (str_omit n g1 u1) = n"
  "fname (int_field n g2 u2) = n" "fname (int_omit n g2 u2) = n"
  "fname (bool_field n g3 u3) = n" "fname (bool_omit n g3 u3) = n"
  "fname (sub_field n e4 d4 g4 u4) = n" "fname (ptr_omit n e5 d5 z5 g5 u5) = n"
  "fname (list_omit n e6 d6 z6 g6 u6) = n" "fname (slice_field n e7 d7 z7 g7 u7) = n"
  "fname (time_field c n g8 u8) = n" "fname (time_omit c n g8 u8) = n"
  by (simp_all add: field_defs)

section \<open>The round trip of a struct\<close>

text \<open>Encoding a struct and decoding the result sets the fields one after the other.\<close>

fun copy_fields :: "'r field list \<Rightarrow> 'r \<Rightarrow> 'r \<Rightarrow> 'r option" where
  "copy_fields [] r z = Some z"
| "copy_fields (f # fs) r z = (case fget f r of
     None \<Rightarrow> copy_fields fs r z
   | Some j \<Rightarrow> (case fset f j z of None \<Rightarrow> None | Some z' \<Rightarrow> copy_fields fs r z'))"

declare copy_fields.simps(2) [simp del]

lemma find_field_in:
  "distinct (map fname fs) \<Longrightarrow> f \<in> set fs \<Longrightarrow> find_field fs (fname f) = Some f"
proof -
  assume d: "distinct (map fname fs)" and f: "f \<in> set fs"
  have "find (\<lambda>g. fname g = fname f) fs = Some f"
    using d f by (induction fs) auto
  then show ?thesis by (simp add: find_field_def)
qed

lemma set_members_suffix:
  assumes "distinct (map fname fs)" "set gs \<subseteq> set fs"
  shows "set_members fs (members gs r) z = copy_fields gs r z"
  using assms(2)
proof (induction gs arbitrary: z)
  case Nil
  then show ?case by (simp add: members_def)
next
  case (Cons g gs)
  then have "find_field fs (fname g) = Some g"
    using assms(1) by (intro find_field_in) auto
  then show ?case
    using Cons by (auto simp: members_def copy_fields.simps split: option.split)
qed

lemma dec_enc_struct:
  "distinct (map fname fs) \<Longrightarrow> dec_struct fs (enc_struct fs r) z = copy_fields fs r z"
  by (simp add: dec_struct_def enc_struct_def set_members_suffix)

lemma copy_str: "copy_fields (str_field n g u # fs) r z = copy_fields fs r (u (\<lambda>_. g r) z)"
  by (simp add: copy_fields.simps str_field_def set_str_def)

lemma copy_str_omit:
  "u (\<lambda>_. []) z = z \<Longrightarrow>
   copy_fields (str_omit n g u # fs) r z = copy_fields fs r (u (\<lambda>_. g r) z)"
  by (simp add: copy_fields.simps str_omit_def set_str_def)

lemma copy_int:
  "int64 (g r) \<Longrightarrow> copy_fields (int_field n g u # fs) r z = copy_fields fs r (u (\<lambda>_. g r) z)"
  by (simp add: copy_fields.simps int_field_def set_int_def)

lemma copy_int_out: "\<not> int64 (g r) \<Longrightarrow> copy_fields (int_field n g u # fs) r z = None"
  by (simp add: copy_fields.simps int_field_def set_int_def)

lemma copy_int_omit:
  "int64 (g r) \<Longrightarrow> u (\<lambda>_. 0) z = z \<Longrightarrow>
   copy_fields (int_omit n g u # fs) r z = copy_fields fs r (u (\<lambda>_. g r) z)"
  by (simp add: copy_fields.simps int_omit_def set_int_def)

lemma copy_bool: "copy_fields (bool_field n g u # fs) r z = copy_fields fs r (u (\<lambda>_. g r) z)"
  by (simp add: copy_fields.simps bool_field_def set_bool_def)

lemma copy_bool_omit:
  "u (\<lambda>_. False) z = z \<Longrightarrow>
   copy_fields (bool_omit n g u # fs) r z = copy_fields fs r (u (\<lambda>_. g r) z)"
  by (cases "g r") (simp_all add: copy_fields.simps bool_omit_def set_bool_def)

lemma copy_sub:
  "dec (enc (g r)) (g z) = Some (g r) \<Longrightarrow>
   copy_fields (sub_field n enc dec g u # fs) r z = copy_fields fs r (u (\<lambda>_. g r) z)"
  by (simp add: copy_fields.simps sub_field_def)

lemma copy_ptr_omit:
  "g z = None \<Longrightarrow> u (\<lambda>_. None) z = z \<Longrightarrow>
   (\<And>x. g r = Some x \<Longrightarrow> enc x \<noteq> JNull \<and> dec (enc x) zero = Some x) \<Longrightarrow>
   copy_fields (ptr_omit n enc dec zero g u # fs) r z = copy_fields fs r (u (\<lambda>_. g r) z)"
  by (cases "g r") (simp_all add: copy_fields.simps ptr_omit_def)

lemma copy_list_omit:
  "u (\<lambda>_. []) z = z \<Longrightarrow> dec_list dec zero (map enc (g r)) = Some (g r) \<Longrightarrow>
   copy_fields (list_omit n enc dec zero g u # fs) r z = copy_fields fs r (u (\<lambda>_. g r) z)"
  by (simp add: copy_fields.simps list_omit_def)

lemma copy_slice:
  "(\<And>xs. g r = Some xs \<Longrightarrow> dec_list dec zero (map enc xs) = Some xs) \<Longrightarrow>
   copy_fields (slice_field n enc dec zero g u # fs) r z = copy_fields fs r (u (\<lambda>_. g r) z)"
  by (cases "g r") (simp_all add: copy_fields.simps slice_field_def)

lemma copy_time:
  "parse_time cal (fmt_time cal (g r)) = Some (g r) \<Longrightarrow>
   copy_fields (time_field cal n g u # fs) r z = copy_fields fs r (u (\<lambda>_. g r) z)"
  by (simp add: copy_fields.simps time_field_def set_time_def)

lemma copy_time_omit:
  "u (\<lambda>_. 0) z = z \<Longrightarrow> (g r \<noteq> 0 \<Longrightarrow> parse_time cal (fmt_time cal (g r)) = Some (g r)) \<Longrightarrow>
   copy_fields (time_omit cal n g u # fs) r z = copy_fields fs r (u (\<lambda>_. g r) z)"
  by (cases "g r = 0") (simp_all add: copy_fields.simps time_omit_def set_time_def)

lemmas copy_simps = copy_str copy_str_omit copy_int copy_int_omit copy_bool copy_bool_omit
  copy_sub copy_ptr_omit copy_list_omit copy_slice copy_time copy_time_omit

lemma enc_struct_not_null [simp]: "enc_struct fs r \<noteq> JNull"
  by (simp add: enc_struct_def)

section \<open>The contract of an encoder and its decoder\<close>

locale codec =
  fixes enc :: "'a \<Rightarrow> json" and dec :: "json \<Rightarrow> 'a \<Rightarrow> 'a option" and zero :: 'a
    and valid :: "'a \<Rightarrow> bool"
  assumes decode_encode: "valid x \<Longrightarrow> dec (enc x) zero = Some x"
begin

lemma decode_encode_list: "list_all valid xs \<Longrightarrow> dec_list dec zero (map enc xs) = Some xs"
  by (induction xs) (simp_all add: dec_list_def decode_encode)

lemma encode_inj: "valid x \<Longrightarrow> valid y \<Longrightarrow> enc x = enc y \<Longrightarrow> x = y"
  by (metis decode_encode option.inject)

end

interpretation str_codec: codec enc_str dec_str "[]" "\<lambda>_. True"
  by unfold_locales (simp add: enc_str_def dec_str_def)

lemma str_list_roundtrip [simp]: "dec_list dec_str [] (map enc_str xs) = Some xs"
  by (rule str_codec.decode_encode_list) (simp add: list_all_iff)

lemma dec_struct_null: "dec_struct fs JNull z = Some z"
  by (simp add: dec_struct_def)

end
