(* ===== verification/SessionData.thy ===== *)
theory SessionData
  imports GoJson
begin

text \<open>
  The values of \<open>session/session.go\<close>: a sign-in in progress (\<open>Flow\<close>), a logged-in
  session (\<open>Session\<close>) with the signing capabilities its login captured, their JSON form
  (the struct tags), the key a flow is parked under, and the stored form of the session's
  signing-bound key.
\<close>

section \<open>Records and struct tags\<close>

record seal =
  seal_id :: string
  seal_label :: string
  seal_certificate :: string

record capabilities =
  cap_sign_identity :: string
  cap_signing_cert :: string
  cap_auth_cert :: string
  cap_seals :: "seal list"
  cap_seals_known :: bool

record session =
  ses_key :: string
  ses_access_token :: string
  ses_access_expiry :: int
  ses_refresh_token :: string
  ses_subject :: string
  ses_csrf :: string
  ses_capabilities :: "capabilities option"

record flow =
  fl_key :: string
  fl_verifier :: string
  fl_nonce :: string
  fl_acr_values :: string
  fl_started :: gotime

definition zero_seal :: seal where
  "zero_seal = \<lparr>seal_id = [], seal_label = [], seal_certificate = []\<rparr>"

definition seal_fields :: "seal field list" where
  "seal_fields = [
     str_field ''id'' seal_id seal_id_update,
     str_field ''label'' seal_label seal_label_update,
     str_omit ''certificate'' seal_certificate seal_certificate_update]"

definition enc_seal :: "seal \<Rightarrow> json" where "enc_seal = enc_struct seal_fields"

definition dec_seal :: "json \<Rightarrow> seal \<Rightarrow> seal option" where "dec_seal = dec_struct seal_fields"

definition zero_capabilities :: capabilities where
  "zero_capabilities = \<lparr>cap_sign_identity = [], cap_signing_cert = [], cap_auth_cert = [],
     cap_seals = [], cap_seals_known = False\<rparr>"

definition capabilities_fields :: "capabilities field list" where
  "capabilities_fields = [
     str_omit ''sign_identity_id'' cap_sign_identity cap_sign_identity_update,
     str_omit ''signing_certificate'' cap_signing_cert cap_signing_cert_update,
     str_omit ''auth_certificate'' cap_auth_cert cap_auth_cert_update,
     list_omit ''seals'' enc_seal dec_seal zero_seal cap_seals cap_seals_update,
     bool_omit ''seals_known'' cap_seals_known cap_seals_known_update]"

definition enc_capabilities :: "capabilities \<Rightarrow> json" where
  "enc_capabilities = enc_struct capabilities_fields"

definition dec_capabilities :: "json \<Rightarrow> capabilities \<Rightarrow> capabilities option" where
  "dec_capabilities = dec_struct capabilities_fields"

definition zero_session :: session where
  "zero_session = \<lparr>ses_key = [], ses_access_token = [], ses_access_expiry = 0,
     ses_refresh_token = [], ses_subject = [], ses_csrf = [], ses_capabilities = None\<rparr>"

definition session_fields :: "session field list" where
  "session_fields = [
     str_field ''key'' ses_key ses_key_update,
     str_field ''access_token'' ses_access_token ses_access_token_update,
     int_field ''access_expiry'' ses_access_expiry ses_access_expiry_update,
     str_field ''refresh_token'' ses_refresh_token ses_refresh_token_update,
     str_field ''subject'' ses_subject ses_subject_update,
     str_field ''csrf'' ses_csrf ses_csrf_update,
     ptr_omit ''capabilities'' enc_capabilities dec_capabilities zero_capabilities
       ses_capabilities ses_capabilities_update]"

definition enc_session :: "session \<Rightarrow> json" where "enc_session = enc_struct session_fields"

definition dec_session :: "json \<Rightarrow> session \<Rightarrow> session option" where
  "dec_session = dec_struct session_fields"

definition zero_flow :: flow where
  "zero_flow = \<lparr>fl_key = [], fl_verifier = [], fl_nonce = [], fl_acr_values = [], fl_started = 0\<rparr>"

definition flow_fields :: "calendar \<Rightarrow> flow field list" where
  "flow_fields cal = [
     str_field ''key'' fl_key fl_key_update,
     str_field ''verifier'' fl_verifier fl_verifier_update,
     str_omit ''nonce'' fl_nonce fl_nonce_update,
     str_omit ''acr_values'' fl_acr_values fl_acr_values_update,
     time_omit cal ''started'' fl_started fl_started_update]"

definition enc_flow :: "calendar \<Rightarrow> flow \<Rightarrow> json" where
  "enc_flow cal = enc_struct (flow_fields cal)"

definition dec_flow :: "calendar \<Rightarrow> json \<Rightarrow> flow \<Rightarrow> flow option" where
  "dec_flow cal = dec_struct (flow_fields cal)"

section \<open>Round trips\<close>

lemma enc_capabilities_not_null [simp]: "enc_capabilities c \<noteq> JNull"
  by (simp add: enc_capabilities_def)

interpretation seal_codec: codec enc_seal dec_seal zero_seal "\<lambda>_. True"
proof unfold_locales
  fix x :: seal
  have "distinct (map fname seal_fields)" by (simp add: seal_fields_def)
  from dec_enc_struct [OF this] show "dec_seal (enc_seal x) zero_seal = Some x"
    by (simp add: dec_seal_def enc_seal_def) (simp add: seal_fields_def zero_seal_def copy_simps)
qed

interpretation capabilities_codec:
  codec enc_capabilities dec_capabilities zero_capabilities "\<lambda>_. True"
proof unfold_locales
  fix x :: capabilities
  have "distinct (map fname capabilities_fields)" by (simp add: capabilities_fields_def)
  moreover have "dec_list dec_seal zero_seal (map enc_seal (cap_seals x)) = Some (cap_seals x)"
    by (rule seal_codec.decode_encode_list) (simp add: list_all_iff)
  ultimately show "dec_capabilities (enc_capabilities x) zero_capabilities = Some x"
    using dec_enc_struct [of capabilities_fields]
    by (simp add: dec_capabilities_def enc_capabilities_def)
       (simp add: capabilities_fields_def zero_capabilities_def copy_simps)
qed

text \<open>The expiry is an \<open>int64\<close>.\<close>

definition valid_session :: "session \<Rightarrow> bool" where
  "valid_session s \<longleftrightarrow> int64 (ses_access_expiry s)"

interpretation session_codec: codec enc_session dec_session zero_session valid_session
proof unfold_locales
  fix x assume v: "valid_session x"
  have "distinct (map fname session_fields)" by (simp add: session_fields_def)
  from dec_enc_struct [OF this] show "dec_session (enc_session x) zero_session = Some x"
    using v capabilities_codec.decode_encode
    by (simp add: dec_session_def enc_session_def)
       (simp add: session_fields_def zero_session_def copy_simps valid_session_def)
qed

definition valid_flow :: "calendar \<Rightarrow> flow \<Rightarrow> bool" where
  "valid_flow cal f \<longleftrightarrow>
     fl_started f = 0 \<or> parse_time cal (fmt_time cal (fl_started f)) = Some (fl_started f)"

interpretation flow_codec: codec "enc_flow cal" "dec_flow cal" zero_flow "valid_flow cal" for cal
proof unfold_locales
  fix x assume v: "valid_flow cal x"
  have "distinct (map fname (flow_fields cal))" by (simp add: flow_fields_def)
  from dec_enc_struct [OF this] show "dec_flow cal (enc_flow cal x) zero_flow = Some x"
    using v by (simp add: dec_flow_def enc_flow_def)
       (auto simp: flow_fields_def zero_flow_def copy_simps valid_flow_def)
qed

section \<open>The key of a parked flow\<close>

definition FlowKey :: "(string \<Rightarrow> string) \<Rightarrow> string \<Rightarrow> string \<Rightarrow> string" where
  "FlowKey sha256 state binding = state @ ''.'' @ raw_url_encode (sha256 binding)"

text \<open>
  The hash part has a fixed length and no dot, so the key determines the state and the hash,
  whatever characters the state holds.
\<close>

lemma FlowKey_eq:
  assumes "length (sha256 b) = length (sha256 b')"
  shows "FlowKey sha256 s b = FlowKey sha256 s' b' \<longleftrightarrow> s = s' \<and> sha256 b = sha256 b'"
proof -
  have "length (raw_url_encode (sha256 b)) = length (raw_url_encode (sha256 b'))"
    using assms by (simp add: length_raw_url)
  then show ?thesis by (auto simp: FlowKey_def raw_url_inj)
qed

section \<open>The stored form of a signing-bound key\<close>

text \<open>
  The key itself is opaque.  \<open>x509.MarshalPKCS8PrivateKey\<close> and its parser are the record
  \<open>pkcs8\<close>; a parsed key of another kind is \<open>None\<close>.
\<close>

type_synonym pkey = string

record pkcs8 =
  marshal_pkcs8 :: "pkey \<Rightarrow> string + string"
  parse_pkcs8 :: "string \<Rightarrow> string + pkey option"

definition MarshalKey :: "pkcs8 \<Rightarrow> pkey \<Rightarrow> string + string" where
  "MarshalKey x key = (case marshal_pkcs8 x key of
     Inl e \<Rightarrow> Inl e | Inr der \<Rightarrow> Inr (std_encode der))"

definition ParseKey :: "pkcs8 \<Rightarrow> string \<Rightarrow> string + pkey" where
  "ParseKey x s = (case b64_decode False True s of
     None \<Rightarrow> Inl ''illegal base64 data''
   | Some der \<Rightarrow> (case parse_pkcs8 x der of
       Inl e \<Rightarrow> Inl e
     | Inr None \<Rightarrow> Inl ''session: stored key is not an ECDSA private key''
     | Inr (Some key) \<Rightarrow> Inr key))"

lemma ParseKey_MarshalKey:
  assumes "MarshalKey x key = Inr s" and "\<And>der. marshal_pkcs8 x key = Inr der \<Longrightarrow> parse_pkcs8 x der = Inr (Some key)"
  shows "ParseKey x s = Inr key"
  using assms b64_roundtrip
  by (auto simp: MarshalKey_def ParseKey_def std_encode_def split: sum.splits)

end
