(* ===== verification/Wire.thy ===== *)
theory Wire
  imports SessionData
begin

text \<open>
  The wire types of the composed services, as \<open>clients/document.go\<close>,
  \<open>clients/envelope.go\<close> and \<open>clients/signflow.go\<close> declare them: one record per
  struct, its fields with their JSON tags in the struct's order, and the encoder and decoder
  they give.  A slice without \<open>omitempty\<close> is an optional list (\<open>None\<close> is the nil slice,
  encoded as \<open>null\<close>).
\<close>

section \<open>Documents\<close>

record inner_file =
  inf_name :: string
  inf_media_type :: string
  inf_size :: int

definition zero_inner_file :: inner_file where
  "zero_inner_file = \<lparr>inf_name = [], inf_media_type = [], inf_size = 0\<rparr>"

definition inner_file_fields :: "inner_file field list" where
  "inner_file_fields = [
     str_field ''name'' inf_name inf_name_update,
     str_omit ''mediaType'' inf_media_type inf_media_type_update,
     int_omit ''size'' inf_size inf_size_update]"

definition enc_inner_file :: "inner_file \<Rightarrow> json" where
  "enc_inner_file = enc_struct inner_file_fields"

definition dec_inner_file :: "json \<Rightarrow> inner_file \<Rightarrow> inner_file option" where
  "dec_inner_file = dec_struct inner_file_fields"


record meta =
  meta_id :: string
  meta_filename :: string
  meta_mime :: string
  meta_content_hash :: string
  meta_size :: int
  meta_preservation_class :: string
  meta_kind :: string
  meta_status :: string
  meta_has_signatures :: bool
  meta_inner_files :: "inner_file list"

definition zero_meta :: meta where
  "zero_meta = \<lparr>meta_id = [], meta_filename = [], meta_mime = [],
     meta_content_hash = [], meta_size = 0, meta_preservation_class = [], meta_kind = [],
     meta_status = [], meta_has_signatures = False, meta_inner_files = []\<rparr>"

definition meta_fields :: "meta field list" where
  "meta_fields = [
     str_field ''id'' meta_id meta_id_update,
     str_field ''filename'' meta_filename meta_filename_update,
     str_field ''mime'' meta_mime meta_mime_update,
     str_field ''contentHash'' meta_content_hash meta_content_hash_update,
     int_field ''size'' meta_size meta_size_update,
     str_field ''preservationClass'' meta_preservation_class meta_preservation_class_update,
     str_omit ''kind'' meta_kind meta_kind_update,
     str_omit ''status'' meta_status meta_status_update,
     bool_omit ''hasSignatures'' meta_has_signatures meta_has_signatures_update,
     list_omit ''innerFiles'' enc_inner_file dec_inner_file zero_inner_file
       meta_inner_files meta_inner_files_update]"

definition enc_meta :: "meta \<Rightarrow> json" where
  "enc_meta = enc_struct meta_fields"

definition dec_meta :: "json \<Rightarrow> meta \<Rightarrow> meta option" where
  "dec_meta = dec_struct meta_fields"


record doc_summary =
  ds_id :: string
  ds_filename :: string
  ds_mime :: string
  ds_size :: int
  ds_status :: string
  ds_preservation_class :: string
  ds_retention_until :: gotime
  ds_created_at :: gotime

definition zero_doc_summary :: doc_summary where
  "zero_doc_summary = \<lparr>ds_id = [], ds_filename = [], ds_mime = [], ds_size = 0,
     ds_status = [], ds_preservation_class = [], ds_retention_until = 0, ds_created_at = 0\<rparr>"

definition doc_summary_fields :: "calendar \<Rightarrow> doc_summary field list" where
  "doc_summary_fields cal = [
     str_field ''id'' ds_id ds_id_update,
     str_field ''filename'' ds_filename ds_filename_update,
     str_field ''mime'' ds_mime ds_mime_update,
     int_field ''size'' ds_size ds_size_update,
     str_field ''status'' ds_status ds_status_update,
     str_field ''preservationClass'' ds_preservation_class ds_preservation_class_update,
     time_field cal ''retentionUntil'' ds_retention_until ds_retention_until_update,
     time_field cal ''createdAt'' ds_created_at ds_created_at_update]"

definition enc_doc_summary :: "calendar \<Rightarrow> doc_summary \<Rightarrow> json" where
  "enc_doc_summary cal = enc_struct (doc_summary_fields cal)"

definition dec_doc_summary :: "calendar \<Rightarrow> json \<Rightarrow> doc_summary \<Rightarrow> doc_summary option" where
  "dec_doc_summary cal = dec_struct (doc_summary_fields cal)"


record doc_list =
  dl_documents :: "doc_summary list option"
  dl_count :: int

definition zero_doc_list :: doc_list where
  "zero_doc_list = \<lparr>dl_documents = None, dl_count = 0\<rparr>"

definition doc_list_fields :: "calendar \<Rightarrow> doc_list field list" where
  "doc_list_fields cal = [
     slice_field ''documents'' (enc_doc_summary cal) (dec_doc_summary cal) zero_doc_summary
       dl_documents dl_documents_update,
     int_field ''count'' dl_count dl_count_update]"

definition enc_doc_list :: "calendar \<Rightarrow> doc_list \<Rightarrow> json" where
  "enc_doc_list cal = enc_struct (doc_list_fields cal)"

definition dec_doc_list :: "calendar \<Rightarrow> json \<Rightarrow> doc_list \<Rightarrow> doc_list option" where
  "dec_doc_list cal = dec_struct (doc_list_fields cal)"


record chain_row =
  ch_root :: string
  ch_id :: string
  ch_kind :: string
  ch_status :: string
  ch_filename :: string
  ch_mime :: string
  ch_size :: int
  ch_has_signatures :: bool
  ch_platform_signed :: bool
  ch_result_frozen :: bool
  ch_retention_until :: gotime
  ch_chain_created_at :: gotime
  ch_created_at :: gotime
  ch_updated_at :: gotime
  ch_preservation_class :: string
  ch_inner_files :: "inner_file list"

definition zero_chain_row :: chain_row where
  "zero_chain_row = \<lparr>ch_root = [], ch_id = [], ch_kind = [], ch_status = [],
     ch_filename = [], ch_mime = [], ch_size = 0, ch_has_signatures = False,
     ch_platform_signed = False, ch_result_frozen = False, ch_retention_until = 0,
     ch_chain_created_at = 0, ch_created_at = 0, ch_updated_at = 0, ch_preservation_class = [],
     ch_inner_files = []\<rparr>"

definition chain_row_fields :: "calendar \<Rightarrow> chain_row field list" where
  "chain_row_fields cal = [
     str_field ''chainRootId'' ch_root ch_root_update,
     str_field ''id'' ch_id ch_id_update,
     str_field ''kind'' ch_kind ch_kind_update,
     str_field ''status'' ch_status ch_status_update,
     str_omit ''filename'' ch_filename ch_filename_update,
     str_field ''mime'' ch_mime ch_mime_update,
     int_field ''size'' ch_size ch_size_update,
     bool_field ''hasSignatures'' ch_has_signatures ch_has_signatures_update,
     bool_field ''platformSigned'' ch_platform_signed ch_platform_signed_update,
     bool_omit ''resultFrozen'' ch_result_frozen ch_result_frozen_update,
     time_field cal ''retentionUntil'' ch_retention_until ch_retention_until_update,
     time_field cal ''chainCreatedAt'' ch_chain_created_at ch_chain_created_at_update,
     time_field cal ''createdAt'' ch_created_at ch_created_at_update,
     time_field cal ''updatedAt'' ch_updated_at ch_updated_at_update,
     str_field ''preservationClass'' ch_preservation_class ch_preservation_class_update,
     list_omit ''innerFiles'' enc_inner_file dec_inner_file zero_inner_file
       ch_inner_files ch_inner_files_update]"

definition enc_chain_row :: "calendar \<Rightarrow> chain_row \<Rightarrow> json" where
  "enc_chain_row cal = enc_struct (chain_row_fields cal)"

definition dec_chain_row :: "calendar \<Rightarrow> json \<Rightarrow> chain_row \<Rightarrow> chain_row option" where
  "dec_chain_row cal = dec_struct (chain_row_fields cal)"


record chain_list =
  cl_chains :: "chain_row list option"
  cl_count :: int

definition zero_chain_list :: chain_list where
  "zero_chain_list = \<lparr>cl_chains = None, cl_count = 0\<rparr>"

definition chain_list_fields :: "calendar \<Rightarrow> chain_list field list" where
  "chain_list_fields cal = [
     slice_field ''chains'' (enc_chain_row cal) (dec_chain_row cal) zero_chain_row
       cl_chains cl_chains_update,
     int_field ''count'' cl_count cl_count_update]"

definition enc_chain_list :: "calendar \<Rightarrow> chain_list \<Rightarrow> json" where
  "enc_chain_list cal = enc_struct (chain_list_fields cal)"

definition dec_chain_list :: "calendar \<Rightarrow> json \<Rightarrow> chain_list \<Rightarrow> chain_list option" where
  "dec_chain_list cal = dec_struct (chain_list_fields cal)"


record history_row =
  hr_root :: string
  hr_id :: string
  hr_kind :: string
  hr_status :: string
  hr_filename :: string
  hr_mime :: string
  hr_size :: int
  hr_has_signatures :: bool
  hr_platform_signed :: bool
  hr_chain_created_at :: gotime
  hr_destroyed_at :: gotime

definition zero_history_row :: history_row where
  "zero_history_row = \<lparr>hr_root = [], hr_id = [], hr_kind = [], hr_status = [],
     hr_filename = [], hr_mime = [], hr_size = 0, hr_has_signatures = False,
     hr_platform_signed = False, hr_chain_created_at = 0, hr_destroyed_at = 0\<rparr>"

definition history_row_fields :: "calendar \<Rightarrow> history_row field list" where
  "history_row_fields cal = [
     str_field ''chainRootId'' hr_root hr_root_update,
     str_field ''id'' hr_id hr_id_update,
     str_field ''kind'' hr_kind hr_kind_update,
     str_field ''status'' hr_status hr_status_update,
     str_omit ''filename'' hr_filename hr_filename_update,
     str_field ''mime'' hr_mime hr_mime_update,
     int_field ''size'' hr_size hr_size_update,
     bool_field ''hasSignatures'' hr_has_signatures hr_has_signatures_update,
     bool_field ''platformSigned'' hr_platform_signed hr_platform_signed_update,
     time_field cal ''chainCreatedAt'' hr_chain_created_at hr_chain_created_at_update,
     time_field cal ''destroyedAt'' hr_destroyed_at hr_destroyed_at_update]"

definition enc_history_row :: "calendar \<Rightarrow> history_row \<Rightarrow> json" where
  "enc_history_row cal = enc_struct (history_row_fields cal)"

definition dec_history_row :: "calendar \<Rightarrow> json \<Rightarrow> history_row \<Rightarrow> history_row option" where
  "dec_history_row cal = dec_struct (history_row_fields cal)"


record history_list =
  hl_chains :: "history_row list option"
  hl_count :: int

definition zero_history_list :: history_list where
  "zero_history_list = \<lparr>hl_chains = None, hl_count = 0\<rparr>"

definition history_list_fields :: "calendar \<Rightarrow> history_list field list" where
  "history_list_fields cal = [
     slice_field ''chains'' (enc_history_row cal) (dec_history_row cal) zero_history_row
       hl_chains hl_chains_update,
     int_field ''count'' hl_count hl_count_update]"

definition enc_history_list :: "calendar \<Rightarrow> history_list \<Rightarrow> json" where
  "enc_history_list cal = enc_struct (history_list_fields cal)"

definition dec_history_list :: "calendar \<Rightarrow> json \<Rightarrow> history_list \<Rightarrow> history_list option" where
  "dec_history_list cal = dec_struct (history_list_fields cal)"


record bundle_entry =
  be_name :: string
  be_source_id :: string

definition zero_bundle_entry :: bundle_entry where
  "zero_bundle_entry = \<lparr>be_name = [], be_source_id = []\<rparr>"

definition bundle_entry_fields :: "bundle_entry field list" where
  "bundle_entry_fields = [
     str_omit ''name'' be_name be_name_update,
     str_omit ''sourceId'' be_source_id be_source_id_update]"

definition enc_bundle_entry :: "bundle_entry \<Rightarrow> json" where
  "enc_bundle_entry = enc_struct bundle_entry_fields"

definition dec_bundle_entry :: "json \<Rightarrow> bundle_entry \<Rightarrow> bundle_entry option" where
  "dec_bundle_entry = dec_struct bundle_entry_fields"


section \<open>Envelopes\<close>

record slot_input =
  si_order_index :: int
  si_role :: string
  si_flow :: string
  si_required_loa :: string
  si_identity_ref :: string

definition zero_slot_input :: slot_input where
  "zero_slot_input = \<lparr>si_order_index = 0, si_role = [], si_flow = [],
     si_required_loa = [], si_identity_ref = []\<rparr>"

definition slot_input_fields :: "slot_input field list" where
  "slot_input_fields = [
     int_field ''orderIndex'' si_order_index si_order_index_update,
     str_omit ''role'' si_role si_role_update,
     str_omit ''flow'' si_flow si_flow_update,
     str_omit ''requiredLoa'' si_required_loa si_required_loa_update,
     str_omit ''identityRef'' si_identity_ref si_identity_ref_update]"

definition enc_slot_input :: "slot_input \<Rightarrow> json" where
  "enc_slot_input = enc_struct slot_input_fields"

definition dec_slot_input :: "json \<Rightarrow> slot_input \<Rightarrow> slot_input option" where
  "dec_slot_input = dec_struct slot_input_fields"


record create_input =
  ci_title :: string
  ci_order_policy :: string
  ci_profile :: string
  ci_documents :: "string list"
  ci_slots :: "slot_input list"

definition zero_create_input :: create_input where
  "zero_create_input = \<lparr>ci_title = [], ci_order_policy = [], ci_profile = [],
     ci_documents = [], ci_slots = []\<rparr>"

definition create_input_fields :: "create_input field list" where
  "create_input_fields = [
     str_omit ''title'' ci_title ci_title_update,
     str_omit ''orderPolicy'' ci_order_policy ci_order_policy_update,
     str_omit ''profile'' ci_profile ci_profile_update,
     list_omit ''documents'' enc_str dec_str []
       ci_documents ci_documents_update,
     list_omit ''slots'' enc_slot_input dec_slot_input zero_slot_input
       ci_slots ci_slots_update]"

definition enc_create_input :: "create_input \<Rightarrow> json" where
  "enc_create_input = enc_struct create_input_fields"

definition dec_create_input :: "json \<Rightarrow> create_input \<Rightarrow> create_input option" where
  "dec_create_input = dec_struct create_input_fields"


record created =
  cr_id :: string
  cr_status :: string
  cr_version :: int
  cr_slot_ids :: "string list"

definition zero_created :: created where
  "zero_created = \<lparr>cr_id = [], cr_status = [], cr_version = 0, cr_slot_ids = []\<rparr>"

definition created_fields :: "created field list" where
  "created_fields = [
     str_field ''id'' cr_id cr_id_update,
     str_field ''status'' cr_status cr_status_update,
     int_field ''version'' cr_version cr_version_update,
     list_omit ''slotIds'' enc_str dec_str []
       cr_slot_ids cr_slot_ids_update]"

definition enc_created :: "created \<Rightarrow> json" where
  "enc_created = enc_struct created_fields"

definition dec_created :: "json \<Rightarrow> created \<Rightarrow> created option" where
  "dec_created = dec_struct created_fields"


record summary =
  sm_id :: string
  sm_title :: string
  sm_status :: string
  sm_order_policy :: string
  sm_version :: int
  sm_created_at :: string
  sm_updated_at :: string
  sm_doc_ids :: "string list"
  sm_slot_count :: int
  sm_signed_count :: int
  sm_your_turn :: bool
  sm_retention_until :: string

definition zero_summary :: summary where
  "zero_summary = \<lparr>sm_id = [], sm_title = [], sm_status = [], sm_order_policy = [],
     sm_version = 0, sm_created_at = [], sm_updated_at = [], sm_doc_ids = [],
     sm_slot_count = 0, sm_signed_count = 0, sm_your_turn = False, sm_retention_until = []\<rparr>"

definition summary_fields :: "summary field list" where
  "summary_fields = [
     str_field ''id'' sm_id sm_id_update,
     str_omit ''title'' sm_title sm_title_update,
     str_field ''status'' sm_status sm_status_update,
     str_omit ''orderPolicy'' sm_order_policy sm_order_policy_update,
     int_field ''version'' sm_version sm_version_update,
     str_omit ''createdAt'' sm_created_at sm_created_at_update,
     str_omit ''updatedAt'' sm_updated_at sm_updated_at_update,
     list_omit ''docIds'' enc_str dec_str []
       sm_doc_ids sm_doc_ids_update,
     int_field ''slotCount'' sm_slot_count sm_slot_count_update,
     int_field ''signedCount'' sm_signed_count sm_signed_count_update,
     bool_field ''yourTurn'' sm_your_turn sm_your_turn_update,
     str_omit ''retentionUntil'' sm_retention_until sm_retention_until_update]"

definition enc_summary :: "summary \<Rightarrow> json" where
  "enc_summary = enc_struct summary_fields"

definition dec_summary :: "json \<Rightarrow> summary \<Rightarrow> summary option" where
  "dec_summary = dec_struct summary_fields"


record list_result =
  lr_envelopes :: "summary list option"
  lr_next_cursor :: string

definition zero_list_result :: list_result where
  "zero_list_result = \<lparr>lr_envelopes = None, lr_next_cursor = []\<rparr>"

definition list_result_fields :: "list_result field list" where
  "list_result_fields = [
     slice_field ''envelopes'' enc_summary dec_summary zero_summary
       lr_envelopes lr_envelopes_update,
     str_omit ''nextCursor'' lr_next_cursor lr_next_cursor_update]"

definition enc_list_result :: "list_result \<Rightarrow> json" where
  "enc_list_result = enc_struct list_result_fields"

definition dec_list_result :: "json \<Rightarrow> list_result \<Rightarrow> list_result option" where
  "dec_list_result = dec_struct list_result_fields"


record signing_task =
  st_envelope :: summary
  st_slot_id :: string
  st_order_index :: int
  st_slot_status :: string
  st_slot_flow :: string
  st_your_turn :: bool

definition zero_signing_task :: signing_task where
  "zero_signing_task = \<lparr>st_envelope = zero_summary, st_slot_id = [], st_order_index = 0,
     st_slot_status = [], st_slot_flow = [], st_your_turn = False\<rparr>"

definition signing_task_fields :: "signing_task field list" where
  "signing_task_fields = [
     sub_field ''envelope'' enc_summary dec_summary st_envelope st_envelope_update,
     str_field ''slotId'' st_slot_id st_slot_id_update,
     int_field ''orderIndex'' st_order_index st_order_index_update,
     str_field ''slotStatus'' st_slot_status st_slot_status_update,
     str_omit ''slotFlow'' st_slot_flow st_slot_flow_update,
     bool_field ''yourTurn'' st_your_turn st_your_turn_update]"

definition enc_signing_task :: "signing_task \<Rightarrow> json" where
  "enc_signing_task = enc_struct signing_task_fields"

definition dec_signing_task :: "json \<Rightarrow> signing_task \<Rightarrow> signing_task option" where
  "dec_signing_task = dec_struct signing_task_fields"


record signing_tasks_result =
  str_tasks :: "signing_task list option"
  str_next_cursor :: string

definition zero_signing_tasks_result :: signing_tasks_result where
  "zero_signing_tasks_result = \<lparr>str_tasks = None, str_next_cursor = []\<rparr>"

definition signing_tasks_result_fields :: "signing_tasks_result field list" where
  "signing_tasks_result_fields = [
     slice_field ''tasks'' enc_signing_task dec_signing_task zero_signing_task
       str_tasks str_tasks_update,
     str_omit ''nextCursor'' str_next_cursor str_next_cursor_update]"

definition enc_signing_tasks_result :: "signing_tasks_result \<Rightarrow> json" where
  "enc_signing_tasks_result = enc_struct signing_tasks_result_fields"

definition dec_signing_tasks_result :: "json \<Rightarrow> signing_tasks_result \<Rightarrow> signing_tasks_result option" where
  "dec_signing_tasks_result = dec_struct signing_tasks_result_fields"


record origin =
  org_name :: string
  org_ref :: string

definition zero_origin :: origin where
  "zero_origin = \<lparr>org_name = [], org_ref = []\<rparr>"

definition origin_fields :: "origin field list" where
  "origin_fields = [
     str_field ''name'' org_name org_name_update,
     str_omit ''ref'' org_ref org_ref_update]"

definition enc_origin :: "origin \<Rightarrow> json" where
  "enc_origin = enc_struct origin_fields"

definition dec_origin :: "json \<Rightarrow> origin \<Rightarrow> origin option" where
  "dec_origin = dec_struct origin_fields"


record envelope_view =
  ev_id :: string
  ev_owner :: string
  ev_title :: string
  ev_status :: string
  ev_order_policy :: string
  ev_version :: int
  ev_created_at :: string
  ev_origin :: "origin option"

definition zero_envelope_view :: envelope_view where
  "zero_envelope_view = \<lparr>ev_id = [], ev_owner = [], ev_title = [], ev_status = [],
     ev_order_policy = [], ev_version = 0, ev_created_at = [], ev_origin = None\<rparr>"

definition envelope_view_fields :: "envelope_view field list" where
  "envelope_view_fields = [
     str_field ''id'' ev_id ev_id_update,
     str_omit ''owner'' ev_owner ev_owner_update,
     str_omit ''title'' ev_title ev_title_update,
     str_field ''status'' ev_status ev_status_update,
     str_omit ''orderPolicy'' ev_order_policy ev_order_policy_update,
     int_field ''version'' ev_version ev_version_update,
     str_omit ''createdAt'' ev_created_at ev_created_at_update,
     ptr_omit ''origin'' enc_origin dec_origin zero_origin
       ev_origin ev_origin_update]"

definition enc_envelope_view :: "envelope_view \<Rightarrow> json" where
  "enc_envelope_view = enc_struct envelope_view_fields"

definition dec_envelope_view :: "json \<Rightarrow> envelope_view \<Rightarrow> envelope_view option" where
  "dec_envelope_view = dec_struct envelope_view_fields"


record slot =
  sl_id :: string
  sl_order_index :: int
  sl_role :: string
  sl_flow :: string
  sl_required_loa :: string
  sl_status :: string
  sl_job_id :: string
  sl_signature_id :: string
  sl_signed_doc_ref :: string
  sl_identity_ref :: string
  sl_signer_name :: string
  sl_return_url :: string

definition zero_slot :: slot where
  "zero_slot = \<lparr>sl_id = [], sl_order_index = 0, sl_role = [], sl_flow = [],
     sl_required_loa = [], sl_status = [], sl_job_id = [], sl_signature_id = [],
     sl_signed_doc_ref = [], sl_identity_ref = [], sl_signer_name = [], sl_return_url = []\<rparr>"

definition slot_fields :: "slot field list" where
  "slot_fields = [
     str_field ''id'' sl_id sl_id_update,
     int_field ''orderIndex'' sl_order_index sl_order_index_update,
     str_omit ''role'' sl_role sl_role_update,
     str_omit ''flow'' sl_flow sl_flow_update,
     str_omit ''requiredLoa'' sl_required_loa sl_required_loa_update,
     str_omit ''status'' sl_status sl_status_update,
     str_omit ''jobId'' sl_job_id sl_job_id_update,
     str_omit ''signatureId'' sl_signature_id sl_signature_id_update,
     str_omit ''signedDocRef'' sl_signed_doc_ref sl_signed_doc_ref_update,
     str_omit ''identityRef'' sl_identity_ref sl_identity_ref_update,
     str_omit ''signerName'' sl_signer_name sl_signer_name_update,
     str_omit ''returnUrl'' sl_return_url sl_return_url_update]"

definition enc_slot :: "slot \<Rightarrow> json" where
  "enc_slot = enc_struct slot_fields"

definition dec_slot :: "json \<Rightarrow> slot \<Rightarrow> slot option" where
  "dec_slot = dec_struct slot_fields"


record doc_ref =
  dr_document_id :: string
  dr_content_hash :: string
  dr_filename :: string

definition zero_doc_ref :: doc_ref where
  "zero_doc_ref = \<lparr>dr_document_id = [], dr_content_hash = [], dr_filename = []\<rparr>"

definition doc_ref_fields :: "doc_ref field list" where
  "doc_ref_fields = [
     str_field ''documentId'' dr_document_id dr_document_id_update,
     str_omit ''contentHash'' dr_content_hash dr_content_hash_update,
     str_omit ''filename'' dr_filename dr_filename_update]"

definition enc_doc_ref :: "doc_ref \<Rightarrow> json" where
  "enc_doc_ref = enc_struct doc_ref_fields"

definition dec_doc_ref :: "json \<Rightarrow> doc_ref \<Rightarrow> doc_ref option" where
  "dec_doc_ref = dec_struct doc_ref_fields"


record detail =
  dt_envelope :: envelope_view
  dt_slots :: "slot list option"
  dt_documents :: "doc_ref list option"

definition zero_detail :: detail where
  "zero_detail = \<lparr>dt_envelope = zero_envelope_view, dt_slots = None, dt_documents = None\<rparr>"

definition detail_fields :: "detail field list" where
  "detail_fields = [
     sub_field ''envelope'' enc_envelope_view dec_envelope_view dt_envelope dt_envelope_update,
     slice_field ''slots'' enc_slot dec_slot zero_slot
       dt_slots dt_slots_update,
     slice_field ''documents'' enc_doc_ref dec_doc_ref zero_doc_ref
       dt_documents dt_documents_update]"

definition enc_detail :: "detail \<Rightarrow> json" where
  "enc_detail = enc_struct detail_fields"

definition dec_detail :: "json \<Rightarrow> detail \<Rightarrow> detail option" where
  "dec_detail = dec_struct detail_fields"


record transition =
  tr_id :: string
  tr_status :: string
  tr_version :: int

definition zero_transition :: transition where
  "zero_transition = \<lparr>tr_id = [], tr_status = [], tr_version = 0\<rparr>"

definition transition_fields :: "transition field list" where
  "transition_fields = [
     str_field ''id'' tr_id tr_id_update,
     str_omit ''status'' tr_status tr_status_update,
     int_omit ''version'' tr_version tr_version_update]"

definition enc_transition :: "transition \<Rightarrow> json" where
  "enc_transition = enc_struct transition_fields"

definition dec_transition :: "json \<Rightarrow> transition \<Rightarrow> transition option" where
  "dec_transition = dec_struct transition_fields"


section \<open>Signings\<close>

record begin_input =
  bi_envelope_id :: string
  bi_slot_id :: string
  bi_flow :: string
  bi_sig_format :: string
  bi_document_id :: string
  bi_signing_certificate :: string
  bi_auth_certificate :: string
  bi_sign_identity_id :: string
  bi_seal_id :: string
  bi_post_auth_redirect :: string
  bi_auth_error_redirect :: string

definition zero_begin_input :: begin_input where
  "zero_begin_input = \<lparr>bi_envelope_id = [], bi_slot_id = [], bi_flow = [],
     bi_sig_format = [], bi_document_id = [], bi_signing_certificate = [],
     bi_auth_certificate = [], bi_sign_identity_id = [], bi_seal_id = [],
     bi_post_auth_redirect = [], bi_auth_error_redirect = []\<rparr>"

definition begin_input_fields :: "begin_input field list" where
  "begin_input_fields = [
     str_field ''envelopeId'' bi_envelope_id bi_envelope_id_update,
     str_field ''slotId'' bi_slot_id bi_slot_id_update,
     str_field ''flow'' bi_flow bi_flow_update,
     str_field ''sigFormat'' bi_sig_format bi_sig_format_update,
     str_field ''documentId'' bi_document_id bi_document_id_update,
     str_omit ''signingCertificate'' bi_signing_certificate bi_signing_certificate_update,
     str_omit ''authCertificate'' bi_auth_certificate bi_auth_certificate_update,
     str_omit ''signIdentityId'' bi_sign_identity_id bi_sign_identity_id_update,
     str_omit ''sealId'' bi_seal_id bi_seal_id_update,
     str_omit ''postAuthRedirect'' bi_post_auth_redirect bi_post_auth_redirect_update,
     str_omit ''authErrorRedirect'' bi_auth_error_redirect bi_auth_error_redirect_update]"

definition enc_begin_input :: "begin_input \<Rightarrow> json" where
  "enc_begin_input = enc_struct begin_input_fields"

definition dec_begin_input :: "json \<Rightarrow> begin_input \<Rightarrow> begin_input option" where
  "dec_begin_input = dec_struct begin_input_fields"


record digest_ref =
  dg_document_id :: string
  dg_digest :: string
  dg_digest_algorithm :: string

definition zero_digest_ref :: digest_ref where
  "zero_digest_ref = \<lparr>dg_document_id = [], dg_digest = [], dg_digest_algorithm = []\<rparr>"

definition digest_ref_fields :: "digest_ref field list" where
  "digest_ref_fields = [
     str_field ''documentId'' dg_document_id dg_document_id_update,
     str_field ''digest'' dg_digest dg_digest_update,
     str_omit ''digestAlgorithm'' dg_digest_algorithm dg_digest_algorithm_update]"

definition enc_digest_ref :: "digest_ref \<Rightarrow> json" where
  "enc_digest_ref = enc_struct digest_ref_fields"

definition dec_digest_ref :: "json \<Rightarrow> digest_ref \<Rightarrow> digest_ref option" where
  "dec_digest_ref = dec_struct digest_ref_fields"


record job =
  job_id :: string
  job_state :: string
  job_authorize_url :: string
  job_sign_algorithm :: string
  job_verification_code :: string
  job_verification_message :: string
  job_signing_deadline :: int
  job_documents :: "digest_ref list"
  job_container_id :: string
  job_signature_id :: string

definition zero_job :: job where
  "zero_job = \<lparr>job_id = [], job_state = [], job_authorize_url = [],
     job_sign_algorithm = [], job_verification_code = [], job_verification_message = [],
     job_signing_deadline = 0, job_documents = [], job_container_id = [], job_signature_id = []\<rparr>"

definition job_fields :: "job field list" where
  "job_fields = [
     str_field ''jobId'' job_id job_id_update,
     str_field ''state'' job_state job_state_update,
     str_omit ''authorizeUrl'' job_authorize_url job_authorize_url_update,
     str_omit ''signAlgorithm'' job_sign_algorithm job_sign_algorithm_update,
     str_omit ''verificationCode'' job_verification_code job_verification_code_update,
     str_omit ''verificationMessage'' job_verification_message job_verification_message_update,
     int_omit ''signingDeadline'' job_signing_deadline job_signing_deadline_update,
     list_omit ''documents'' enc_digest_ref dec_digest_ref zero_digest_ref
       job_documents job_documents_update,
     str_omit ''containerId'' job_container_id job_container_id_update,
     str_omit ''signatureId'' job_signature_id job_signature_id_update]"

definition enc_job :: "job \<Rightarrow> json" where
  "enc_job = enc_struct job_fields"

definition dec_job :: "json \<Rightarrow> job \<Rightarrow> job option" where
  "dec_job = dec_struct job_fields"


record client_signature =
  cs_document_id :: string
  cs_signature_value :: string

definition zero_client_signature :: client_signature where
  "zero_client_signature = \<lparr>cs_document_id = [], cs_signature_value = []\<rparr>"

definition client_signature_fields :: "client_signature field list" where
  "client_signature_fields = [
     str_field ''documentId'' cs_document_id cs_document_id_update,
     str_field ''signatureValue'' cs_signature_value cs_signature_value_update]"

definition enc_client_signature :: "client_signature \<Rightarrow> json" where
  "enc_client_signature = enc_struct client_signature_fields"

definition dec_client_signature :: "json \<Rightarrow> client_signature \<Rightarrow> client_signature option" where
  "dec_client_signature = dec_struct client_signature_fields"


record archived_document =
  ad_document_id :: string
  ad_content_hash :: string
  ad_mime :: string
  ad_size :: int

definition zero_archived_document :: archived_document where
  "zero_archived_document = \<lparr>ad_document_id = [], ad_content_hash = [], ad_mime = [],
     ad_size = 0\<rparr>"

definition archived_document_fields :: "archived_document field list" where
  "archived_document_fields = [
     str_field ''documentId'' ad_document_id ad_document_id_update,
     str_field ''contentHash'' ad_content_hash ad_content_hash_update,
     str_field ''mime'' ad_mime ad_mime_update,
     int_field ''size'' ad_size ad_size_update]"

definition enc_archived_document :: "archived_document \<Rightarrow> json" where
  "enc_archived_document = enc_struct archived_document_fields"

definition dec_archived_document :: "json \<Rightarrow> archived_document \<Rightarrow> archived_document option" where
  "dec_archived_document = dec_struct archived_document_fields"


text \<open>
  The validation answer is a type of the shared \<open>go-validation-answer\<close> library; this code
  reads its verdict and sets its time, and passes the rest on.
\<close>

record validation =
  val_verdict :: string
  val_validated_at :: string
  val_rest :: json

section \<open>What is relayed is what was received\<close>

text \<open>
  For a value of the type, encoding and decoding again loses nothing: an answer of a service
  that this code decodes and encodes for the browser is the same document.
\<close>

interpretation inner_file_codec: codec enc_inner_file dec_inner_file zero_inner_file
  "\<lambda>x. int64 (inf_size x)"
proof unfold_locales
  fix x :: inner_file assume v: "int64 (inf_size x)"
  have "distinct (map fname inner_file_fields)" by (simp add: inner_file_fields_def)
  from dec_enc_struct [OF this] show "dec_inner_file (enc_inner_file x) zero_inner_file = Some x"
    using v by (simp add: dec_inner_file_def enc_inner_file_def)
      (simp add: inner_file_fields_def zero_inner_file_def copy_simps)
qed

definition valid_meta :: "meta \<Rightarrow> bool" where
  "valid_meta m \<longleftrightarrow> int64 (meta_size m) \<and> list_all (\<lambda>x. int64 (inf_size x)) (meta_inner_files m)"

interpretation meta_codec: codec enc_meta dec_meta zero_meta valid_meta
proof unfold_locales
  fix x :: meta assume v: "valid_meta x"
  have "distinct (map fname meta_fields)" by (simp add: meta_fields_def)
  moreover have "dec_list dec_inner_file zero_inner_file (map enc_inner_file (meta_inner_files x))
      = Some (meta_inner_files x)"
    using v by (intro inner_file_codec.decode_encode_list) (simp add: valid_meta_def)
  ultimately show "dec_meta (enc_meta x) zero_meta = Some x"
    using v dec_enc_struct [of meta_fields]
    by (simp add: dec_meta_def enc_meta_def)
       (simp add: meta_fields_def zero_meta_def copy_simps valid_meta_def)
qed

text \<open>A time the calendar writes and reads back.\<close>

definition readable :: "calendar \<Rightarrow> gotime \<Rightarrow> bool" where
  "readable cal t \<longleftrightarrow> parse_time cal (fmt_time cal t) = Some t"

definition valid_chain_row :: "calendar \<Rightarrow> chain_row \<Rightarrow> bool" where
  "valid_chain_row cal c \<longleftrightarrow> int64 (ch_size c) \<and>
     list_all (\<lambda>x. int64 (inf_size x)) (ch_inner_files c) \<and> readable cal (ch_retention_until c) \<and>
     readable cal (ch_chain_created_at c) \<and> readable cal (ch_created_at c) \<and>
     readable cal (ch_updated_at c)"

interpretation chain_row_codec:
  codec "enc_chain_row cal" "dec_chain_row cal" zero_chain_row "valid_chain_row cal" for cal
proof unfold_locales
  fix x :: chain_row assume v: "valid_chain_row cal x"
  have "distinct (map fname (chain_row_fields cal))" by (simp add: chain_row_fields_def)
  moreover have "dec_list dec_inner_file zero_inner_file (map enc_inner_file (ch_inner_files x))
      = Some (ch_inner_files x)"
    using v by (intro inner_file_codec.decode_encode_list) (simp add: valid_chain_row_def)
  ultimately show "dec_chain_row cal (enc_chain_row cal x) zero_chain_row = Some x"
    using v dec_enc_struct [of "chain_row_fields cal"]
    by (simp add: dec_chain_row_def enc_chain_row_def)
       (simp add: chain_row_fields_def zero_chain_row_def copy_simps valid_chain_row_def readable_def)
qed

definition valid_chain_list :: "calendar \<Rightarrow> chain_list \<Rightarrow> bool" where
  "valid_chain_list cal l \<longleftrightarrow> int64 (cl_count l) \<and>
     (\<forall>xs. cl_chains l = Some xs \<longrightarrow> list_all (valid_chain_row cal) xs)"

interpretation chain_list_codec:
  codec "enc_chain_list cal" "dec_chain_list cal" zero_chain_list "valid_chain_list cal" for cal
proof unfold_locales
  fix x :: chain_list assume v: "valid_chain_list cal x"
  have "distinct (map fname (chain_list_fields cal))" by (simp add: chain_list_fields_def)
  moreover have "dec_list (dec_chain_row cal) zero_chain_row (map (enc_chain_row cal) xs) = Some xs"
    if "cl_chains x = Some xs" for xs
    using v that by (intro chain_row_codec.decode_encode_list) (simp add: valid_chain_list_def)
  ultimately show "dec_chain_list cal (enc_chain_list cal x) zero_chain_list = Some x"
    using v dec_enc_struct [of "chain_list_fields cal"]
    by (simp add: dec_chain_list_def enc_chain_list_def)
       (simp add: chain_list_fields_def zero_chain_list_def copy_simps valid_chain_list_def)
qed

definition valid_summary :: "summary \<Rightarrow> bool" where
  "valid_summary s \<longleftrightarrow> int64 (sm_version s) \<and> int64 (sm_slot_count s) \<and> int64 (sm_signed_count s)"

interpretation summary_codec: codec enc_summary dec_summary zero_summary valid_summary
proof unfold_locales
  fix x :: summary assume v: "valid_summary x"
  have "distinct (map fname summary_fields)" by (simp add: summary_fields_def)
  from dec_enc_struct [OF this] show "dec_summary (enc_summary x) zero_summary = Some x"
    using v by (simp add: dec_summary_def enc_summary_def)
      (simp add: summary_fields_def zero_summary_def copy_simps valid_summary_def)
qed

interpretation digest_ref_codec: codec enc_digest_ref dec_digest_ref zero_digest_ref "\<lambda>_. True"
proof unfold_locales
  fix x :: digest_ref
  have "distinct (map fname digest_ref_fields)" by (simp add: digest_ref_fields_def)
  from dec_enc_struct [OF this] show "dec_digest_ref (enc_digest_ref x) zero_digest_ref = Some x"
    by (simp add: dec_digest_ref_def enc_digest_ref_def)
      (simp add: digest_ref_fields_def zero_digest_ref_def copy_simps)
qed

interpretation job_codec: codec enc_job dec_job zero_job "\<lambda>j. int64 (job_signing_deadline j)"
proof unfold_locales
  fix x :: job assume v: "int64 (job_signing_deadline x)"
  have "distinct (map fname job_fields)" by (simp add: job_fields_def)
  moreover have "dec_list dec_digest_ref zero_digest_ref (map enc_digest_ref (job_documents x))
      = Some (job_documents x)"
    by (rule digest_ref_codec.decode_encode_list) (simp add: list_all_iff)
  ultimately show "dec_job (enc_job x) zero_job = Some x"
    using v dec_enc_struct [of job_fields] by (simp add: dec_job_def enc_job_def)
      (simp add: job_fields_def zero_job_def copy_simps)
qed

end

