(* ===== verification/World.thy ===== *)
theory World
  imports Config Wire
begin

text \<open>
  What the service runs in: the errors and responses it produces, the requests it reads (the
  answers of the framework's accessors), the state of the process, and the environment.

  Everything outside the repository (the Auth Service client, the outbound client, Redis, the
  clock, randomness, the identity-code and admission libraries) is a function of the record
  \<open>env\<close>.  A reply may depend on everything that has happened before: it is a function of
  the \<open>trace\<close>, the list of events so far with the newest first, which already contains the
  request it answers.  The trace is therefore also the record of what the service did.
\<close>

section \<open>Errors\<close>

text \<open>
  Go's error values of this code: \<open>session.ErrNotFound\<close>, \<open>clients.HTTPError\<close>, an error of
  a library, an error wrapped under a service name, and \<open>clients.ErrOfferStale\<close> wrapping one.
\<close>

datatype gerr = NotFound | HTTPError string int payload | Text string
  | Wrap string gerr | OfferStale gerr

text \<open>\<open>errors.As(err, &he)\<close>.\<close>

fun as_http_error :: "gerr \<Rightarrow> (string \<times> int \<times> payload) option" where
  "as_http_error (HTTPError s c b) = Some (s, c, b)"
| "as_http_error (Wrap _ e) = as_http_error e"
| "as_http_error (OfferStale e) = as_http_error e"
| "as_http_error _ = None"

text \<open>
  What a handler hands to \<open>ctx.Error\<close>: a problem of its own (code, status, title, detail,
  public detail), the relayed problem of a service, an invalid parameter, an error of the
  framework (a body that does not parse), or the framework's answer to a panic.
\<close>

datatype web_error =
    Problem string "int option" "string option" "string option" "string option"
  | Relayed "json option" string int
  | ParamInvalid string string gerr
  | Framework gerr
  | Panic

section \<open>Requests\<close>

record login_start =
  lo_acr_values :: string

record slot_entry =
  se_order_index :: int
  se_role :: string
  se_flow :: string
  se_required_loa :: string
  se_identity_ref :: string
  se_country :: string

record create_envelope =
  ce_title :: string
  ce_order_policy :: string
  ce_profile :: string
  ce_documents :: "string list"
  ce_slots :: "slot_entry list"

record sign_slot =
  ss_document_id :: string
  ss_flow :: string
  ss_sig_format :: string
  ss_signing_certificate :: string
  ss_auth_certificate :: string
  ss_seal_id :: string

record upload =
  up_filename :: string
  up_size :: int
  up_content :: "gerr + string"

text \<open>
  The query and form accessors carry the framework's parsing: an error, or the value.  A cookie
  or header that is absent reads as the empty string.
\<close>

record request =
  rq_method :: string
  rq_cookie :: "string \<Rightarrow> string"
  rq_header :: "string \<Rightarrow> string"
  rq_tls :: bool
  rq_development :: bool
  rq_query :: "string \<Rightarrow> string option"
  rq_query_int :: "string \<Rightarrow> gerr + int option"
  rq_query_bool :: "string \<Rightarrow> gerr + bool option"
  rq_param :: "string \<Rightarrow> string"
  rq_param_int :: "string \<Rightarrow> gerr + int"
  rq_path_param :: "string \<Rightarrow> string"
  rq_body :: payload
  rq_form_file :: "gerr + upload"
  rq_form_files :: "upload list"
  rq_form :: "string \<Rightarrow> string option"
  rq_ip :: "string option"
  rq_user_agent :: string
  rq_correlation :: string

section \<open>Responses\<close>

datatype body = BEmpty | BJson json | BRaw payload | BError web_error | BRedirect string

record cookie =
  ck_name :: string
  ck_value :: string
  ck_http_only :: bool
  ck_secure :: bool
  ck_same_site :: string
  ck_path :: string
  ck_max_age :: "duration option"
  ck_clear :: bool

record response =
  rsp_status :: int
  rsp_headers :: "string \<rightharpoonup> string"
  rsp_cookies :: "cookie list"
  rsp_body :: body

definition no_response :: response where
  "no_response = \<lparr>rsp_status = 200, rsp_headers = Map.empty, rsp_cookies = [], rsp_body = BEmpty\<rparr>"

section \<open>Calls that leave the process\<close>

record http_resp =
  hr_status :: int
  hr_header :: "string \<Rightarrow> string"
  hr_body :: payload

text \<open>A call on behalf of a person (\<open>Doer\<close>) and a call as this service (\<open>ServiceDoer\<close>).\<close>

record obo_call =
  oc_timeout :: "duration option"
  oc_audience :: string
  oc_scope :: string
  oc_sub :: string
  oc_token :: string
  oc_method :: string
  oc_url :: string
  oc_content_type :: string
  oc_body :: payload

record svc_call =
  sc_timeout :: "duration option"
  sc_audience :: string
  sc_scope :: string
  sc_method :: string
  sc_url :: string
  sc_content_type :: string
  sc_body :: payload

record tokens =
  tk_access :: string
  tk_expires_in :: int
  tk_refresh :: string
  tk_capabilities :: "capabilities option"

record identity =
  idn_subject :: string
  idn_name :: string
  idn_given :: string
  idn_family :: string
  idn_loa :: string
  idn_login_method :: string
  idn_permitted :: "string list option"

record id_token_check =
  tc_nonce :: string
  tc_acr_values :: string
  tc_max_age :: "duration option"
  tc_started :: gotime

record authorization_request =
  ar_code_challenge :: string
  ar_state :: string
  ar_nonce :: string
  ar_acr_values :: string
  ar_prompt :: string
  ar_max_age :: "duration option"

datatype redis_cmd = RSet string payload duration | RGet string | RGetDel string
  | RDel string | RPing

datatype redis_out = RErr string | RNil | ROk | RBytes payload

datatype event = EClock | ERandom nat | EKeyGen | EPkce
  | EObo obo_call | ESvc svc_call | EDiscovery string
  | EExchange pkey string string id_token_check | ERefresh pkey string
  | EIdentity pkey string | ERevoke pkey string
  | ERedis redis_cmd
  | EEdgeBlock string string | EAuthZDenied string | EAuditRead string string

section \<open>Collaborators\<close>

text \<open>A client of a service (\<open>Documents\<close>, \<open>Envelope\<close>, ...): its address and audience.\<close>

record service =
  sv_base :: string
  sv_audience :: string

text \<open>The application container: what \<open>init\<close> builds; \<open>None\<close> is a nil client.\<close>

record app =
  ap_documents :: "service option"
  ap_envelope :: "service option"
  ap_signflow :: "service option"
  ap_preview :: "service option"
  ap_verify :: "service option"
  ap_offered :: "service option"
  ap_signin_url :: string
  ap_redis :: bool
  ap_answers_ttl :: "duration option"
  ap_audit :: bool
  ap_verify_audit :: "service option"

datatype docgate_error = TooLarge | NoSignature | UnsupportedType | Malformed string

record env =
  cfg :: configuration
  app :: app
  app_name :: string
  clock :: "event list \<Rightarrow> gotime"
  random_token :: "event list \<Rightarrow> gerr + string"
  generate_key :: "event list \<Rightarrow> gerr + pkey"
  pkce :: "event list \<Rightarrow> gerr + string \<times> string"
  key_der :: pkcs8
  sha256 :: "string \<Rightarrow> string"
  cal :: calendar
  rfc3339 :: "gotime \<Rightarrow> string"
  obo_reply :: "event list \<Rightarrow> gerr + http_resp"
  svc_reply :: "event list \<Rightarrow> gerr + http_resp"
  discovery_reply :: "event list \<Rightarrow> gerr + string list"
  exchange_reply :: "event list \<Rightarrow> gerr + tokens"
  refresh_reply :: "event list \<Rightarrow> gerr + tokens"
  identity_reply :: "event list \<Rightarrow> gerr + identity option"
  revoke_reply :: "event list \<Rightarrow> gerr option"
  redis_reply :: "event list \<Rightarrow> redis_out"
  check_issuer :: "string \<Rightarrow> gerr option"
  authorization_url :: "authorization_request \<Rightarrow> string"
  browser_logout_url :: "string \<Rightarrow> string \<Rightarrow> string"
  subject_from_token :: "string \<Rightarrow> string"
  serial_from_token :: "string \<Rightarrow> string"
  login_method_of :: "string \<Rightarrow> gerr + string"
  parse_problem :: "payload \<Rightarrow> json option"
  idc_canonical :: "string \<Rightarrow> string \<Rightarrow> gerr + string"
  idc_parse :: "string \<Rightarrow> gerr + string \<times> bool"
  idc_key :: "string \<Rightarrow> string"
  docgate_check :: "string \<Rightarrow> string \<Rightarrow> int \<Rightarrow> docgate_error option"
  normalize_report :: "payload \<Rightarrow> gerr + validation"
  dec_validation :: "json \<Rightarrow> validation option"
  enc_validation :: "validation \<Rightarrow> json"
  boundary :: "event list \<Rightarrow> string"
  swap_fields :: "event list \<Rightarrow> bool"
  code_status :: "string \<Rightarrow> int"
  framework_status :: "gerr \<Rightarrow> int"
  rate_limited :: "event list \<Rightarrow> string \<Rightarrow> bool"
  sec_events :: bool

section \<open>The state of the process\<close>

text \<open>\<open>entry\<close> is a stored value and the moment it expires.\<close>

type_synonym entry = "payload \<times> gotime"

text \<open>What \<open>OfferedFlows\<close> remembers.\<close>

record offer_state =
  of_asked :: bool
  of_at :: gotime
  of_flows :: "string list option"
  of_err :: "gerr option"

definition never_asked :: offer_state where
  "never_asked = \<lparr>of_asked = False, of_at = 0, of_flows = None, of_err = None\<rparr>"

text \<open>
  \<open>cur_sid\<close> and \<open>cur_ses\<close> are the session the middleware resolved for the request (the
  user values of the request's context; the handlers behind it share one session object and
  \<open>applyTokens\<close> mutates it).
\<close>

record bff =
  flows :: "string \<rightharpoonup> entry"
  sessions :: "string \<rightharpoonup> entry"
  answers :: "string \<rightharpoonup> entry"
  offered :: offer_state
  sign_in :: offer_state
  gate :: "string \<rightharpoonup> nat"
  cur_sid :: string
  cur_ses :: session
  trace :: "event list"
  rsp :: response

type_synonym 'a act = "(bff, 'a) state"

section \<open>Primitives\<close>

definition emit :: "event \<Rightarrow> unit act" where
  "emit e = modify (\<lambda>s. s\<lparr>trace := e # trace s\<rparr>)"

definition ask :: "event \<Rightarrow> (event list \<Rightarrow> 'a) \<Rightarrow> 'a act" where
  "ask e reply = do { emit e; gets (\<lambda>s. reply (trace s)) }"

definition now :: "env \<Rightarrow> gotime act" where
  "now v = ask EClock (clock v)"

definition RandomToken :: "env \<Rightarrow> nat \<Rightarrow> (gerr + string) act" where
  "RandomToken v n = ask (ERandom n) (random_token v)"

definition redis :: "env \<Rightarrow> redis_cmd \<Rightarrow> redis_out act" where
  "redis v c = ask (ERedis c) (redis_reply v)"

definition set_status :: "int \<Rightarrow> unit act" where
  "set_status c = modify (\<lambda>s. s\<lparr>rsp := (rsp s)\<lparr>rsp_status := c\<rparr>\<rparr>)"

definition set_body :: "body \<Rightarrow> unit act" where
  "set_body b = modify (\<lambda>s. s\<lparr>rsp := (rsp s)\<lparr>rsp_body := b\<rparr>\<rparr>)"

definition set_header :: "string \<Rightarrow> string \<Rightarrow> unit act" where
  "set_header k x = modify (\<lambda>s. s\<lparr>rsp := (rsp s)\<lparr>rsp_headers := (rsp_headers (rsp s))(k \<mapsto> x)\<rparr>\<rparr>)"

definition add_cookie :: "cookie \<Rightarrow> unit act" where
  "add_cookie c = modify (\<lambda>s. s\<lparr>rsp := (rsp s)\<lparr>rsp_cookies := rsp_cookies (rsp s) @ [c]\<rparr>\<rparr>)"

definition ctx_json :: "json \<Rightarrow> unit act" where
  "ctx_json j = set_body (BJson j)"

definition ctx_raw :: "payload \<Rightarrow> unit act" where
  "ctx_raw b = set_body (BRaw b)"

definition error_status :: "env \<Rightarrow> web_error \<Rightarrow> int" where
  "error_status v e = (case e of
     Problem c st _ _ _ \<Rightarrow> (case st of Some n \<Rightarrow> n | None \<Rightarrow> code_status v c)
   | Relayed _ _ outer \<Rightarrow> outer
   | ParamInvalid _ _ _ \<Rightarrow> 422
   | Framework g \<Rightarrow> framework_status v g
   | Panic \<Rightarrow> 500)"

definition ctx_error :: "env \<Rightarrow> web_error \<Rightarrow> unit act" where
  "ctx_error v e = do { set_status (error_status v e); set_body (BError e) }"

definition ctx_redirect :: "string \<Rightarrow> unit act" where
  "ctx_redirect u = do { set_status 302; set_body (BRedirect u) }"

text \<open>\<open>NewProblem\<close> with a status and a detail.\<close>

definition problem :: "string \<Rightarrow> int \<Rightarrow> string \<Rightarrow> web_error" where
  "problem c st detail = Problem c (Some st) None (Some detail) None"

text \<open>\<open>r.fail\<close>: a generic internal error; the cause is only logged.\<close>

definition fail :: "env \<Rightarrow> gerr \<Rightarrow> unit act" where
  "fail v e = ctx_error v (Problem ''err:portal:internal'' None None None None)"

definition relayErr :: "env \<Rightarrow> gerr \<Rightarrow> unit act" where
  "relayErr v e = (case as_http_error e of
     Some (_, st, b) \<Rightarrow>
       (let outer = (if st \<ge> 500 then 502 else st)
        in ctx_error v (Relayed (parse_problem v b) (app_name v) outer))
   | None \<Rightarrow> ctx_error v (Relayed None (app_name v) 502))"

definition redirectWithError :: "env \<Rightarrow> string \<Rightarrow> unit act" where
  "redirectWithError v marker =
     ctx_redirect (post_login_url (cfg v) @ ''?error='' @ query_escape marker)"

lemmas prim_defs = emit_def ask_def now_def RandomToken_def redis_def set_status_def
  set_body_def set_header_def add_cookie_def ctx_json_def ctx_raw_def ctx_error_def
  ctx_redirect_def fail_def redirectWithError_def

lemma wp_emit [wp_simps]: "wp (emit e) Q = (\<lambda>s. Q () (s\<lparr>trace := e # trace s\<rparr>))"
  by (simp add: emit_def wp_simps)

lemma wp_ask [wp_simps]:
  "wp (ask e f) Q = (\<lambda>s. Q (f (e # trace s)) (s\<lparr>trace := e # trace s\<rparr>))"
  by (simp add: ask_def wp_simps)

lemma wp_set_status [wp_simps]:
  "wp (set_status c) Q = (\<lambda>s. Q () (s\<lparr>rsp := (rsp s)\<lparr>rsp_status := c\<rparr>\<rparr>))"
  by (simp add: set_status_def wp_simps)

lemma wp_set_body [wp_simps]:
  "wp (set_body b) Q = (\<lambda>s. Q () (s\<lparr>rsp := (rsp s)\<lparr>rsp_body := b\<rparr>\<rparr>))"
  by (simp add: set_body_def wp_simps)

lemma wp_ctx_error [wp_simps]:
  "wp (ctx_error v e) Q = (\<lambda>s. Q () (s\<lparr>rsp := (rsp s)\<lparr>rsp_status := error_status v e,
     rsp_body := BError e\<rparr>\<rparr>))"
  by (simp add: ctx_error_def wp_simps)

lemma final_emit: "final (emit e) s = s\<lparr>trace := e # trace s\<rparr>"
  by (simp add: emit_def final_simps)

lemma final_ask: "final (ask e f) s = s\<lparr>trace := e # trace s\<rparr>" "answer (ask e f) s = f (e # trace s)"
  by (simp_all add: ask_def final_simps final_emit)

lemma final_ctx_error:
  "final (ctx_error v e) s = s\<lparr>rsp := (rsp s)\<lparr>rsp_status := error_status v e, rsp_body := BError e\<rparr>\<rparr>"
  by (simp add: ctx_error_def set_status_def set_body_def final_simps)

lemma final_ctx_json: "final (ctx_json j) s = s\<lparr>rsp := (rsp s)\<lparr>rsp_body := BJson j\<rparr>\<rparr>"
  by (simp add: ctx_json_def set_body_def final_simps)

lemma final_redirect:
  "final (redirectWithError v mk) s = s\<lparr>rsp := (rsp s)\<lparr>rsp_status := 302, rsp_body :=
     BRedirect (post_login_url (cfg v) @ ''?error='' @ query_escape mk)\<rparr>\<rparr>"
  by (simp add: redirectWithError_def ctx_redirect_def set_status_def set_body_def final_simps)

lemmas world_final = final_simps final_emit final_ask final_ctx_error final_ctx_json final_redirect

section \<open>Computations that only answer\<close>

text \<open>
  \<open>answers_only m\<close>: \<open>m\<close> writes the response and nothing else of the state.  Every error
  path of a handler is of this kind, which is how the proofs skip them.
\<close>

definition answers_only :: "'a act \<Rightarrow> bool" where
  "answers_only m \<longleftrightarrow> (\<forall>s. \<exists>r. final m s = s\<lparr>rsp := r\<rparr>)"

lemma answers_only_ctx_error [simp]: "answers_only (ctx_error v e)"
  by (auto simp: answers_only_def ctx_error_def set_status_def set_body_def final_def)

lemma answers_only_fail [simp]: "answers_only (fail v e)"
  by (simp add: fail_def)

lemma answers_only_relayErr [simp]: "answers_only (relayErr v e)"
  by (auto simp: relayErr_def Let_def split: option.split)

lemma answers_only_redirect [simp]: "answers_only (redirectWithError v e)"
  by (auto simp: answers_only_def redirectWithError_def ctx_redirect_def set_status_def
      set_body_def final_def)

lemma answers_only_json [simp]: "answers_only (ctx_json j)"
  by (auto simp: answers_only_def ctx_json_def set_body_def final_def)

lemma keeps_answers_only:
  "answers_only m \<Longrightarrow> (\<And>s r. I (s\<lparr>rsp := r\<rparr>) = I s) \<Longrightarrow> keeps I m"
  unfolding answers_only_def keeps_def final_def by metis

section \<open>The status of a relayed failure\<close>

lemma relayErr_upstream:
  "wp (relayErr v (HTTPError svc st b))
     (\<lambda>_ t. rsp_status (rsp t) = (if st \<ge> 500 then 502 else st) \<and>
            rsp_body (rsp t) = BError (Relayed (parse_problem v b) (app_name v)
              (if st \<ge> 500 then 502 else st))) s"
  by (simp add: relayErr_def wp_simps error_status_def)

lemma relayErr_transport:
  "as_http_error e = None \<Longrightarrow>
   wp (relayErr v e) (\<lambda>_ t. rsp_status (rsp t) = 502 \<and>
     rsp_body (rsp t) = BError (Relayed None (app_name v) 502)) s"
  by (simp add: relayErr_def wp_simps error_status_def)

end
