(* ===== verification/Store.thy ===== *)
theory Store
  imports World
begin

text \<open>
  The session store (\<open>session/memory.go\<close>, \<open>session/redis.go\<close>) and the cache of validation
  answers (\<open>anscache.go\<close>).  The locale \<open>expiring_store\<close> is the contract of a store whose
  entries live for a fixed time; the in-memory session store and the in-memory answer cache
  are its instances.
\<close>

section \<open>Entries with a lifetime\<close>

text \<open>\<open>now.After(e.expires)\<close> is strict: an entry is still there at the moment it expires.\<close>

definition live :: "gotime \<Rightarrow> entry \<Rightarrow> bool" where
  "live t e \<longleftrightarrow> \<not> snd e < t"

definition put_entry :: "duration \<Rightarrow> gotime \<Rightarrow> string \<Rightarrow> payload
    \<Rightarrow> (string \<rightharpoonup> entry) \<Rightarrow> (string \<rightharpoonup> entry)" where
  "put_entry ttl t k b m = m(k \<mapsto> (b, t + ttl))"

definition get_entry :: "gotime \<Rightarrow> string \<Rightarrow> (string \<rightharpoonup> entry) \<Rightarrow> payload option" where
  "get_entry t k m = (case m k of Some e \<Rightarrow> if live t e then Some (fst e) else None | None \<Rightarrow> None)"

text \<open>The answer cache drops the expired entries whenever it stores one.\<close>

definition drop_expired :: "gotime \<Rightarrow> (string \<rightharpoonup> entry) \<Rightarrow> (string \<rightharpoonup> entry)" where
  "drop_expired t m = (\<lambda>k. case m k of Some e \<Rightarrow> if live t e then Some e else None | None \<Rightarrow> None)"

definition put_answer :: "duration \<Rightarrow> gotime \<Rightarrow> string \<Rightarrow> payload
    \<Rightarrow> (string \<rightharpoonup> entry) \<Rightarrow> (string \<rightharpoonup> entry)" where
  "put_answer ttl t k b m = (drop_expired t m)(k \<mapsto> (b, t + ttl))"

locale expiring_store =
  fixes put :: "duration \<Rightarrow> gotime \<Rightarrow> string \<Rightarrow> payload \<Rightarrow> 's \<Rightarrow> 's"
    and get :: "gotime \<Rightarrow> string \<Rightarrow> 's \<Rightarrow> payload option"
  assumes get_put_same: "get t' k (put ttl t k b s) = (if t' \<le> t + ttl then Some b else None)"
    and get_put_other: "k \<noteq> k' \<Longrightarrow> t \<le> t' \<Longrightarrow> get t' k' (put ttl t k b s) = get t' k' s"
begin

text \<open>A history of stores, each at its time, newest last.\<close>

fun replay :: "duration \<Rightarrow> (gotime \<times> string \<times> payload) list \<Rightarrow> 's \<Rightarrow> 's" where
  "replay ttl [] s = s"
| "replay ttl ((t, k, b) # ps) s = replay ttl ps (put ttl t k b s)"

lemma replay_append: "replay ttl (ps @ qs) s = replay ttl qs (replay ttl ps s)"
  by (induction ps arbitrary: s) auto

lemma replay_other:
  "\<forall>p \<in> set ps. fst (snd p) \<noteq> k \<and> fst p \<le> t' \<Longrightarrow> get t' k (replay ttl ps s) = get t' k s"
  by (induction ttl ps s rule: replay.induct) (auto simp: get_put_other)

text \<open>What a reader gets is the value stored last under its key, while it lives.\<close>

lemma get_replay:
  assumes "\<forall>p \<in> set qs. fst (snd p) \<noteq> k \<and> fst p \<le> t'"
  shows "get t' k (replay ttl (ps @ (t, k, b) # qs) s) = (if t' \<le> t + ttl then Some b else None)"
  using assms by (simp add: replay_append replay_other get_put_same)

end

interpretation session_map: expiring_store put_entry get_entry
  by unfold_locales (auto simp: put_entry_def get_entry_def live_def)

interpretation answer_map: expiring_store put_answer get_entry
  by unfold_locales (auto simp: put_answer_def drop_expired_def get_entry_def live_def
      split: option.split)

section \<open>The in-memory store\<close>

definition decode :: "(json \<Rightarrow> 'a \<Rightarrow> 'a option) \<Rightarrow> 'a \<Rightarrow> payload \<Rightarrow> gerr + 'a" where
  "decode dec zero b = (case b of
     Doc j \<Rightarrow> (case dec j zero of Some x \<Rightarrow> Inr x | None \<Rightarrow> Inl (Text ''json: cannot unmarshal''))
   | Bytes _ \<Rightarrow> Inl (Text ''invalid character in JSON''))"

definition mem_PutFlow :: "env \<Rightarrow> string \<Rightarrow> flow \<Rightarrow> (gerr + unit) act" where
  "mem_PutFlow v key f = do {
     t \<leftarrow> now v;
     modify (\<lambda>s. s\<lparr>flows := put_entry (flow_ttl (cfg v)) t key (Doc (enc_flow (cal v) f)) (flows s)\<rparr>);
     State_Monad.return (Inr ()) }"

definition mem_TakeFlow :: "env \<Rightarrow> string \<Rightarrow> (gerr + flow) act" where
  "mem_TakeFlow v key = do {
     e \<leftarrow> gets (\<lambda>s. flows s key);
     modify (\<lambda>s. s\<lparr>flows := (flows s)(key := None)\<rparr>);
     case e of
       None \<Rightarrow> State_Monad.return (Inl NotFound)
     | Some e \<Rightarrow> do {
         t \<leftarrow> now v;
         if live t e then State_Monad.return (decode (dec_flow (cal v)) zero_flow (fst e))
         else State_Monad.return (Inl NotFound) } }"

definition mem_PutSession :: "env \<Rightarrow> string \<Rightarrow> session \<Rightarrow> (gerr + unit) act" where
  "mem_PutSession v sid x = do {
     t \<leftarrow> now v;
     modify (\<lambda>s. s\<lparr>sessions := put_entry (session_ttl (cfg v)) t sid (Doc (enc_session x)) (sessions s)\<rparr>);
     State_Monad.return (Inr ()) }"

definition mem_GetSession :: "env \<Rightarrow> string \<Rightarrow> (gerr + session) act" where
  "mem_GetSession v sid = do {
     e \<leftarrow> gets (\<lambda>s. sessions s sid);
     case e of
       None \<Rightarrow> State_Monad.return (Inl NotFound)
     | Some e \<Rightarrow> do {
         t \<leftarrow> now v;
         if live t e then State_Monad.return (decode dec_session zero_session (fst e))
         else State_Monad.return (Inl NotFound) } }"

definition mem_DeleteSession :: "string \<Rightarrow> (gerr + unit) act" where
  "mem_DeleteSession sid = do {
     modify (\<lambda>s. s\<lparr>sessions := (sessions s)(sid := None)\<rparr>);
     State_Monad.return (Inr ()) }"

definition mem_Ping :: "(gerr + unit) act" where
  "mem_Ping = State_Monad.return (Inr ())"

section \<open>The Redis store\<close>

definition flowKey :: "string \<Rightarrow> string" where "flowKey state = ''portal:flow:'' @ state"

definition sessKey :: "string \<Rightarrow> string" where "sessKey sid = ''portal:sess:'' @ sid"

text \<open>\<open>.Err()\<close> and \<open>.Bytes()\<close> of a command's answer.\<close>

definition redis_err :: "redis_out \<Rightarrow> gerr + unit" where
  "redis_err r = (case r of RErr e \<Rightarrow> Inl (Text e) | _ \<Rightarrow> Inr ())"

definition redis_bytes :: "redis_out \<Rightarrow> gerr + payload" where
  "redis_bytes r = (case r of RErr e \<Rightarrow> Inl (Text e) | RNil \<Rightarrow> Inl NotFound
     | ROk \<Rightarrow> Inr (Bytes ''OK'') | RBytes b \<Rightarrow> Inr b)"

definition redis_PutFlow :: "env \<Rightarrow> string \<Rightarrow> flow \<Rightarrow> (gerr + unit) act" where
  "redis_PutFlow v key f = do {
     r \<leftarrow> redis v (RSet (flowKey key) (Doc (enc_flow (cal v) f)) (flow_ttl (cfg v)));
     State_Monad.return (redis_err r) }"

definition redis_TakeFlow :: "env \<Rightarrow> string \<Rightarrow> (gerr + flow) act" where
  "redis_TakeFlow v key = do {
     r \<leftarrow> redis v (RGetDel (flowKey key));
     State_Monad.return (case redis_bytes r of
       Inl e \<Rightarrow> Inl e | Inr b \<Rightarrow> decode (dec_flow (cal v)) zero_flow b) }"

definition redis_PutSession :: "env \<Rightarrow> string \<Rightarrow> session \<Rightarrow> (gerr + unit) act" where
  "redis_PutSession v sid x = do {
     r \<leftarrow> redis v (RSet (sessKey sid) (Doc (enc_session x)) (session_ttl (cfg v)));
     State_Monad.return (redis_err r) }"

definition redis_GetSession :: "env \<Rightarrow> string \<Rightarrow> (gerr + session) act" where
  "redis_GetSession v sid = do {
     r \<leftarrow> redis v (RGet (sessKey sid));
     State_Monad.return (case redis_bytes r of
       Inl e \<Rightarrow> Inl e | Inr b \<Rightarrow> decode dec_session zero_session b) }"

definition redis_DeleteSession :: "env \<Rightarrow> string \<Rightarrow> (gerr + unit) act" where
  "redis_DeleteSession v sid = do {
     r \<leftarrow> redis v (RDel (sessKey sid)); State_Monad.return (redis_err r) }"

definition redis_Ping :: "env \<Rightarrow> (gerr + unit) act" where
  "redis_Ping v = do { r \<leftarrow> redis v RPing; State_Monad.return (redis_err r) }"

section \<open>The store of the application\<close>

definition PutFlow :: "env \<Rightarrow> string \<Rightarrow> flow \<Rightarrow> (gerr + unit) act" where
  "PutFlow v key f = (if ap_redis (app v) then redis_PutFlow v key f else mem_PutFlow v key f)"

definition TakeFlow :: "env \<Rightarrow> string \<Rightarrow> (gerr + flow) act" where
  "TakeFlow v key = (if ap_redis (app v) then redis_TakeFlow v key else mem_TakeFlow v key)"

definition PutSession :: "env \<Rightarrow> string \<Rightarrow> session \<Rightarrow> (gerr + unit) act" where
  "PutSession v sid x = (if ap_redis (app v) then redis_PutSession v sid x else mem_PutSession v sid x)"

definition GetSession :: "env \<Rightarrow> string \<Rightarrow> (gerr + session) act" where
  "GetSession v sid = (if ap_redis (app v) then redis_GetSession v sid else mem_GetSession v sid)"

definition DeleteSession :: "env \<Rightarrow> string \<Rightarrow> (gerr + unit) act" where
  "DeleteSession v sid = (if ap_redis (app v) then redis_DeleteSession v sid else mem_DeleteSession sid)"

definition Ping :: "env \<Rightarrow> (gerr + unit) act" where
  "Ping v = (if ap_redis (app v) then redis_Ping v else mem_Ping)"

lemmas store_defs = PutFlow_def TakeFlow_def PutSession_def GetSession_def DeleteSession_def
  Ping_def mem_PutFlow_def mem_TakeFlow_def mem_PutSession_def mem_GetSession_def
  mem_DeleteSession_def mem_Ping_def redis_PutFlow_def redis_TakeFlow_def redis_PutSession_def
  redis_GetSession_def redis_DeleteSession_def redis_Ping_def redis_def now_def

section \<open>The answer cache\<close>

definition answer_Get :: "env \<Rightarrow> string \<Rightarrow> payload option act" where
  "answer_Get v key =
     (if ap_redis (app v) then do {
        r \<leftarrow> redis v (RGet key);
        State_Monad.return (case redis_bytes r of Inl _ \<Rightarrow> None | Inr b \<Rightarrow> Some b) }
      else do {
        e \<leftarrow> gets (\<lambda>s. answers s key);
        case e of
          None \<Rightarrow> State_Monad.return None
        | Some e \<Rightarrow> do {
            t \<leftarrow> now v;
            if live t e then State_Monad.return (Some (fst e))
            else do {
              modify (\<lambda>s. s\<lparr>answers := (answers s)(key := None)\<rparr>);
              State_Monad.return None } } })"

definition answer_Set :: "env \<Rightarrow> duration \<Rightarrow> string \<Rightarrow> payload \<Rightarrow> unit act" where
  "answer_Set v ttl key b =
     (if ap_redis (app v) then do { redis v (RSet key b ttl); skip }
      else do {
        t \<leftarrow> now v;
        modify (\<lambda>s. s\<lparr>answers := put_answer ttl t key b (answers s)\<rparr>) })"

section \<open>What the memory store promises\<close>

text \<open>In Hoare style, over the pure store: the state and clock at the call decide the answer.\<close>

lemma wp_mem_GetSession:
  "wp (mem_GetSession v sid) Q s =
     (case sessions s sid of
        None \<Rightarrow> Q (Inl NotFound) s
      | Some e \<Rightarrow> let s' = s\<lparr>trace := EClock # trace s\<rparr> in
          Q (case get_entry (clock v (EClock # trace s)) sid (sessions s) of
               None \<Rightarrow> Inl NotFound | Some b \<Rightarrow> decode dec_session zero_session b) s')"
  by (simp add: mem_GetSession_def wp_simps now_def get_entry_def split: option.split)

lemma decode_encoded_session [simp]:
  "valid_session x \<Longrightarrow> decode dec_session zero_session (Doc (enc_session x)) = Inr x"
  by (simp add: decode_def session_codec.decode_encode)

lemma decode_encoded_flow [simp]:
  "valid_flow c x \<Longrightarrow> decode (dec_flow c) zero_flow (Doc (enc_flow c x)) = Inr x"
  by (simp add: decode_def flow_codec.decode_encode)

lemma memory_get_after_put:
  assumes "valid_session x"
  shows "wp (do { mem_PutSession v sid x; mem_GetSession v sid })
    (\<lambda>r t. r = (if clock v (EClock # EClock # trace s)
                   \<le> clock v (EClock # trace s) + session_ttl (cfg v) then Inr x else Inl NotFound)) s"
  using assms
  by (simp add: mem_PutSession_def mem_GetSession_def wp_simps now_def put_entry_def live_def)

lemma memory_take_twice:
  "wp (do { mem_TakeFlow v key; mem_TakeFlow v key }) (\<lambda>r t. r = Inl NotFound) s"
  by (simp add: mem_TakeFlow_def wp_simps now_def split: option.split)

end
