(* ===== verification/Outbound.thy ===== *)
theory Outbound
  imports Store
begin

text \<open>
  \<open>clients/clients.go\<close>: a call to a service on behalf of the signed-in person, which fails
  closed without a subject token, and the locale \<open>call_invariant\<close>, the contract between the
  places that issue such calls and the facts kept about the calls issued.
\<close>

section \<open>Calls on behalf of a person\<close>

record on_behalf =
  ob_sub :: string
  ob_token :: string

definition slowOpTimeout :: duration where "slowOpTimeout = 120 * second"

definition no_body :: payload where "no_body = Bytes []"

definition json_type :: string where "json_type = ''application/json''"

definition missing_token :: "string \<Rightarrow> gerr" where
  "missing_token service = Text (service @ '': missing on-behalf-of subject token'')"

definition doOnBehalf :: "env \<Rightarrow> string \<Rightarrow> string \<Rightarrow> string \<Rightarrow> string \<Rightarrow> string \<Rightarrow> on_behalf
    \<Rightarrow> payload \<Rightarrow> string \<Rightarrow> (gerr + http_resp) act" where
  "doOnBehalf v service audience scope meth url obo reqBody contentType =
     (if ob_token obo = [] then State_Monad.return (Inl (missing_token service))
      else do {
        r \<leftarrow> ask (EObo \<lparr>oc_timeout = None, oc_audience = audience, oc_scope = scope,
                oc_sub = ob_sub obo, oc_token = ob_token obo, oc_method = meth, oc_url = url,
                oc_content_type = contentType, oc_body = reqBody\<rparr>) (obo_reply v);
        State_Monad.return (case r of Inl e \<Rightarrow> Inl (Wrap service e) | Inr x \<Rightarrow> Inr x) })"

text \<open>
  Reading a JSON answer: a status outside 2xx is an error that carries it, an empty body
  leaves the zero value, and a body that does not decode is an error.
\<close>

definition ok_status :: "int \<Rightarrow> bool" where
  "ok_status c \<longleftrightarrow> 200 \<le> c \<and> c < 300"

definition out_json :: "(json \<Rightarrow> 'a \<Rightarrow> 'a option) \<Rightarrow> 'a \<Rightarrow> payload \<Rightarrow> gerr + 'a" where
  "out_json dec zero b = (if payload_empty b then Inr zero else decode dec zero b)"

definition out_none :: "payload \<Rightarrow> gerr + unit" where
  "out_none b = Inr ()"

definition read_json :: "string \<Rightarrow> (payload \<Rightarrow> gerr + 'a) \<Rightarrow> http_resp \<Rightarrow> gerr + 'a" where
  "read_json service out r =
     (if \<not> ok_status (hr_status r) then Inl (HTTPError service (hr_status r) (hr_body r))
      else case out (hr_body r) of Inl e \<Rightarrow> Inl (Wrap service e) | Inr x \<Rightarrow> Inr x)"

definition doJSONOnBehalf :: "env \<Rightarrow> string \<Rightarrow> string \<Rightarrow> string \<Rightarrow> string \<Rightarrow> string \<Rightarrow> on_behalf
    \<Rightarrow> payload \<Rightarrow> string \<Rightarrow> (payload \<Rightarrow> gerr + 'a) \<Rightarrow> (gerr + 'a) act" where
  "doJSONOnBehalf v service audience scope meth url obo reqBody contentType out =
     on_ok (doOnBehalf v service audience scope meth url obo reqBody contentType)
       (\<lambda>r. State_Monad.return (read_json service out r))"

definition doJSONOnBehalfSlow :: "env \<Rightarrow> string \<Rightarrow> string \<Rightarrow> string \<Rightarrow> string \<Rightarrow> string \<Rightarrow> on_behalf
    \<Rightarrow> payload \<Rightarrow> string \<Rightarrow> (payload \<Rightarrow> gerr + 'a) \<Rightarrow> (gerr + 'a) act" where
  "doJSONOnBehalfSlow v service audience scope meth url obo reqBody contentType out =
     (if ob_token obo = [] then State_Monad.return (Inl (missing_token service))
      else do {
        r \<leftarrow> ask (EObo \<lparr>oc_timeout = Some slowOpTimeout, oc_audience = audience, oc_scope = scope,
                oc_sub = ob_sub obo, oc_token = ob_token obo, oc_method = meth, oc_url = url,
                oc_content_type = contentType, oc_body = reqBody\<rparr>) (obo_reply v);
        State_Monad.return (case r of
          Inl e \<Rightarrow> Inl (Wrap service e) | Inr x \<Rightarrow> read_json service out x) })"

text \<open>An answer that is relayed raw, with a status outside 2xx turned into an error.\<close>

definition doRawOnBehalf :: "env \<Rightarrow> string \<Rightarrow> string \<Rightarrow> string \<Rightarrow> string \<Rightarrow> on_behalf
    \<Rightarrow> (gerr + http_resp) act" where
  "doRawOnBehalf v service audience scope url obo =
     on_ok (doOnBehalf v service audience scope ''GET'' url obo no_body [])
       (\<lambda>r. State_Monad.return
          (if ok_status (hr_status r) then Inr r
           else Inl (HTTPError service (hr_status r) (hr_body r))))"

lemmas outbound_defs = doOnBehalf_def doJSONOnBehalf_def doJSONOnBehalfSlow_def doRawOnBehalf_def

section \<open>Failing closed\<close>

lemma no_token_no_call:
  assumes "ob_token obo = []"
  shows "run_state (doOnBehalf v svc aud sc m u obo b ct) s = (Inl (missing_token svc), s)"
    and "run_state (doJSONOnBehalf v svc aud sc m u obo b ct out) s = (Inl (missing_token svc), s)"
    and "run_state (doJSONOnBehalfSlow v svc aud sc m u obo b ct out) s = (Inl (missing_token svc), s)"
    and "run_state (doRawOnBehalf v svc aud sc u obo) s = (Inl (missing_token svc), s)"
  using assms by (simp_all add: outbound_defs on_ok_def)

section \<open>Facts kept about the calls\<close>

text \<open>
  A call is issued with the person's subject and a token that is not empty.  A client of
  this locale has a state predicate that survives the events of the trace, those calls
  included, when they are made for the subject \<open>sub\<close>, and the writing of an answer, its
  cookies apart.
\<close>

definition call_for :: "string \<Rightarrow> obo_call \<Rightarrow> bool" where
  "call_for sub c \<longleftrightarrow> oc_sub c = sub \<and> oc_token c \<noteq> []"

definition is_call :: "event \<Rightarrow> bool" where
  "is_call e \<longleftrightarrow> (case e of EObo _ \<Rightarrow> True | _ \<Rightarrow> False)"

lemma is_call_simps [simp]:
  "is_call (EObo c)" "\<not> is_call EClock" "\<not> is_call (ERandom n)" "\<not> is_call EKeyGen"
  "\<not> is_call EPkce" "\<not> is_call (ESvc x)" "\<not> is_call (EDiscovery u)"
  "\<not> is_call (EExchange k a b y)" "\<not> is_call (ERefresh k a)" "\<not> is_call (EIdentity k a)"
  "\<not> is_call (ERevoke k a)" "\<not> is_call (ERedis r)" "\<not> is_call (EEdgeBlock a b)"
  "\<not> is_call (EAuthZDenied a)" "\<not> is_call (EAuditRead a b)"
  by (simp_all add: is_call_def)

text \<open>What only a sign-in does: drawing a key, a PKCE pair, redeeming a code.\<close>

definition is_sign_in :: "event \<Rightarrow> bool" where
  "is_sign_in e \<longleftrightarrow> (case e of EKeyGen \<Rightarrow> True | EPkce \<Rightarrow> True | EExchange _ _ _ _ \<Rightarrow> True | _ \<Rightarrow> False)"

lemma is_sign_in_simps [simp]:
  "is_sign_in EKeyGen" "is_sign_in EPkce" "is_sign_in (EExchange k a b y)"
  "\<not> is_sign_in (EObo c)" "\<not> is_sign_in EClock" "\<not> is_sign_in (ERandom n)"
  "\<not> is_sign_in (ESvc x)" "\<not> is_sign_in (EDiscovery u)" "\<not> is_sign_in (ERefresh k a)"
  "\<not> is_sign_in (EIdentity k a)" "\<not> is_sign_in (ERevoke k a)" "\<not> is_sign_in (ERedis r)"
  "\<not> is_sign_in (EEdgeBlock a b)" "\<not> is_sign_in (EAuthZDenied a)" "\<not> is_sign_in (EAuditRead a b)"
  by (simp_all add: is_sign_in_def)

lemma sign_in_no_call: "is_sign_in e \<Longrightarrow> \<not> is_call e"
  by (cases e) simp_all

text \<open>An answer that sends the browser on.\<close>

definition is_redirect :: "body \<Rightarrow> bool" where
  "is_redirect b \<longleftrightarrow> (case b of BRedirect _ \<Rightarrow> True | _ \<Rightarrow> False)"

lemma is_redirect_simps [simp]:
  "is_redirect (BRedirect u)" "\<not> is_redirect BEmpty" "\<not> is_redirect (BJson j)" "\<not> is_redirect (BRaw p)"
  "\<not> is_redirect (BError e)"
  by (simp_all add: is_redirect_def)

text \<open>A command that changes what Redis holds.\<close>

definition is_write :: "event \<Rightarrow> bool" where
  "is_write e \<longleftrightarrow> (case e of ERedis c \<Rightarrow>
     (case c of RSet _ _ _ \<Rightarrow> True | RGetDel _ \<Rightarrow> True | RDel _ \<Rightarrow> True | _ \<Rightarrow> False) | _ \<Rightarrow> False)"

lemma is_write_simps [simp]:
  "is_write (ERedis (RSet k b ttl))" "is_write (ERedis (RGetDel k))" "is_write (ERedis (RDel k))"
  "\<not> is_write (ERedis (RGet k))" "\<not> is_write (ERedis RPing)" "\<not> is_write (EObo c)" "\<not> is_write EClock"
  "\<not> is_write (ERandom n)" "\<not> is_write EKeyGen" "\<not> is_write EPkce" "\<not> is_write (ESvc x)"
  "\<not> is_write (EDiscovery u)" "\<not> is_write (EExchange k' a b' y)" "\<not> is_write (ERefresh k' a)"
  "\<not> is_write (EIdentity k' a)" "\<not> is_write (ERevoke k' a)" "\<not> is_write (EEdgeBlock a b'')"
  "\<not> is_write (EAuthZDenied a)" "\<not> is_write (EAuditRead a b'')"
  by (simp_all add: is_write_def)

lemma sign_in_no_write: "is_sign_in e \<Longrightarrow> \<not> is_write e"
  by (cases e) simp_all

locale trace_invariant =
  fixes I :: "bff \<Rightarrow> bool"
  assumes keeps_event: "\<not> is_call e \<Longrightarrow> \<not> is_sign_in e \<Longrightarrow> \<not> is_write e \<Longrightarrow> I s \<Longrightarrow>
      I (s\<lparr>trace := e # trace s\<rparr>)"
begin

lemma keeps_ask: "\<not> is_call e \<Longrightarrow> \<not> is_sign_in e \<Longrightarrow> \<not> is_write e \<Longrightarrow> keeps I (ask e f)"
  by (auto intro!: keepsI simp: wp_simps keeps_event)

lemma keeps_emit: "\<not> is_call e \<Longrightarrow> \<not> is_sign_in e \<Longrightarrow> \<not> is_write e \<Longrightarrow> keeps I (emit e)"
  by (auto intro!: keepsI simp: wp_simps keeps_event)

lemma keeps_reads:
  "keeps I (now v)" "keeps I (RandomToken v n)" "\<not> is_write (ERedis c) \<Longrightarrow> keeps I (redis v c)"
  by (simp_all add: now_def RandomToken_def redis_def keeps_ask)

end

locale event_invariant = trace_invariant +
  assumes keeps_rsp: "I s \<Longrightarrow> rsp_cookies r = rsp_cookies (rsp s) \<Longrightarrow>
      rsp_body r = rsp_body (rsp s) \<or> \<not> is_redirect (rsp_body r) \<Longrightarrow> I (s\<lparr>rsp := r\<rparr>)"
begin

lemma keeps_primitives:
  "keeps I (now v)" "keeps I (RandomToken v n)" "\<not> is_write (ERedis c) \<Longrightarrow> keeps I (redis v c)"
  "keeps I (set_status st)" "keeps I (set_header k x)" "\<not> is_redirect bd \<Longrightarrow> keeps I (set_body bd)"
  "keeps I (ctx_json j)" "keeps I (ctx_raw p)"
  "keeps I (ctx_error v e)" "keeps I (fail v g)" "keeps I (relayErr v g)"
  by (auto simp: keeps_reads)
     (auto simp: prim_defs relayErr_def Let_def keeps_rsp
      intro!: keeps_bind keeps_modify keeps_gets split: option.split)

end

text \<open>An invariant that a sign-in's own requests keep as well; the browser is sent where \<open>lands\<close> admits.\<close>

locale sign_in_invariant = event_invariant +
  fixes lands :: "string \<Rightarrow> bool"
  assumes keeps_sign_in: "is_sign_in e \<Longrightarrow> I s \<Longrightarrow> I (s\<lparr>trace := e # trace s\<rparr>)"
    and keeps_landing: "I s \<Longrightarrow> lands u \<Longrightarrow>
      I (s\<lparr>rsp := (rsp s)\<lparr>rsp_status := 302, rsp_body := BRedirect u\<rparr>\<rparr>)"
begin

lemma keeps_redirect: "lands u \<Longrightarrow> keeps I (ctx_redirect u)"
  by (auto intro!: keepsI simp: ctx_redirect_def set_status_def set_body_def wp_simps keeps_landing)

lemma keeps_redirectWithError:
  "lands (post_login_url (cfg v) @ ''?error='' @ query_escape mk) \<Longrightarrow> keeps I (redirectWithError v mk)"
  by (simp add: redirectWithError_def keeps_redirect)

lemma keeps_ask_any: "\<not> is_call e \<Longrightarrow> \<not> is_write e \<Longrightarrow> keeps I (ask e f)"
  by (cases "is_sign_in e") (auto intro!: keepsI simp: wp_simps keeps_sign_in keeps_event)

end

locale call_invariant = trace_invariant +
  fixes sub :: string
  assumes keeps_call: "call_for sub c \<Longrightarrow> I s \<Longrightarrow> I (s\<lparr>trace := EObo c # trace s\<rparr>)"
begin

lemma keeps_ask_call:
  "oc_sub c = sub \<Longrightarrow> oc_token c \<noteq> [] \<Longrightarrow> keeps I (ask (EObo c) f)"
  by (auto intro!: keepsI simp: wp_simps keeps_call call_for_def)

lemma keeps_outbound:
  assumes "ob_sub obo = sub"
  shows "keeps I (doOnBehalf v svc aud sc m u obo b ct)"
    and "keeps I (doJSONOnBehalf v svc aud sc m u obo b ct out)"
    and "keeps I (doJSONOnBehalfSlow v svc aud sc m u obo b ct out)"
    and "keeps I (doRawOnBehalf v svc aud sc u obo)"
  using assms
  by (auto simp: outbound_defs intro!: keeps_if keeps_return keeps_bind keeps_on_ok keeps_ask_call)

end

text \<open>
  The instance: every call issued since the trace \<open>old\<close> was made for \<open>sub\<close>, with a token.
\<close>

definition calls_for :: "string \<Rightarrow> event list \<Rightarrow> bff \<Rightarrow> bool" where
  "calls_for sub old s \<longleftrightarrow> (\<exists>es. trace s = es @ old \<and>
     (\<forall>c. EObo c \<in> set es \<longrightarrow> call_for sub c))"

lemma calls_for_event:
  assumes "calls_for sub old s" "\<And>c. e = EObo c \<Longrightarrow> call_for sub c"
  shows "calls_for sub old (s\<lparr>trace := e # trace s\<rparr>)"
proof -
  obtain es where "trace s = es @ old" "\<forall>c. EObo c \<in> set es \<longrightarrow> call_for sub c"
    using assms(1) by (auto simp: calls_for_def)
  then show ?thesis using assms(2)
    by (auto simp: calls_for_def intro!: exI [of _ "e # es"])
qed

lemma calls_for_start: "calls_for sub (trace s) s"
  by (auto simp: calls_for_def)

interpretation calls: call_invariant "calls_for sub old" sub for sub old
proof unfold_locales
  fix e s assume "\<not> is_call e" "calls_for sub old s"
  then show "calls_for sub old (s\<lparr>trace := e # trace s\<rparr>)"
    by (intro calls_for_event) (auto simp: is_call_def)
qed (auto intro: calls_for_event simp: calls_for_def)

section \<open>Facts kept by a handler\<close>

text \<open>
  Renewing a person's token replaces the tokens of the current session, and nothing else of it,
  and stores it under its own id; signing out forgets it.  No call is issued on the person's
  behalf.
\<close>

locale session_invariant = event_invariant +
  fixes sub :: string
  assumes keeps_store: "I s \<Longrightarrow>
      I (s\<lparr>sessions := put_entry ttl t (cur_sid s) (Doc (enc_session (cur_ses s))) (sessions s)\<rparr>)"
    and keeps_forget: "I s \<Longrightarrow> I (s\<lparr>sessions := (sessions s)(cur_sid s := None)\<rparr>)"
    and keeps_redis_store: "I s \<Longrightarrow>
      I (s\<lparr>trace := ERedis (RSet (sessKey (cur_sid s)) (Doc (enc_session (cur_ses s))) ttl) # trace s\<rparr>)"
    and keeps_redis_forget: "I s \<Longrightarrow> I (s\<lparr>trace := ERedis (RDel (sessKey (cur_sid s))) # trace s\<rparr>)"
    and keeps_cur: "I s \<Longrightarrow> I (s\<lparr>cur_ses := (cur_ses s)\<lparr>ses_access_token := a,
        ses_access_expiry := e, ses_refresh_token := r\<rparr>\<rparr>)"
    and cur_subject: "I s \<Longrightarrow> ses_subject (cur_ses s) = sub"

text \<open>
  A handler behind the session gate also calls on the person's behalf and caches answers.  The
  cookies it sets are those \<open>okc\<close> admits.
\<close>

definition answer_prefix :: string where "answer_prefix = ''va:''"

locale handler_invariant = call_invariant I sub + session_invariant I sub
  for I :: "bff \<Rightarrow> bool" and sub :: string +
  fixes okc :: "cookie \<Rightarrow> bool"
  assumes keeps_cookie: "I s \<Longrightarrow> okc c \<Longrightarrow>
      I (s\<lparr>rsp := (rsp s)\<lparr>rsp_cookies := rsp_cookies (rsp s) @ [c]\<rparr>\<rparr>)"
    and keeps_answers: "I s \<Longrightarrow> I (s\<lparr>answers := a\<rparr>)"
    and keeps_redis_answer: "I s \<Longrightarrow> I (s\<lparr>trace := ERedis (RSet (answer_prefix @ k) b ttl) # trace s\<rparr>)"
    and keeps_offered: "I s \<Longrightarrow> I (s\<lparr>offered := f\<rparr>)"

definition delegated :: "string \<Rightarrow> event list \<Rightarrow> bff \<Rightarrow> bool" where
  "delegated sub old s \<longleftrightarrow> calls_for sub old s \<and> ses_subject (cur_ses s) = sub"

interpretation delegated: handler_invariant "delegated sub old" sub "\<lambda>_. True" for sub old
  by unfold_locales
     (auto simp: delegated_def calls.keeps_event calls.keeps_call calls_for_def
       intro: calls.keeps_event calls.keeps_call)

text \<open>
  \<open>made P sub old\<close>: every call issued since the trace \<open>old\<close> satisfies \<open>P\<close>.  It is kept by a
  handler whose calls do, which its proof shows call by call.
\<close>

definition made :: "(obo_call \<Rightarrow> bool) \<Rightarrow> string \<Rightarrow> event list \<Rightarrow> bff \<Rightarrow> bool" where
  "made P sub old s \<longleftrightarrow> (\<exists>es. trace s = es @ old \<and> (\<forall>c. EObo c \<in> set es \<longrightarrow> P c)) \<and>
     ses_subject (cur_ses s) = sub"

lemma made_event:
  assumes "made P sub old s" "\<And>c. e = EObo c \<Longrightarrow> P c"
  shows "made P sub old (s\<lparr>trace := e # trace s\<rparr>)"
proof -
  obtain es where "trace s = es @ old" "\<forall>c. EObo c \<in> set es \<longrightarrow> P c"
    using assms(1) by (auto simp: made_def)
  then show ?thesis using assms
    by (auto simp: made_def intro!: exI [of _ "e # es"])
qed

lemma made_start: "made P (ses_subject (cur_ses s)) (trace s) s"
  by (auto simp: made_def)

lemma made_calls:
  assumes "made P sub old s" "EObo c \<in> set es" "trace s = es @ old"
  shows "P c"
  using assms by (auto simp: made_def)

interpretation made: session_invariant "made P sub old" sub for P sub old
proof unfold_locales
  fix e s assume "\<not> is_call e" "made P sub old s"
  then show "made P sub old (s\<lparr>trace := e # trace s\<rparr>)"
    by (intro made_event) (auto simp: is_call_def)
qed (auto simp: made_def)

lemma keeps_made_ask: "P c \<Longrightarrow> keeps (made P sub old) (ask (EObo c) f)"
  by (auto intro!: keepsI made_event simp: wp_simps)

lemma keeps_made_call:
  assumes "P \<lparr>oc_timeout = None, oc_audience = aud, oc_scope = sc, oc_sub = ob_sub obo,
      oc_token = ob_token obo, oc_method = m, oc_url = u, oc_content_type = ct, oc_body = b\<rparr>"
  shows "keeps (made P sub old) (doJSONOnBehalf v svc aud sc m u obo b ct out)"
  using assms
  by (auto simp: outbound_defs intro!: keeps_if keeps_return keeps_bind keeps_on_ok keeps_made_ask)

lemma keeps_made_slow:
  assumes "P \<lparr>oc_timeout = Some slowOpTimeout, oc_audience = aud, oc_scope = sc, oc_sub = ob_sub obo,
      oc_token = ob_token obo, oc_method = m, oc_url = u, oc_content_type = ct, oc_body = b\<rparr>"
  shows "keeps (made P sub old) (doJSONOnBehalfSlow v svc aud sc m u obo b ct out)"
  using assms
  by (auto simp: outbound_defs intro!: keeps_if keeps_return keeps_bind keeps_on_ok keeps_made_ask)

end
