(* ===== verification/ServiceClients.thy ===== *)
theory ServiceClients
  imports Outbound
begin

text \<open>
  The calls the service makes under its own identity: what the signing service offers
  (\<open>clients/offer.go\<close>), which ways of signing in the Auth Service offers
  (\<open>clients/signinmethods.go\<close>), the public verification (\<open>clients/verify.go\<close>), and the
  multipart bodies they and the upload handler send (\<open>mime/multipart\<close>; the boundary is
  random, so it is the environment's).
\<close>

section \<open>Multipart bodies\<close>

definition crlf :: string where "crlf = [char_of (13 :: nat), char_of (10 :: nat)]"

definition dquote :: string where "dquote = [char_of (34 :: nat)]"

text \<open>Quotes and backslashes are escaped, line breaks percent-encoded.\<close>

definition quote_escape :: "string \<Rightarrow> string" where
  "quote_escape s = concat (map (\<lambda>c.
     if code c = 92 \<or> code c = 34 then [char_of (92 :: nat), c]
     else if code c = 13 then ''%0D'' else if code c = 10 then ''%0A'' else [c]) s)"

definition disposition :: "string \<Rightarrow> string" where
  "disposition field = ''Content-Disposition: form-data; name='' @ dquote @ quote_escape field @ dquote"

definition file_part :: "string \<Rightarrow> string \<Rightarrow> string \<Rightarrow> string" where
  "file_part field filename data = disposition field @ ''; filename='' @ dquote
     @ quote_escape filename @ dquote @ crlf @ ''Content-Type: application/octet-stream''
     @ crlf @ crlf @ data"

definition field_part :: "string \<times> string \<Rightarrow> string" where
  "field_part kx = disposition (fst kx) @ crlf @ crlf @ snd kx"

definition multipart :: "string \<Rightarrow> string list \<Rightarrow> string" where
  "multipart b parts = ''--'' @ b @ crlf @ join (crlf @ ''--'' @ b @ crlf) parts
     @ crlf @ ''--'' @ b @ ''--'' @ crlf"

definition form_type :: "string \<Rightarrow> string" where
  "form_type b = ''multipart/form-data; boundary='' @ b"

section \<open>What the signing service offers\<close>

definition offerCallTimeout :: duration where "offerCallTimeout = 5 * second"

definition scopeSignerRead :: string where "scopeSignerRead = ''signatures:read''"

definition NewOffer :: "string \<Rightarrow> string \<Rightarrow> service" where
  "NewOffer baseURL audience = \<lparr>sv_base = trim_right slash baseURL, sv_audience = audience\<rparr>"

record info_flow =
  fw_name :: string

record info_doc =
  in_flows :: "info_flow list option"

definition zero_info_flow :: info_flow where "zero_info_flow = \<lparr>fw_name = []\<rparr>"

definition enc_info_flow :: "info_flow \<Rightarrow> json" where
  "enc_info_flow = enc_struct [str_field ''name'' fw_name fw_name_update]"

definition dec_info_flow :: "json \<Rightarrow> info_flow \<Rightarrow> info_flow option" where
  "dec_info_flow = dec_struct [str_field ''name'' fw_name fw_name_update]"

definition zero_info_doc :: info_doc where "zero_info_doc = \<lparr>in_flows = None\<rparr>"

definition dec_info_doc :: "json \<Rightarrow> info_doc \<Rightarrow> info_doc option" where
  "dec_info_doc = dec_struct [slice_field ''flows'' enc_info_flow dec_info_flow zero_info_flow
     in_flows in_flows_update]"

definition svc_request :: "env \<Rightarrow> svc_call \<Rightarrow> (gerr + http_resp) act" where
  "svc_request v c = ask (ESvc c) (svc_reply v)"

definition Offer_Flows :: "env \<Rightarrow> service \<Rightarrow> (gerr + string list) act" where
  "Offer_Flows v c = do {
     r \<leftarrow> svc_request v \<lparr>sc_timeout = Some offerCallTimeout, sc_audience = sv_audience c,
            sc_scope = scopeSignerRead, sc_method = ''GET'', sc_url = sv_base c @ ''/api/v1/info'',
            sc_content_type = [], sc_body = no_body\<rparr>;
     State_Monad.return (case r of
       Inl e \<Rightarrow> Inl (Wrap ''signer'' e)
     | Inr x \<Rightarrow> if hr_status x \<noteq> 200 then Inl (HTTPError ''signer'' (hr_status x) (hr_body x))
         else (case decode dec_info_doc zero_info_doc (hr_body x) of
            Inl e \<Rightarrow> Inl (Wrap ''signer: decode info'' e)
          | Inr d \<Rightarrow> Inr (map fw_name (case in_flows d of None \<Rightarrow> [] | Some fs \<Rightarrow> fs)))) }"

section \<open>Which ways of signing in are offered\<close>

definition NewSignInMethods :: "string \<Rightarrow> string" where
  "NewSignInMethods baseURL = trim_right slash baseURL @ ''/.well-known/openid-configuration''"

definition SignInMethods_Flows :: "env \<Rightarrow> string \<Rightarrow> (gerr + string list) act" where
  "SignInMethods_Flows v url = do {
     r \<leftarrow> ask (EDiscovery url) (discovery_reply v);
     State_Monad.return (case r of
       Inl e \<Rightarrow> Inl (Wrap ''auth: discovery'' e)
     | Inr ms \<Rightarrow> Inr (filter method_name (map trim_space ms))) }"

section \<open>Remembering an answer\<close>

text \<open>
  \<open>OfferedFlows.Get\<close>.  The source is asked again once \<open>ttl\<close> has passed since it was asked
  last, whether it answered or failed; a failure keeps the last answer and marks it stale.
\<close>

definition refreshed :: "offer_state \<Rightarrow> gotime \<Rightarrow> gerr + string list \<Rightarrow> offer_state" where
  "refreshed o1 t r = (case r of
     Inl e \<Rightarrow> o1\<lparr>of_asked := True, of_at := t,
                of_err := Some (if of_flows o1 \<noteq> None then OfferStale e else e)\<rparr>
   | Inr fs \<Rightarrow> o1\<lparr>of_asked := True, of_at := t, of_flows := Some fs, of_err := None\<rparr>)"

definition OfferedFlows_Get :: "env \<Rightarrow> (bff \<Rightarrow> offer_state)
    \<Rightarrow> ((offer_state \<Rightarrow> offer_state) \<Rightarrow> bff \<Rightarrow> bff) \<Rightarrow> duration \<Rightarrow> (gerr + string list) act
    \<Rightarrow> (string list option \<times> gerr option) act" where
  "OfferedFlows_Get v sel upd ttl src = do {
     o1 \<leftarrow> gets sel;
     fresh \<leftarrow> (if of_asked o1 then do { t \<leftarrow> now v; State_Monad.return (t - of_at o1 < ttl) }
               else State_Monad.return False);
     if fresh then State_Monad.return (of_flows o1, of_err o1)
     else do {
       r \<leftarrow> src;
       t \<leftarrow> now v;
       modify (upd (\<lambda>o1. refreshed o1 t r));
       gets (\<lambda>s. (of_flows (sel s), of_err (sel s))) } }"

text \<open>The two instances the application holds.\<close>

definition signInMethodsTTL :: duration where "signInMethodsTTL = minute"

definition offered_flows :: "env \<Rightarrow> service \<Rightarrow> (string list option \<times> gerr option) act" where
  "offered_flows v c =
     OfferedFlows_Get v offered offered_update (signer_flows_ttl (cfg v)) (Offer_Flows v c)"

definition offered_sign_in :: "env \<Rightarrow> (string list option \<times> gerr option) act" where
  "offered_sign_in v = OfferedFlows_Get v sign_in sign_in_update signInMethodsTTL
     (SignInMethods_Flows v (ap_signin_url (app v)))"

lemma offered_fresh:
  assumes "of_asked (sel s)" "clock v (EClock # trace s) - of_at (sel s) < ttl"
  shows "wp (OfferedFlows_Get v sel upd ttl src) (\<lambda>r t. r = (of_flows (sel s), of_err (sel s))
           \<and> t = s\<lparr>trace := EClock # trace s\<rparr>) s"
  using assms by (simp add: OfferedFlows_Get_def wp_simps now_def)

section \<open>Public verification\<close>

definition verifyCallTimeout :: duration where "verifyCallTimeout = 90 * second"

definition scopeVerifyRead :: string where "scopeVerifyRead = ''signatures:read''"

definition NewVerify :: "string \<Rightarrow> string \<Rightarrow> service" where
  "NewVerify baseURL audience = \<lparr>sv_base = trim_right slash baseURL, sv_audience = audience\<rparr>"

record verify_result =
  vr_status :: int
  vr_report :: payload
  vr_session :: string

definition multipartUpload :: "string \<Rightarrow> string \<Rightarrow> string \<Rightarrow> string \<Rightarrow> payload \<times> string" where
  "multipartUpload b field filename data =
     (Bytes (multipart b [file_part field filename data]), form_type b)"

definition Verify_Validate :: "env \<Rightarrow> service \<Rightarrow> string \<Rightarrow> string \<Rightarrow> (gerr + verify_result) act" where
  "Verify_Validate v c filename data = do {
     b \<leftarrow> gets (\<lambda>s. boundary v (trace s));
     let (bd, contentType) = multipartUpload b ''file'' filename data;
     r \<leftarrow> svc_request v \<lparr>sc_timeout = Some verifyCallTimeout, sc_audience = sv_audience c,
            sc_scope = scopeVerifyRead, sc_method = ''POST'', sc_url = sv_base c @ ''/api/v1/validations'',
            sc_content_type = contentType, sc_body = bd\<rparr>;
     State_Monad.return (case r of
       Inl e \<Rightarrow> Inl (Wrap ''verify'' e)
     | Inr x \<Rightarrow> Inr \<lparr>vr_status = hr_status x, vr_report = hr_body x,
                     vr_session = hr_header x ''X-Validation-Session''\<rparr>) }"

context handler_invariant
begin

lemma keeps_offered_flows: "keeps I (offered_flows v c)"
proof -
  have "keeps I (modify (offered_update f))" for f
    by (rule keeps_modify) (metis (no_types, lifting) keeps_offered bff.surjective bff.update_convs(4))
  then show ?thesis
    by (auto simp: offered_flows_def OfferedFlows_Get_def Offer_Flows_def svc_request_def
        intro!: keeps_intros keeps_ask keeps_primitives)
qed

end

end
