(* ===== verification/Edge.thy ===== *)
theory Edge
  imports ServiceClients "HOL-Library.Multiset"
begin

text \<open>
  The public edge: the cookies (\<open>routes/cookies.go\<close>), the session gate with its
  anti-forgery check (\<open>routes/middleware.go\<close>), and the client address and in-flight gate of
  the anonymous verification (\<open>routes/verify.go\<close>).
\<close>

section \<open>Cookies\<close>

definition signInCookieName :: string where "signInCookieName = ''portal_signin''"
definition csrfCookieName :: string where "csrfCookieName = ''portal_csrf''"
definition bindingBytes :: nat where "bindingBytes = 32"
definition hostPrefix :: string where "hostPrefix = ''__Host-''"

definition secureCookies :: "request \<Rightarrow> bool" where
  "secureCookies q \<longleftrightarrow> rq_tls q \<or> \<not> rq_development q"

definition cookieName :: "request \<Rightarrow> string \<Rightarrow> string" where
  "cookieName q name = (if secureCookies q then hostPrefix @ name else name)"

definition readCookie :: "request \<Rightarrow> string \<Rightarrow> string" where
  "readCookie q name = rq_cookie q (cookieName q name)"

definition new_cookie :: "request \<Rightarrow> string \<Rightarrow> string \<Rightarrow> bool \<Rightarrow> duration option \<Rightarrow> cookie" where
  "new_cookie q name x httpOnly maxAge = \<lparr>ck_name = cookieName q name, ck_value = x,
     ck_http_only = httpOnly, ck_secure = secureCookies q, ck_same_site = ''Lax'', ck_path = ''/'',
     ck_max_age = maxAge,
     ck_clear = False\<rparr>"

definition setSessionCookies :: "request \<Rightarrow> string \<Rightarrow> string \<Rightarrow> string \<Rightarrow> unit act" where
  "setSessionCookies q name sid csrf = do {
     add_cookie (new_cookie q name sid True None);
     add_cookie (new_cookie q csrfCookieName csrf False None) }"

definition expiring_cookie :: "request \<Rightarrow> string \<Rightarrow> cookie" where
  "expiring_cookie q name = \<lparr>ck_name = cookieName q name, ck_value = [], ck_http_only = False,
     ck_secure = secureCookies q, ck_same_site = [], ck_path = ''/'', ck_max_age = None, ck_clear = True\<rparr>"

definition clearSessionCookies :: "request \<Rightarrow> string \<Rightarrow> unit act" where
  "clearSessionCookies q name = do {
     add_cookie (expiring_cookie q name);
     add_cookie (expiring_cookie q csrfCookieName) }"

text \<open>A binding value is 32 bytes in unpadded URL-safe base64.\<close>

definition browserBinding :: "request \<Rightarrow> string" where
  "browserBinding q = (let x = readCookie q signInCookieName in
     if length x \<noteq> raw_encoded_len bindingBytes then []
     else case b64_decode True False x of None \<Rightarrow> [] | Some _ \<Rightarrow> x)"

definition bindBrowser :: "env \<Rightarrow> request \<Rightarrow> duration \<Rightarrow> (gerr + string) act" where
  "bindBrowser v q flowTTL =
     on_ok (if browserBinding q = [] then RandomToken v bindingBytes
            else State_Monad.return (Inr (browserBinding q)))
       (\<lambda>binding. do {
          add_cookie (new_cookie q signInCookieName binding True (Some flowTTL));
          State_Monad.return (Inr binding) })"

section \<open>The session gate\<close>

definition csrfHeader :: string where "csrfHeader = ''X-CSRF-Token''"

definition stateChanging :: "string \<Rightarrow> bool" where
  "stateChanging meth \<longleftrightarrow> meth \<noteq> ''GET'' \<and> meth \<noteq> ''HEAD'' \<and> meth \<noteq> ''OPTIONS''"

text \<open>A problem whose status is the one its code stands for.\<close>

definition unauthorized :: "string \<Rightarrow> web_error" where
  "unauthorized detail = Problem ''err:session:unauthorized'' None None (Some detail) None"

definition csrf_problem :: web_error where
  "csrf_problem = problem ''err:session:csrf'' 403 ''missing or invalid anti-forgery token''"

definition csrf_refused :: "request \<Rightarrow> session \<Rightarrow> bool" where
  "csrf_refused q x \<longleftrightarrow> stateChanging (rq_method q) \<and>
     (ses_csrf x = [] \<or> rq_header q csrfHeader \<noteq> ses_csrf x)"

text \<open>The refusal's security event, when the framework has a sink for such events.\<close>

definition csrfDenied :: "env \<Rightarrow> session \<Rightarrow> unit act" where
  "csrfDenied v x = (if sec_events v then emit (EAuthZDenied (ses_subject x)) else skip)"

definition requireSession :: "env \<Rightarrow> request \<Rightarrow> unit act \<Rightarrow> unit act" where
  "requireSession v q next_handler = (let sid = readCookie q (cookie_name (cfg v)) in
     if sid = [] then ctx_error v (unauthorized ''no session'')
     else do {
       r \<leftarrow> GetSession v sid;
       case r of
         Inl e \<Rightarrow> do {
           clearSessionCookies q (cookie_name (cfg v));
           ctx_error v (unauthorized ''session expired'') }
       | Inr x \<Rightarrow>
           if csrf_refused q x then do {
             csrfDenied v x;
             ctx_error v csrf_problem }
           else do {
             modify (\<lambda>s. s\<lparr>cur_sid := sid, cur_ses := x\<rparr>);
             next_handler } })"

text \<open>What \<open>GetSession\<close> changes: nothing but the trace, by the clock or a Redis read.\<close>

lemma GetSession_state:
  "wp (GetSession v sid) (\<lambda>r t. \<exists>es. t = s\<lparr>trace := es @ trace s\<rparr> \<and>
     list_all (\<lambda>e. e = EClock \<or> e = ERedis (RGet (sessKey sid))) es) s"
proof (cases "ap_redis (app v)")
  case True
  then show ?thesis
    by (simp add: GetSession_def redis_GetSession_def redis_def wp_simps)
       (rule exI [of _ "[ERedis (RGet (sessKey sid))]"], simp)
next
  case False
  have "\<exists>es. s = s\<lparr>trace := es @ trace s\<rparr> \<and>
      list_all (\<lambda>e. e = EClock \<or> e = ERedis (RGet (sessKey sid))) es"
    by (rule exI [of _ "[]"]) simp
  moreover have "\<exists>es. s\<lparr>trace := EClock # trace s\<rparr> = s\<lparr>trace := es @ trace s\<rparr> \<and>
      list_all (\<lambda>e. e = EClock \<or> e = ERedis (RGet (sessKey sid))) es"
    by (rule exI [of _ "[EClock]"]) simp
  ultimately show ?thesis
    using False by (auto simp: GetSession_def wp_mem_GetSession Let_def split: option.split)
qed

lemma final_GetSession:
  "\<exists>es. final (GetSession v sid) s = s\<lparr>trace := es @ trace s\<rparr> \<and>
     list_all (\<lambda>e. e = EClock \<or> e = ERedis (RGet (sessKey sid))) es"
  using GetSession_state [of v sid s] by (simp add: wp_final)

text \<open>The three ways through the gate.\<close>

lemma requireSession_none:
  "readCookie q (cookie_name (cfg v)) = [] \<Longrightarrow>
   final (requireSession v q h) s = final (ctx_error v (unauthorized ''no session'')) s"
  by (simp add: requireSession_def)

lemma requireSession_lost:
  assumes "readCookie q (cookie_name (cfg v)) = sid" "sid \<noteq> []" "answer (GetSession v sid) s = Inl e"
  shows "final (requireSession v q h) s =
    final (do { clearSessionCookies q (cookie_name (cfg v));
                ctx_error v (unauthorized ''session expired'') }) (final (GetSession v sid) s)"
  using assms by (simp add: requireSession_def Let_def final_bind)

lemma requireSession_refused:
  assumes "readCookie q (cookie_name (cfg v)) = sid" "sid \<noteq> []" "answer (GetSession v sid) s = Inr x"
    "csrf_refused q x"
  shows "final (requireSession v q h) s =
    final (do { csrfDenied v x; ctx_error v csrf_problem }) (final (GetSession v sid) s)"
  using assms by (simp add: requireSession_def Let_def final_bind)

lemma final_csrfDenied:
  "final (csrfDenied v x) s =
    s\<lparr>trace := (if sec_events v then [EAuthZDenied (ses_subject x)] else []) @ trace s\<rparr>"
  by (simp add: csrfDenied_def final_emit final_simps)

lemma requireSession_passed:
  assumes "readCookie q (cookie_name (cfg v)) = sid" "sid \<noteq> []" "answer (GetSession v sid) s = Inr x"
    "\<not> csrf_refused q x"
  shows "final (requireSession v q h) s =
    final h ((final (GetSession v sid) s)\<lparr>cur_sid := sid, cur_ses := x\<rparr>)"
  using assms by (simp add: requireSession_def Let_def final_simps)

lemma wp_requireSession:
  "wp (requireSession v q h) Q s =
    (let sid = readCookie q (cookie_name (cfg v)) in
     if sid = [] then wp (ctx_error v (unauthorized ''no session'')) Q s
     else wp (GetSession v sid) (\<lambda>r t. case r of
         Inl e \<Rightarrow> wp (do { clearSessionCookies q (cookie_name (cfg v));
                         ctx_error v (unauthorized ''session expired'') }) Q t
       | Inr x \<Rightarrow> if csrf_refused q x
           then wp (do { csrfDenied v x; ctx_error v csrf_problem }) Q t
           else wp h Q (t\<lparr>cur_sid := sid, cur_ses := x\<rparr>)) s)"
  by (simp add: requireSession_def wp_simps Let_def cong: if_cong sum.case_cong)

section \<open>The client address\<close>

definition verifyClientIP :: "request \<Rightarrow> string" where
  "verifyClientIP q = (let x = rq_header q ''X-Forwarded-For'' in
     if x \<noteq> [] then trim_space (takeWhile (\<lambda>c. c \<noteq> CHR '','') x)
     else case rq_ip q of Some a \<Rightarrow> a | None \<Rightarrow> [])"

section \<open>The in-flight gate\<close>

text \<open>\<open>newInflightGate\<close> raises a cap below one to one.\<close>

definition gate_max :: "env \<Rightarrow> nat" where
  "gate_max v = nat (max 1 (verify_concurrent_per_ip (cfg v)))"

definition in_flight :: "(string \<rightharpoonup> nat) \<Rightarrow> string \<Rightarrow> nat" where
  "in_flight g key = (case g key of Some n \<Rightarrow> n | None \<Rightarrow> 0)"

definition gate_acquire :: "nat \<Rightarrow> string \<Rightarrow> (string \<rightharpoonup> nat) \<Rightarrow> (string \<rightharpoonup> nat) option" where
  "gate_acquire mx key g =
     (if mx \<le> in_flight g key then None else Some (g(key \<mapsto> in_flight g key + 1)))"

definition gate_release :: "string \<Rightarrow> (string \<rightharpoonup> nat) \<Rightarrow> (string \<rightharpoonup> nat)" where
  "gate_release key g =
     (if in_flight g key \<le> 1 then g(key := None) else g(key \<mapsto> in_flight g key - 1))"

text \<open>The map holds the keys in flight, each with a count between one and the cap.\<close>

definition gate_inv :: "nat \<Rightarrow> (string \<rightharpoonup> nat) \<Rightarrow> bool" where
  "gate_inv mx g \<longleftrightarrow> (\<forall>k n. g k = Some n \<longrightarrow> 0 < n \<and> n \<le> mx)"

lemma in_flight_upd [simp]:
  "in_flight (g(k := x)) j = (if j = k then (case x of Some n \<Rightarrow> n | None \<Rightarrow> 0) else in_flight g j)"
  by (simp add: in_flight_def)

lemma gate_acquire_inv:
  "gate_inv mx g \<Longrightarrow> gate_acquire mx key g = Some g' \<Longrightarrow> gate_inv mx g'"
  by (auto simp: gate_inv_def gate_acquire_def split: if_splits)

lemma gate_release_inv: "gate_inv mx g \<Longrightarrow> gate_inv mx (gate_release key g)"
proof -
  assume inv: "gate_inv mx g"
  have "in_flight g key \<le> mx"
    using inv by (auto simp: gate_inv_def in_flight_def split: option.split)
  then show ?thesis using inv by (auto simp: gate_inv_def gate_release_def split: if_splits)
qed

lemma gate_release_acquire:
  assumes "gate_inv mx g" "gate_acquire mx key g = Some g'"
  shows "gate_release key g' = g"
proof -
  have g': "g' = g(key \<mapsto> in_flight g key + 1)"
    using assms(2) by (simp add: gate_acquire_def split: if_splits)
  show ?thesis
  proof (cases "g key")
    case None
    then show ?thesis by (auto simp: g' gate_release_def in_flight_def)
  next
    case (Some n)
    then have "0 < n" using assms(1) by (auto simp: gate_inv_def)
    then show ?thesis using Some by (auto simp: g' gate_release_def in_flight_def fun_eq_iff)
  qed
qed

text \<open>
  Requests run concurrently; what they do to the gate interleaves.  A configuration is the
  gate together with the requests that hold a place in it.
\<close>

inductive gate_step :: "nat \<Rightarrow> (string \<rightharpoonup> nat) \<times> string multiset \<Rightarrow> (string \<rightharpoonup> nat) \<times> string multiset \<Rightarrow> bool"
  for mx where
  enter: "gate_acquire mx k g = Some g' \<Longrightarrow> gate_step mx (g, m) (g', add_mset k m)"
| refuse: "gate_acquire mx k g = None \<Longrightarrow> gate_step mx (g, m) (g, m)"
| leave: "k \<in># m \<Longrightarrow> gate_step mx (g, m) (gate_release k g, m - {#k#})"

inductive gate_reach :: "nat \<Rightarrow> (string \<rightharpoonup> nat) \<times> string multiset \<Rightarrow> bool" for mx where
  start: "gate_reach mx (Map.empty, {#})"
| step: "gate_reach mx c \<Longrightarrow> gate_step mx c d \<Longrightarrow> gate_reach mx d"

lemma gate_counts_step:
  assumes "gate_step mx c d" "\<forall>k. in_flight (fst c) k = count (snd c) k" "gate_inv mx (fst c)"
  shows "(\<forall>k. in_flight (fst d) k = count (snd d) k) \<and> gate_inv mx (fst d)"
  using assms
proof (induction rule: gate_step.induct)
  case (enter k g g' m)
  then show ?case using gate_acquire_inv [of mx g k g'] by (auto simp: gate_acquire_def split: if_splits)
next
  case (refuse k g m)
  then show ?case by simp
next
  case (leave k m g)
  have "in_flight (gate_release k g) j = count (m - {#k#}) j" for j
    using leave by (auto simp: gate_release_def)
  then show ?case using leave gate_release_inv [of mx g k] by simp
qed

lemma gate_counts:
  "gate_reach mx c \<Longrightarrow> (\<forall>k. in_flight (fst c) k = count (snd c) k) \<and> gate_inv mx (fst c)"
proof (induction rule: gate_reach.induct)
  case start
  then show ?case by (simp add: in_flight_def gate_inv_def)
next
  case (step c d)
  then show ?case using gate_counts_step by blast
qed

end
