(* ===== verification/Requests.thy ===== *)
theory Requests
  imports Store
begin

text \<open>
  \<open>routes/request/\<close> and the request structs of \<open>routes/documents.go\<close>: what a JSON body has to
  be.  A body is decoded by its struct tags and then, where the type has a \<open>Validate\<close> method,
  checked against the \<open>validate\<close> tags, whose rules the validator library documents:
  \<open>required\<close> refuses a zero value (the number 0 among them), \<open>omitempty\<close> lets a zero value
  pass, \<open>oneof\<close> lists the admitted words, \<open>len=2,alpha\<close> asks for two ASCII letters, \<open>dive\<close>
  checks each element.
\<close>

section \<open>The structs\<close>

definition zero_login_start :: login_start where
  "zero_login_start = \<lparr>lo_acr_values = []\<rparr>"

definition login_start_fields :: "login_start field list" where
  "login_start_fields = [str_omit ''acr_values'' lo_acr_values lo_acr_values_update]"

definition zero_slot_entry :: slot_entry where
  "zero_slot_entry = \<lparr>se_order_index = 0, se_role = [], se_flow = [], se_required_loa = [],
     se_identity_ref = [], se_country = []\<rparr>"

definition slot_entry_fields :: "slot_entry field list" where
  "slot_entry_fields = [
     int_field ''orderIndex'' se_order_index se_order_index_update,
     str_omit ''role'' se_role se_role_update,
     str_omit ''flow'' se_flow se_flow_update,
     str_omit ''requiredLoa'' se_required_loa se_required_loa_update,
     str_omit ''identityRef'' se_identity_ref se_identity_ref_update,
     str_omit ''country'' se_country se_country_update]"

definition enc_slot_entry :: "slot_entry \<Rightarrow> json" where "enc_slot_entry = enc_struct slot_entry_fields"

definition dec_slot_entry :: "json \<Rightarrow> slot_entry \<Rightarrow> slot_entry option" where
  "dec_slot_entry = dec_struct slot_entry_fields"

definition zero_create_envelope :: create_envelope where
  "zero_create_envelope = \<lparr>ce_title = [], ce_order_policy = [], ce_profile = [], ce_documents = [],
     ce_slots = []\<rparr>"

definition create_envelope_fields :: "create_envelope field list" where
  "create_envelope_fields = [
     str_omit ''title'' ce_title ce_title_update,
     str_omit ''orderPolicy'' ce_order_policy ce_order_policy_update,
     str_omit ''profile'' ce_profile ce_profile_update,
     list_omit ''documents'' enc_str dec_str [] ce_documents ce_documents_update,
     list_omit ''slots'' enc_slot_entry dec_slot_entry zero_slot_entry ce_slots ce_slots_update]"

record attach_document =
  ad_document_id :: string

definition zero_attach_document :: attach_document where
  "zero_attach_document = \<lparr>ad_document_id = []\<rparr>"

definition attach_document_fields :: "attach_document field list" where
  "attach_document_fields = [str_field ''documentId'' ad_document_id ad_document_id_update]"

definition zero_sign_slot :: sign_slot where
  "zero_sign_slot = \<lparr>ss_document_id = [], ss_flow = [], ss_sig_format = [],
     ss_signing_certificate = [], ss_auth_certificate = [], ss_seal_id = []\<rparr>"

definition sign_slot_fields :: "sign_slot field list" where
  "sign_slot_fields = [
     str_field ''documentId'' ss_document_id ss_document_id_update,
     str_field ''flow'' ss_flow ss_flow_update,
     str_field ''sigFormat'' ss_sig_format ss_sig_format_update,
     str_omit ''signingCertificate'' ss_signing_certificate ss_signing_certificate_update,
     str_omit ''authCertificate'' ss_auth_certificate ss_auth_certificate_update,
     str_omit ''sealId'' ss_seal_id ss_seal_id_update]"

record client_signature_value =
  cv_document_id :: string
  cv_signature_value :: string

definition zero_client_signature_value :: client_signature_value where
  "zero_client_signature_value = \<lparr>cv_document_id = [], cv_signature_value = []\<rparr>"

definition client_signature_value_fields :: "client_signature_value field list" where
  "client_signature_value_fields = [
     str_field ''documentId'' cv_document_id cv_document_id_update,
     str_field ''signatureValue'' cv_signature_value cv_signature_value_update]"

definition enc_client_signature_value :: "client_signature_value \<Rightarrow> json" where
  "enc_client_signature_value = enc_struct client_signature_value_fields"

definition dec_client_signature_value :: "json \<Rightarrow> client_signature_value \<Rightarrow> client_signature_value option" where
  "dec_client_signature_value = dec_struct client_signature_value_fields"

record client_signature_request =
  cr_signatures :: "client_signature_value list option"

definition zero_client_signature_request :: client_signature_request where
  "zero_client_signature_request = \<lparr>cr_signatures = None\<rparr>"

definition client_signature_request_fields :: "client_signature_request field list" where
  "client_signature_request_fields = [slice_field ''signatures'' enc_client_signature_value
     dec_client_signature_value zero_client_signature_value cr_signatures cr_signatures_update]"

record bundle_request =
  br_source_ids :: "string list option"

definition zero_bundle_request :: bundle_request where
  "zero_bundle_request = \<lparr>br_source_ids = None\<rparr>"

definition bundle_request_fields :: "bundle_request field list" where
  "bundle_request_fields = [slice_field ''sourceIds'' enc_str dec_str [] br_source_ids br_source_ids_update]"

record rebundle_request =
  rr_entries :: "bundle_entry list option"

definition zero_rebundle_request :: rebundle_request where
  "zero_rebundle_request = \<lparr>rr_entries = None\<rparr>"

definition rebundle_request_fields :: "rebundle_request field list" where
  "rebundle_request_fields = [slice_field ''entries'' enc_bundle_entry dec_bundle_entry
     zero_bundle_entry rr_entries rr_entries_update]"

section \<open>What the tags admit\<close>

definition valid_country :: "string \<Rightarrow> bool" where
  "valid_country c \<longleftrightarrow> c = [] \<or> length c = 2 \<and> list_all is_alpha c"

definition valid_slot_entry :: "slot_entry \<Rightarrow> bool" where
  "valid_slot_entry x \<longleftrightarrow> valid_country (se_country x)"

definition valid_create_envelope :: "create_envelope \<Rightarrow> bool" where
  "valid_create_envelope r \<longleftrightarrow>
     (ce_order_policy r = [] \<or> ce_order_policy r \<in> {''parallel'', ''sequential''}) \<and>
     list_all (\<lambda>d. d \<noteq> []) (ce_documents r) \<and> list_all valid_slot_entry (ce_slots r)"

definition valid_attach_document :: "attach_document \<Rightarrow> bool" where
  "valid_attach_document r \<longleftrightarrow> ad_document_id r \<noteq> []"

definition valid_add_slot :: "slot_entry \<Rightarrow> bool" where
  "valid_add_slot x \<longleftrightarrow> se_order_index x \<noteq> 0 \<and> valid_country (se_country x)"

definition valid_sign_slot :: "sign_slot \<Rightarrow> bool" where
  "valid_sign_slot r \<longleftrightarrow> ss_document_id r \<noteq> [] \<and> ss_flow r \<noteq> [] \<and> ss_sig_format r \<noteq> []"

definition valid_client_signature_value :: "client_signature_value \<Rightarrow> bool" where
  "valid_client_signature_value x \<longleftrightarrow> cv_document_id x \<noteq> [] \<and> cv_signature_value x \<noteq> []"

definition valid_client_signature :: "client_signature_request \<Rightarrow> bool" where
  "valid_client_signature r \<longleftrightarrow> (case cr_signatures r of
     None \<Rightarrow> False | Some xs \<Rightarrow> xs \<noteq> [] \<and> list_all valid_client_signature_value xs)"

section \<open>Reading a body\<close>

definition validation_failed :: gerr where
  "validation_failed = Text ''validation failed''"

text \<open>\<open>ctx.Body.JSON(&req)\<close>: the decoded value, or the error the handler hands to \<open>ctx.Error\<close>.\<close>

definition body_json :: "(json \<Rightarrow> 'a \<Rightarrow> 'a option) \<Rightarrow> 'a \<Rightarrow> ('a \<Rightarrow> bool) \<Rightarrow> request \<Rightarrow> gerr + 'a" where
  "body_json dec zero valid q = (case decode dec zero (rq_body q) of
     Inl e \<Rightarrow> Inl e
   | Inr x \<Rightarrow> if valid x then Inr x else Inl validation_failed)"

definition login_start_body :: "request \<Rightarrow> gerr + login_start" where
  "login_start_body = body_json (dec_struct login_start_fields) zero_login_start (\<lambda>_. True)"

definition create_envelope_body :: "request \<Rightarrow> gerr + create_envelope" where
  "create_envelope_body =
     body_json (dec_struct create_envelope_fields) zero_create_envelope valid_create_envelope"

definition attach_document_body :: "request \<Rightarrow> gerr + attach_document" where
  "attach_document_body =
     body_json (dec_struct attach_document_fields) zero_attach_document valid_attach_document"

definition add_slot_body :: "request \<Rightarrow> gerr + slot_entry" where
  "add_slot_body = body_json dec_slot_entry zero_slot_entry valid_add_slot"

definition sign_slot_body :: "request \<Rightarrow> gerr + sign_slot" where
  "sign_slot_body = body_json (dec_struct sign_slot_fields) zero_sign_slot valid_sign_slot"

definition client_signature_body :: "request \<Rightarrow> gerr + client_signature_request" where
  "client_signature_body = body_json (dec_struct client_signature_request_fields)
     zero_client_signature_request valid_client_signature"

definition bundle_body :: "request \<Rightarrow> gerr + bundle_request" where
  "bundle_body = body_json (dec_struct bundle_request_fields) zero_bundle_request (\<lambda>_. True)"

definition rebundle_body :: "request \<Rightarrow> gerr + rebundle_request" where
  "rebundle_body = body_json (dec_struct rebundle_request_fields) zero_rebundle_request (\<lambda>_. True)"

section \<open>What was sent is what is read\<close>

lemma body_json_read:
  "dec j zero = Some x \<Longrightarrow> rq_body q = Doc j \<Longrightarrow>
   body_json dec zero valid q = (if valid x then Inr x else Inl validation_failed)"
  by (simp add: body_json_def decode_def)

lemma body_json_ok: "body_json dec zero valid q = Inr x \<Longrightarrow> valid x"
  by (auto simp: body_json_def split: sum.splits if_splits)

interpretation slot_entry_codec:
  codec enc_slot_entry dec_slot_entry zero_slot_entry "\<lambda>x. int64 (se_order_index x)"
proof unfold_locales
  fix x :: slot_entry assume "int64 (se_order_index x)"
  moreover have "distinct (map fname slot_entry_fields)" by (simp add: slot_entry_fields_def)
  ultimately show "dec_slot_entry (enc_slot_entry x) zero_slot_entry = Some x"
    using dec_enc_struct [of slot_entry_fields]
    by (simp add: dec_slot_entry_def enc_slot_entry_def)
       (simp add: slot_entry_fields_def zero_slot_entry_def copy_simps)
qed

interpretation create_envelope_codec:
  codec "enc_struct create_envelope_fields" "dec_struct create_envelope_fields" zero_create_envelope
    "\<lambda>x. list_all (\<lambda>e. int64 (se_order_index e)) (ce_slots x)"
proof unfold_locales
  fix x :: create_envelope assume "list_all (\<lambda>e. int64 (se_order_index e)) (ce_slots x)"
  then have "dec_list dec_slot_entry zero_slot_entry (map enc_slot_entry (ce_slots x)) = Some (ce_slots x)"
    by (rule slot_entry_codec.decode_encode_list)
  moreover have "distinct (map fname create_envelope_fields)" by (simp add: create_envelope_fields_def)
  ultimately show "dec_struct create_envelope_fields (enc_struct create_envelope_fields x)
      zero_create_envelope = Some x"
    using dec_enc_struct [of create_envelope_fields]
    by simp (simp add: create_envelope_fields_def zero_create_envelope_def copy_simps)
qed

interpretation sign_slot_codec:
  codec "enc_struct sign_slot_fields" "dec_struct sign_slot_fields" zero_sign_slot "\<lambda>_. True"
proof unfold_locales
  fix x :: sign_slot
  have "distinct (map fname sign_slot_fields)" by (simp add: sign_slot_fields_def)
  then show "dec_struct sign_slot_fields (enc_struct sign_slot_fields x) zero_sign_slot = Some x"
    using dec_enc_struct [of sign_slot_fields]
    by simp (simp add: sign_slot_fields_def zero_sign_slot_def copy_simps)
qed

lemma sign_slot_read:
  assumes "rq_body q = Doc (enc_struct sign_slot_fields x)" "valid_sign_slot x"
  shows "sign_slot_body q = Inr x"
  using body_json_read [OF _ assms(1), of _ _ x] sign_slot_codec.decode_encode [of x] assms(2)
  by (simp add: sign_slot_body_def)

lemma create_envelope_read:
  assumes "rq_body q = Doc (enc_struct create_envelope_fields x)" "valid_create_envelope x"
    and "list_all (\<lambda>e. int64 (se_order_index e)) (ce_slots x)"
  shows "create_envelope_body q = Inr x"
  using body_json_read [OF _ assms(1), of _ _ x] create_envelope_codec.decode_encode [OF assms(3)] assms(2)
  by (simp add: create_envelope_body_def)

lemma add_slot_read:
  assumes "rq_body q = Doc (enc_slot_entry x)" "int64 (se_order_index x)"
  shows "add_slot_body q = (if valid_add_slot x then Inr x else Inl validation_failed)"
  using body_json_read [OF _ assms(1), of _ _ x] slot_entry_codec.decode_encode [OF assms(2)]
  by (simp add: add_slot_body_def)

end
