(* ===== verification/SessionRoutes.thy ===== *)
theory SessionRoutes
  imports Edge Requests
begin

text \<open>
  \<open>routes/session.go\<close>, \<open>routes/signinmethods.go\<close> and \<open>routes/health.go\<close>: starting a
  sign-in, landing its callback, the session's identity, refresh and sign-out, and the
  delegation every composed call starts from (\<open>onBehalf\<close> of \<open>routes/documents.go\<close>).
\<close>

section \<open>Starting a sign-in\<close>

text \<open>\<open>freshOnly\<close>: no earlier authentication is accepted.\<close>

definition freshOnly :: "duration option" where "freshOnly = Some 0"

definition invalid_methods :: web_error where
  "invalid_methods = problem ''err:request:invalid'' 400
     ''acr_values is not a list of sign-in method names''"

definition enc_login_start :: "string \<Rightarrow> string \<Rightarrow> json" where
  "enc_login_start url st = JObj [(''authorize_url'', JStr url), (''state'', JStr st)]"

definition GenerateKey :: "env \<Rightarrow> (gerr + pkey) act" where
  "GenerateKey v = ask EKeyGen (generate_key v)"

definition PKCE :: "env \<Rightarrow> (gerr + string \<times> string) act" where
  "PKCE v = ask EPkce (pkce v)"

definition lift_text :: "string + 'a \<Rightarrow> gerr + 'a" where
  "lift_text r = (case r of Inl e \<Rightarrow> Inl (Text e) | Inr x \<Rightarrow> Inr x)"

text \<open>
  What a sign-in parks, and the address it sends the browser to; any failure on the way is an
  error the handler answers as an internal one.
\<close>

definition park_flow :: "env \<Rightarrow> request \<Rightarrow> string \<Rightarrow> (gerr + json) act" where
  "park_flow v q acr =
     on_ok (GenerateKey v) (\<lambda>key.
     on_ok (State_Monad.return (lift_text (MarshalKey (key_der v) key))) (\<lambda>keyEnc.
     on_ok (PKCE v) (\<lambda>(verifier, challenge).
     on_ok (RandomToken v 24) (\<lambda>st.
     on_ok (RandomToken v 24) (\<lambda>nonce.
     on_ok (bindBrowser v q (flow_ttl (cfg v))) (\<lambda>binding. do {
       t \<leftarrow> now v;
       on_ok (PutFlow v (FlowKey (sha256 v) st binding)
               \<lparr>fl_key = keyEnc, fl_verifier = verifier, fl_nonce = nonce, fl_acr_values = acr,
                fl_started = t\<rparr>)
         (\<lambda>_. State_Monad.return (Inr (enc_login_start
            (authorization_url v \<lparr>ar_code_challenge = challenge, ar_state = st, ar_nonce = nonce,
               ar_acr_values = acr, ar_prompt = ''login'', ar_max_age = freshOnly\<rparr>) st))) }))))))"

definition loginStart :: "env \<Rightarrow> request \<Rightarrow> unit act" where
  "loginStart v q =
     (case (if payload_empty (rq_body q) then Inr zero_login_start else login_start_body q) of
        Inl e \<Rightarrow> ctx_error v (Framework e)
      | Inr req \<Rightarrow>
          if lo_acr_values req \<noteq> [] \<and> \<not> method_names (lo_acr_values req)
          then ctx_error v invalid_methods
          else do {
            r \<leftarrow> park_flow v q (lo_acr_values req);
            case r of Inl e \<Rightarrow> fail v e | Inr j \<Rightarrow> ctx_json j })"

section \<open>Tokens of a session\<close>

definition wrap64 :: "int \<Rightarrow> int" where
  "wrap64 i = (i + 2 ^ 63) mod 2 ^ 64 - 2 ^ 63"

definition unix_epoch :: gotime where "unix_epoch = 62135596800 * second"

definition Unix :: "gotime \<Rightarrow> int" where
  "Unix t = (t - unix_epoch) div second"

definition refreshLeeway :: duration where "refreshLeeway = 30 * second"

text \<open>\<open>applyTokens\<close> at the time \<open>t\<close>; the lifetime is multiplied as a 64-bit duration.\<close>

definition applyTokens :: "gotime \<Rightarrow> tokens \<Rightarrow> session \<Rightarrow> session" where
  "applyTokens t tk x =
     x\<lparr>ses_access_token := tk_access tk,
       ses_access_expiry := Unix (t + wrap64 (tk_expires_in tk * second)),
       ses_refresh_token := (if tk_refresh tk \<noteq> [] then tk_refresh tk else ses_refresh_token x)\<rparr>"

definition capabilitiesFromTokens :: "tokens \<Rightarrow> capabilities option" where
  "capabilitiesFromTokens tk = (case tk_capabilities tk of
     None \<Rightarrow> None
   | Some c \<Rightarrow> Some \<lparr>cap_sign_identity = cap_sign_identity c, cap_signing_cert = cap_signing_cert c,
       cap_auth_cert = cap_auth_cert c, cap_seals = map (\<lambda>s. s) (cap_seals c),
       cap_seals_known = cap_seals_known c\<rparr>)"

definition Refresh :: "env \<Rightarrow> pkey \<Rightarrow> string \<Rightarrow> (gerr + tokens) act" where
  "Refresh v key rt = ask (ERefresh key rt) (refresh_reply v)"

definition parse_key :: "env \<Rightarrow> session \<Rightarrow> gerr + pkey" where
  "parse_key v x = lift_text (ParseKey (key_der v) (ses_key x))"

definition near_expiry :: "gotime \<Rightarrow> session \<Rightarrow> bool" where
  "near_expiry t x \<longleftrightarrow> ses_access_expiry x \<le> Unix (t + refreshLeeway)"

text \<open>Refreshing the current session and storing it, as \<open>freshToken\<close> and \<open>refresh\<close> do.\<close>

definition renew :: "env \<Rightarrow> tokens \<Rightarrow> (gerr + string) act" where
  "renew v tk = do {
     t \<leftarrow> now v;
     modify (\<lambda>s. s\<lparr>cur_ses := applyTokens t tk (cur_ses s)\<rparr>);
     sid \<leftarrow> gets cur_sid;
     x \<leftarrow> gets cur_ses;
     on_ok (PutSession v sid x) (\<lambda>_. State_Monad.return (Inr (ses_access_token x))) }"

definition freshToken :: "env \<Rightarrow> (gerr + string) act" where
  "freshToken v = do {
     x \<leftarrow> gets cur_ses;
     stale \<leftarrow> (if ses_access_token x = [] then State_Monad.return True
               else do { t \<leftarrow> now v; State_Monad.return (near_expiry t x) });
     if \<not> stale then State_Monad.return (Inr (ses_access_token x))
     else on_ok (State_Monad.return (parse_key v x)) (\<lambda>key.
          on_ok (Refresh v key (ses_refresh_token x)) (\<lambda>tk. renew v tk)) }"

definition refresh_failed :: web_error where
  "refresh_failed = unauthorized ''session could not be refreshed''"

text \<open>\<open>onBehalf\<close>: the delegation, or nothing when the answer has been written.\<close>

definition onBehalf :: "env \<Rightarrow> on_behalf option act" where
  "onBehalf v = do {
     r \<leftarrow> freshToken v;
     case r of
       Inl e \<Rightarrow> do { ctx_error v refresh_failed; State_Monad.return None }
     | Inr token \<Rightarrow> do {
         x \<leftarrow> gets cur_ses;
         State_Monad.return (Some \<lparr>ob_sub = ses_subject x, ob_token = token\<rparr>) } }"

text \<open>The shape every composed handler has: \<open>obo, ok := r.onBehalf(ctx); if !ok { return }\<close>.\<close>

definition with_delegation :: "env \<Rightarrow> (on_behalf \<Rightarrow> unit act) \<Rightarrow> unit act" where
  "with_delegation v h = do {
     obo \<leftarrow> onBehalf v;
     case obo of None \<Rightarrow> skip | Some ob \<Rightarrow> h ob }"

text \<open>The readiness guards: a client that is not configured is answered 503.\<close>

definition not_configured :: "string \<Rightarrow> string \<Rightarrow> web_error" where
  "not_configured c detail = problem c 503 detail"

definition documentsReady :: "env \<Rightarrow> (service \<Rightarrow> unit act) \<Rightarrow> unit act" where
  "documentsReady v h = (case ap_documents (app v) of
     None \<Rightarrow> ctx_error v (not_configured ''err:document:notConfigured'' ''document composition not configured'')
   | Some c \<Rightarrow> h c)"

definition envelopeReady :: "env \<Rightarrow> (service \<Rightarrow> unit act) \<Rightarrow> unit act" where
  "envelopeReady v h = (case ap_envelope (app v) of
     None \<Rightarrow> ctx_error v (not_configured ''err:envelope:notConfigured'' ''envelope composition not configured'')
   | Some c \<Rightarrow> h c)"

definition signingReady :: "env \<Rightarrow> (service \<Rightarrow> unit act) \<Rightarrow> unit act" where
  "signingReady v h = (case ap_signflow (app v) of
     None \<Rightarrow> ctx_error v (not_configured ''err:signing:notConfigured'' ''signing composition not configured'')
   | Some c \<Rightarrow> h c)"

definition previewReady :: "env \<Rightarrow> (service \<Rightarrow> unit act) \<Rightarrow> unit act" where
  "previewReady v h = (case ap_preview (app v) of
     None \<Rightarrow> ctx_error v (not_configured ''err:preview:notConfigured'' ''preview not configured'')
   | Some c \<Rightarrow> h c)"

text \<open>\<open>if err != nil { r.relayErr(ctx, err); return }\<close>.\<close>

definition or_relay :: "env \<Rightarrow> (gerr + 'a) act \<Rightarrow> ('a \<Rightarrow> unit act) \<Rightarrow> unit act" where
  "or_relay v m h = do { r \<leftarrow> m; case r of Inl e \<Rightarrow> relayErr v e | Inr x \<Rightarrow> h x }"

section \<open>Landing the callback\<close>

definition exchangeFlow :: "env \<Rightarrow> pkey \<Rightarrow> string \<Rightarrow> flow \<Rightarrow> (gerr + tokens) act" where
  "exchangeFlow v key ac f =
     ask (EExchange key ac (fl_verifier f)
            \<lparr>tc_nonce = fl_nonce f, tc_acr_values = fl_acr_values f, tc_max_age = freshOnly,
             tc_started = fl_started f\<rparr>)
       (exchange_reply v)"

definition new_session :: "env \<Rightarrow> string \<Rightarrow> string \<Rightarrow> gotime \<Rightarrow> tokens \<Rightarrow> session" where
  "new_session v keyEnc csrf t tk = applyTokens t tk
     \<lparr>ses_key = keyEnc, ses_access_token = [], ses_access_expiry = 0,
      ses_refresh_token = tk_refresh tk, ses_subject = subject_from_token v (tk_access tk),
      ses_csrf = csrf, ses_capabilities = capabilitiesFromTokens tk\<rparr>"

definition establishSession :: "env \<Rightarrow> request \<Rightarrow> string \<Rightarrow> tokens \<Rightarrow> (gerr + unit) act" where
  "establishSession v q keyEnc tk =
     on_ok (RandomToken v 32) (\<lambda>sid.
     on_ok (RandomToken v 32) (\<lambda>csrf. do {
       t \<leftarrow> now v;
       on_ok (PutSession v sid (new_session v keyEnc csrf t tk)) (\<lambda>_. do {
         setSessionCookies q (cookie_name (cfg v)) sid csrf;
         State_Monad.return (Inr ()) }) }))"

definition opt_text :: "string option \<Rightarrow> string" where
  "opt_text x = (case x of Some s \<Rightarrow> s | None \<Rightarrow> [])"

definition finish_login :: "env \<Rightarrow> request \<Rightarrow> string \<Rightarrow> flow \<Rightarrow> unit act" where
  "finish_login v q ac f = (case lift_text (ParseKey (key_der v) (fl_key f)) of
     Inl e \<Rightarrow> redirectWithError v ''bad_state''
   | Inr key \<Rightarrow> do {
       r \<leftarrow> exchangeFlow v key ac f;
       case r of
         Inl e \<Rightarrow> redirectWithError v ''login_failed''
       | Inr tk \<Rightarrow> do {
           r \<leftarrow> establishSession v q (fl_key f) tk;
           case r of
             Inl e \<Rightarrow> fail v e
           | Inr _ \<Rightarrow> ctx_redirect (post_login_url (cfg v)) } })"

definition loginCallback :: "env \<Rightarrow> request \<Rightarrow> unit act" where
  "loginCallback v q =
     (if check_issuer v (opt_text (rq_query q ''iss'')) \<noteq> None
      then redirectWithError v ''login_failed''
      else if opt_text (rq_query q ''error'') \<noteq> []
      then redirectWithError v
             (if opt_text (rq_query q ''error'') = ''access_denied'' then ''cancelled'' else ''idp_error'')
      else if opt_text (rq_query q ''code'') = [] \<or> opt_text (rq_query q ''state'') = []
      then redirectWithError v ''missing_code''
      else if browserBinding q = [] then redirectWithError v ''expired''
      else do {
        r \<leftarrow> TakeFlow v (FlowKey (sha256 v) (opt_text (rq_query q ''state'')) (browserBinding q));
        case r of
          Inl e \<Rightarrow> redirectWithError v ''expired''
        | Inr f \<Rightarrow> finish_login v q (opt_text (rq_query q ''code'')) f })"

section \<open>The identity of the session\<close>

definition Identity :: "env \<Rightarrow> pkey \<Rightarrow> string \<Rightarrow> (gerr + identity option) act" where
  "Identity v key token = ask (EIdentity key token) (identity_reply v)"

text \<open>
  \<open>offeredOnly\<close>: the permitted flows the signing service runs, in the login's order; while
  nothing is known of the service they stay as they are.
\<close>

definition offered_only :: "string list option \<Rightarrow> string list option \<Rightarrow> string list option" where
  "offered_only off permitted = (case off of
     None \<Rightarrow> permitted
   | Some runs \<Rightarrow> Some (filter (\<lambda>f. f \<in> set runs)
       (case permitted of None \<Rightarrow> [] | Some fs \<Rightarrow> fs)))"

definition offeredOnly :: "env \<Rightarrow> string list option \<Rightarrow> string list option act" where
  "offeredOnly v permitted = (case ap_offered (app v) of
     None \<Rightarrow> State_Monad.return permitted
   | Some c \<Rightarrow> do {
       (off, err) \<leftarrow> offered_flows v c;
       State_Monad.return (offered_only off permitted) })"

definition enc_me_seal :: "seal \<Rightarrow> json" where
  "enc_me_seal s = JObj [(''id'', JStr (seal_id s)), (''label'', JStr (seal_label s))]"

text \<open>The seals of the answer: ids and labels, only when the login read the catalog.\<close>

definition seal_members :: "capabilities option \<Rightarrow> (string \<times> json) list" where
  "seal_members cs = (case cs of
     Some c \<Rightarrow> if cap_seals_known c
       then (''can_eseal'', JBool (cap_seals c \<noteq> [])) #
            (if cap_seals c = [] then [] else [(''seals'', JArr (map enc_me_seal (cap_seals c)))])
       else []
   | None \<Rightarrow> [])"

definition enc_me :: "identity \<Rightarrow> string list option \<Rightarrow> capabilities option \<Rightarrow> json" where
  "enc_me i permitted cs = JObj
     ([(''sub'', JStr (idn_subject i)), (''name'', JStr (idn_name i)), (''loa'', JStr (idn_loa i)),
       (''login_method'', JStr (idn_login_method i)),
       (''permitted_flows'', case permitted of None \<Rightarrow> JNull | Some fs \<Rightarrow> JArr (map JStr fs))]
      @ seal_members cs)"

definition me :: "env \<Rightarrow> unit act" where
  "me v = do {
     r \<leftarrow> freshToken v;
     case r of
       Inl e \<Rightarrow> ctx_error v refresh_failed
     | Inr token \<Rightarrow> do {
         x \<leftarrow> gets cur_ses;
         case parse_key v x of
           Inl e \<Rightarrow> fail v e
         | Inr key \<Rightarrow> do {
             r \<leftarrow> Identity v key token;
             case r of
               Inl e \<Rightarrow> ctx_error v (Problem ''err:upstream:unavailable'' (Some 502) None None None)
             | Inr None \<Rightarrow> ctx_error v Panic
             | Inr (Some i) \<Rightarrow> do {
                 permitted \<leftarrow> offeredOnly v (idn_permitted i);
                 x \<leftarrow> gets cur_ses;
                 ctx_json (enc_me i permitted (ses_capabilities x)) } } } }"

section \<open>Refresh and sign-out\<close>

definition ok_json :: json where "ok_json = JObj [(''ok'', JBool True)]"

definition refresh :: "env \<Rightarrow> unit act" where
  "refresh v = do {
     x \<leftarrow> gets cur_ses;
     case parse_key v x of
       Inl e \<Rightarrow> fail v e
     | Inr key \<Rightarrow> do {
         r \<leftarrow> Refresh v key (ses_refresh_token x);
         case r of
           Inl e \<Rightarrow> ctx_error v (unauthorized ''refresh rejected'')
         | Inr tk \<Rightarrow> do {
             r \<leftarrow> renew v tk;
             case r of Inl e \<Rightarrow> fail v e | Inr _ \<Rightarrow> ctx_json ok_json } } }"

definition logout_url :: "env \<Rightarrow> session \<Rightarrow> string" where
  "logout_url v x = (if LogoutRedirectURI (cfg v) = [] then []
     else browser_logout_url v (LogoutRedirectURI (cfg v))
       (case login_method_of v (ses_access_token x) of Inr m \<Rightarrow> m | Inl _ \<Rightarrow> []))"

definition revoke_session :: "env \<Rightarrow> session \<Rightarrow> unit act" where
  "revoke_session v x = (case parse_key v x of
     Inl e \<Rightarrow> skip
   | Inr key \<Rightarrow> if ses_refresh_token x = [] then skip
       else do { ask (ERevoke key (ses_refresh_token x)) (revoke_reply v); skip })"

definition enc_logout :: "string \<Rightarrow> json" where
  "enc_logout url = JObj ((''ok'', JBool True) #
     (if url = [] then [] else [(''logoutUrl'', JStr url)]))"

definition logout :: "env \<Rightarrow> request \<Rightarrow> unit act" where
  "logout v q = do {
     x \<leftarrow> gets cur_ses;
     revoke_session v x;
     sid \<leftarrow> gets cur_sid;
     (if sid \<noteq> [] then do { DeleteSession v sid; skip } else skip);
     clearSessionCookies q (cookie_name (cfg v));
     ctx_json (enc_logout (logout_url v x)) }"

section \<open>Ways to sign in, liveness, readiness\<close>

definition signInMethods :: "env \<Rightarrow> unit act" where
  "signInMethods v = do {
     (methods, err) \<leftarrow> offered_sign_in v;
     case methods of
       None \<Rightarrow> ctx_error v (Problem ''err:upstream:unavailable'' (Some 503)
         (Some ''The ways to sign in cannot be read right now'') None None)
     | Some ms \<Rightarrow> ctx_json (JObj [(''methods'', JArr (map JStr ms))]) }"

definition status_json :: "string \<Rightarrow> json" where
  "status_json x = JObj [(''status'', JStr x)]"

definition healthz :: "unit act" where
  "healthz = do { set_status 200; ctx_json (status_json ''ok'') }"

definition notReady :: "unit act" where
  "notReady = do { set_status 503; ctx_json (status_json ''not_ready'') }"

definition readyz :: "env \<Rightarrow> unit act" where
  "readyz v = do {
     r \<leftarrow> Ping v;
     case r of
       Inl e \<Rightarrow> notReady
     | Inr _ \<Rightarrow> do { set_status 200; ctx_json (status_json ''ready'') } }"

section \<open>What the handlers keep\<close>

lemma answers_only_trace: "answers_only m \<Longrightarrow> trace (final m s) = trace s"
  unfolding answers_only_def by (metis bff.select_convs(9) bff.surjective bff.update_convs(10))

lemma or_relay_trace:
  "(\<And>x. answers_only (h x)) \<Longrightarrow> trace (final (or_relay v m h) u) = trace (final m u)"
  by (simp add: or_relay_def final_bind answers_only_trace split: sum.split)

lemma doJSONOnBehalf_trace:
  "trace (final (doJSONOnBehalf v svc aud sc meth url obo b ct out) u) =
     (if ob_token obo = [] then trace u else
        EObo \<lparr>oc_timeout = None, oc_audience = aud, oc_scope = sc, oc_sub = ob_sub obo,
          oc_token = ob_token obo, oc_method = meth, oc_url = url, oc_content_type = ct,
          oc_body = b\<rparr> # trace u)"
  by (simp add: doJSONOnBehalf_def doOnBehalf_def on_ok_def world_final split: sum.split)

lemma subject_applyTokens [simp]: "ses_subject (applyTokens t tk x) = ses_subject x"
  by (simp add: applyTokens_def)

context session_invariant
begin

lemma PutSession_current:
  assumes "I s"
  shows "wp (PutSession v (cur_sid s) (cur_ses s)) (\<lambda>_. I) s"
  using assms keeps_store [of "s\<lparr>trace := EClock # trace s\<rparr>"]
  by (simp add: PutSession_def redis_PutSession_def mem_PutSession_def redis_def now_def wp_simps keeps_event
      keeps_redis_store)

lemma DeleteSession_current:
  assumes "I s"
  shows "wp (DeleteSession v (cur_sid s)) (\<lambda>_. I) s"
  using assms
  by (simp add: DeleteSession_def redis_DeleteSession_def mem_DeleteSession_def redis_def wp_simps
      keeps_event keeps_forget keeps_redis_forget)

lemma keeps_renew: "keeps I (renew v tk)"
proof -
  have "keeps I (modify (\<lambda>s. s\<lparr>cur_ses := applyTokens t tk (cur_ses s)\<rparr>))" for t
    by (rule keeps_modify) (simp add: applyTokens_def keeps_cur)
  moreover have "keeps I (do { sid \<leftarrow> gets cur_sid; x \<leftarrow> gets cur_ses;
      on_ok (PutSession v sid x) (\<lambda>_. State_Monad.return (Inr (ses_access_token x))) })"
    by (rule keepsI, simp add: on_ok_def wp_simps, rule wp_mono [OF PutSession_current])
       (auto simp: wp_simps split: sum.split)
  ultimately show ?thesis
    unfolding renew_def by (rule keeps_bind [OF keeps_primitives(1) keeps_bind])
qed

lemma keeps_forget_current:
  assumes "keeps I h"
  shows "keeps I (do { sid \<leftarrow> gets cur_sid;
    (if sid \<noteq> [] then do { DeleteSession v sid; skip } else skip); h })"
  by (rule keepsI, simp add: wp_simps keepsD [OF assms], intro impI, rule wp_mono [OF DeleteSession_current])
     (auto intro: keepsD [OF assms])

lemma keeps_freshToken: "keeps I (freshToken v)"
  by (auto simp: freshToken_def Refresh_def
      intro!: keeps_intros keeps_primitives keeps_ask keeps_renew)

lemma keeps_onBehalf: "keeps I (onBehalf v)"
  unfolding onBehalf_def
  by (intro keeps_bind keeps_freshToken keeps_case_sum keeps_primitives keeps_return keeps_gets)

lemma onBehalf_subject:
  assumes "I s"
  shows "wp (onBehalf v) (\<lambda>o1 t. I t \<and> (\<forall>obo. o1 = Some obo \<longrightarrow> ob_sub obo = sub)) s"
proof -
  have "wp (freshToken v) (\<lambda>_. I) s"
    using assms keeps_freshToken by (rule keepsD [rotated])
  then show ?thesis
    unfolding onBehalf_def wp_simps
    by (rule wp_mono) (auto simp: wp_simps keeps_rsp cur_subject split: sum.split)
qed

lemma keeps_with_delegation:
  assumes "\<And>obo. ob_sub obo = sub \<Longrightarrow> keeps I (h obo)"
  shows "keeps I (with_delegation v h)"
proof (rule keepsI)
  fix s assume "I s"
  then have "wp (onBehalf v) (\<lambda>o1 t. I t \<and> (\<forall>obo. o1 = Some obo \<longrightarrow> ob_sub obo = sub)) s"
    by (rule onBehalf_subject)
  then show "wp (with_delegation v h) (\<lambda>_. I) s"
    unfolding with_delegation_def wp_bind
    by (rule wp_mono) (auto simp: wp_simps assms intro: keepsD split: option.split)
qed

lemma keeps_ready:
  "(\<And>c. keeps I (h c)) \<Longrightarrow> keeps I (documentsReady v h)"
  "(\<And>c. keeps I (h c)) \<Longrightarrow> keeps I (envelopeReady v h)"
  "(\<And>c. keeps I (h c)) \<Longrightarrow> keeps I (signingReady v h)"
  "(\<And>c. keeps I (h c)) \<Longrightarrow> keeps I (previewReady v h)"
  by (auto simp: documentsReady_def envelopeReady_def signingReady_def previewReady_def
      intro!: keeps_case_option keeps_primitives)

lemma keeps_or_relay:
  "keeps I m \<Longrightarrow> (\<And>x. keeps I (h x)) \<Longrightarrow> keeps I (or_relay v m h)"
  unfolding or_relay_def by (intro keeps_bind keeps_case_sum keeps_primitives)

end

context handler_invariant
begin

lemma keeps_offeredOnly: "keeps I (offeredOnly v p)"
  by (auto simp: offeredOnly_def intro!: keeps_intros keeps_offered_flows)

lemma keeps_add_cookie: "okc c \<Longrightarrow> keeps I (add_cookie c)"
  by (auto simp: add_cookie_def keeps_cookie intro!: keeps_modify)

lemma keeps_logout:
  assumes "okc (expiring_cookie q (cookie_name (cfg v)))" "okc (expiring_cookie q csrfCookieName)"
  shows "keeps I (logout v q)"
proof -
  have "keeps I (revoke_session v x)" for x
    by (auto simp: revoke_session_def intro!: keeps_intros keeps_primitives keeps_ask)
  moreover have "keeps I (do { clearSessionCookies q (cookie_name (cfg v)); ctx_json j })" for j
    using assms by (auto simp: clearSessionCookies_def intro!: keeps_intros keeps_primitives keeps_add_cookie)
  ultimately show ?thesis
    unfolding logout_def by (rule keeps_bind [OF keeps_gets keeps_bind [OF _ keeps_forget_current]])
qed

lemma keeps_session_routes:
  "keeps I (me v)" "keeps I (refresh v)"
  by (auto simp: me_def refresh_def Identity_def Refresh_def
      intro!: keeps_intros keeps_freshToken keeps_primitives keeps_offeredOnly keeps_ask
        keeps_renew split: option.split)

end

section \<open>What the anonymous handlers keep\<close>

text \<open>
  The handlers in front of the session gate issue no call on anybody's behalf; they park and
  take flows, store sessions, remember the ways to sign in, and set the cookies \<open>okc\<close> admits.
\<close>

text \<open>Where a login return sends the browser: the app, with one of these markers when it failed.\<close>

definition markers :: "string list" where
  "markers = [''login_failed'', ''cancelled'', ''idp_error'', ''missing_code'', ''expired'', ''bad_state'']"

definition lands_home :: "env \<Rightarrow> string \<Rightarrow> bool" where
  "lands_home v u \<longleftrightarrow> u = post_login_url (cfg v) \<or>
     (\<exists>mk \<in> set markers. u = post_login_url (cfg v) @ ''?error='' @ mk)"

lemma markers_plain: "list_all (\<lambda>mk. query_escape mk = mk) markers"
  by code_simp

lemma markers_known:
  "''login_failed'' \<in> set markers" "''cancelled'' \<in> set markers" "''idp_error'' \<in> set markers"
  "''missing_code'' \<in> set markers" "''expired'' \<in> set markers" "''bad_state'' \<in> set markers"
  by (simp_all add: markers_def)

lemma redirectWithError_lands:
  assumes "mk \<in> set markers"
  shows "lands_home v (post_login_url (cfg v) @ ''?error='' @ query_escape mk)"
proof -
  have "query_escape mk = mk" using assms markers_plain by (simp add: list_all_iff)
  then show ?thesis using assms unfolding lands_home_def by (intro disjI2 bexI [of _ mk]) simp_all
qed

locale open_invariant = sign_in_invariant +
  fixes okc :: "cookie \<Rightarrow> bool"
  assumes open_cookie: "I s \<Longrightarrow> okc c \<Longrightarrow>
      I (s\<lparr>rsp := (rsp s)\<lparr>rsp_cookies := rsp_cookies (rsp s) @ [c]\<rparr>\<rparr>)"
    and open_flows: "I s \<Longrightarrow> I (s\<lparr>flows := m\<rparr>)"
    and open_redis_flows: "I s \<Longrightarrow> I (s\<lparr>trace := ERedis (RSet (flowKey k) b ttl) # trace s\<rparr>)"
      "I s \<Longrightarrow> I (s\<lparr>trace := ERedis (RGetDel (flowKey k)) # trace s\<rparr>)"
    and open_sign_in: "I s \<Longrightarrow> I (s\<lparr>sign_in := f\<rparr>)"
begin

lemma keeps_open_cookie: "okc c \<Longrightarrow> keeps I (add_cookie c)"
  by (auto simp: add_cookie_def open_cookie intro!: keeps_modify)

lemma keeps_open_redis: "keeps I (redis v (RSet (flowKey k) b ttl))" "keeps I (redis v (RGetDel (flowKey k)))"
  by (auto intro!: keepsI simp: redis_def wp_simps open_redis_flows)

lemma keeps_open_store:
  "keeps I (PutFlow v k f)" "keeps I (TakeFlow v k)" "keeps I (Ping v)"
  by (auto simp: PutFlow_def TakeFlow_def Ping_def redis_PutFlow_def mem_PutFlow_def
      redis_TakeFlow_def mem_TakeFlow_def redis_Ping_def mem_Ping_def open_flows
      intro!: keeps_intros keeps_open_redis keeps_primitives keeps_modify)

lemma keeps_loginStart:
  assumes "\<And>x. okc (new_cookie q signInCookieName x True (Some (flow_ttl (cfg v))))"
  shows "keeps I (loginStart v q)"
  using assms
  by (auto simp: loginStart_def park_flow_def GenerateKey_def PKCE_def bindBrowser_def
      case_prod_beta
      intro!: keeps_intros keeps_primitives keeps_ask_any keeps_open_store keeps_open_cookie)

lemma keeps_loginCallback:
  assumes "\<And>x. okc (new_cookie q (cookie_name (cfg v)) x True None)"
    and "\<And>x. okc (new_cookie q csrfCookieName x False None)"
    and "\<And>s m. I s \<Longrightarrow> I (s\<lparr>sessions := m\<rparr>)"
    and "\<And>u. lands_home v u \<Longrightarrow> lands u"
    and "\<And>s k b ttl. I s \<Longrightarrow> I (s\<lparr>trace := ERedis (RSet (sessKey k) b ttl) # trace s\<rparr>)"
  shows "keeps I (loginCallback v q)"
proof -
  have home: "keeps I (ctx_redirect (post_login_url (cfg v)))"
    by (rule keeps_redirect [OF assms(4)]) (simp add: lands_home_def)
  have away: "keeps I (redirectWithError v mk)" if "mk \<in> set markers" for mk
    by (rule keeps_redirectWithError [OF assms(4)]) (rule redirectWithError_lands [OF that])
  note redirects = home away markers_known
  have written: "keeps I (redis v (RSet (sessKey k) b ttl))" for k b ttl
    by (auto intro!: keepsI simp: redis_def wp_simps assms(5))
  have "keeps I (PutSession v sid x)" for sid x
    using assms(3) by (auto simp: PutSession_def redis_PutSession_def mem_PutSession_def
        intro!: keeps_intros written keeps_primitives(1) keeps_modify)
  then have "keeps I (establishSession v q k tk)" for k tk
    using assms(1,2) by (auto simp: establishSession_def setSessionCookies_def
        intro!: keeps_intros keeps_primitives keeps_open_store keeps_open_cookie)
  then have "keeps I (finish_login v q ac f)" for ac f
    by (auto simp: finish_login_def exchangeFlow_def
        intro!: keeps_intros keeps_primitives keeps_ask_any redirects)
  then show ?thesis
    by (auto simp: loginCallback_def intro!: keeps_if keeps_bind keeps_case_sum redirects
        keeps_open_store)
qed

lemma keeps_signInMethods: "keeps I (signInMethods v)"
proof -
  have "keeps I (modify (sign_in_update f))" for f
    by (rule keeps_modify) (metis (no_types, lifting) open_sign_in bff.surjective bff.update_convs(5))
  then show ?thesis
    by (auto simp: signInMethods_def offered_sign_in_def OfferedFlows_Get_def SignInMethods_Flows_def
        case_prod_beta intro!: keeps_intros keeps_ask_any keeps_primitives)
qed

lemma keeps_health: "keeps I healthz" "keeps I (readyz v)"
  by (auto simp: healthz_def readyz_def notReady_def
      intro!: keeps_intros keeps_primitives keeps_open_store)

end

end
