(* ===== verification/DocumentClient.thy ===== *)
theory DocumentClient
  imports Outbound
begin

text \<open>
  \<open>clients/document.go\<close> and \<open>clients/preview.go\<close>: the client of the document service and
  of the preview service, one definition per operation.  A client is the record \<open>service\<close>
  that its constructor builds (the address without its trailing slashes).
\<close>

section \<open>The document service\<close>

definition NewDocuments :: "string \<Rightarrow> string \<Rightarrow> service" where
  "NewDocuments baseURL audience = \<lparr>sv_base = trim_right slash baseURL, sv_audience = audience\<rparr>"

definition scopeDocRead :: string where "scopeDocRead = ''documents:read''"
definition scopeDocWrite :: string where "scopeDocWrite = ''documents:write''"

text \<open>The page parameters of a listing: \<open>limit\<close> when positive, \<open>after\<close> when not empty.\<close>

definition page_query :: "int \<Rightarrow> string \<Rightarrow> (string \<times> string) list" where
  "page_query limit after =
     (if limit > 0 then [(''limit'', itoa limit)] else []) @
     (if after \<noteq> [] then [(''after'', after)] else [])"

definition with_query :: "string \<Rightarrow> (string \<times> string) list \<Rightarrow> string" where
  "with_query u q = (if q = [] then u else u @ ''?'' @ values_encode q)"

definition doc_get :: "env \<Rightarrow> service \<Rightarrow> on_behalf \<Rightarrow> string \<Rightarrow> (payload \<Rightarrow> gerr + 'a) \<Rightarrow> (gerr + 'a) act" where
  "doc_get v c obo path out = doJSONOnBehalf v ''document'' (sv_audience c) scopeDocRead ''GET''
     (sv_base c @ path) obo no_body [] out"

definition doc_post :: "env \<Rightarrow> service \<Rightarrow> on_behalf \<Rightarrow> string \<Rightarrow> payload \<Rightarrow> string \<Rightarrow> (gerr + meta) act" where
  "doc_post v c obo path body contentType = doJSONOnBehalf v ''document'' (sv_audience c)
     scopeDocWrite ''POST'' (sv_base c @ path) obo body contentType (out_json dec_meta zero_meta)"

definition doc_delete :: "env \<Rightarrow> service \<Rightarrow> on_behalf \<Rightarrow> string \<Rightarrow> (gerr + unit) act" where
  "doc_delete v c obo path = doJSONOnBehalf v ''document'' (sv_audience c) scopeDocWrite ''DELETE''
     (sv_base c @ path) obo no_body [] out_none"

definition ListChains :: "env \<Rightarrow> service \<Rightarrow> on_behalf \<Rightarrow> int \<Rightarrow> string \<Rightarrow> (gerr + chain_list) act" where
  "ListChains v c obo limit after =
     doc_get v c obo (with_query ''/api/v1/documents'' ((''view'', ''chains'') # page_query limit after))
       (out_json (dec_chain_list (cal v)) zero_chain_list)"

definition GetChain :: "env \<Rightarrow> service \<Rightarrow> on_behalf \<Rightarrow> string \<Rightarrow> (gerr + chain_row) act" where
  "GetChain v c obo did = doc_get v c obo (''/api/v1/documents/'' @ path_escape did @ ''/chain'')
     (out_json (dec_chain_row (cal v)) zero_chain_row)"

definition ListHistory :: "env \<Rightarrow> service \<Rightarrow> on_behalf \<Rightarrow> int \<Rightarrow> string \<Rightarrow> (gerr + history_list) act" where
  "ListHistory v c obo limit after =
     doc_get v c obo (with_query ''/api/v1/history'' (page_query limit after))
       (out_json (dec_history_list (cal v)) zero_history_list)"

definition DeleteHistory :: "env \<Rightarrow> service \<Rightarrow> on_behalf \<Rightarrow> string \<Rightarrow> (gerr + unit) act" where
  "DeleteHistory v c obo chainRootID = doc_delete v c obo (''/api/v1/history/'' @ chainRootID)"

definition Upload :: "env \<Rightarrow> service \<Rightarrow> on_behalf \<Rightarrow> string \<Rightarrow> payload \<Rightarrow> (gerr + meta) act" where
  "Upload v c obo contentType body = doc_post v c obo ''/api/v1/documents'' body contentType"

definition enc_strings :: "string list option \<Rightarrow> json" where
  "enc_strings xs = (case xs of None \<Rightarrow> JNull | Some ys \<Rightarrow> JArr (map enc_str ys))"

definition Bundle :: "env \<Rightarrow> service \<Rightarrow> on_behalf \<Rightarrow> string list option \<Rightarrow> (gerr + meta) act" where
  "Bundle v c obo sourceIDs = doc_post v c obo ''/api/v1/documents/bundle''
     (Doc (JObj [(''sourceIds'', enc_strings sourceIDs)])) json_type"

definition Rebundle :: "env \<Rightarrow> service \<Rightarrow> on_behalf \<Rightarrow> string \<Rightarrow> bundle_entry list option \<Rightarrow> (gerr + meta) act" where
  "Rebundle v c obo did entries = doc_post v c obo (''/api/v1/documents/'' @ did @ ''/rebundle'')
     (Doc (JObj [(''entries'', case entries of None \<Rightarrow> JNull | Some es \<Rightarrow> JArr (map enc_bundle_entry es))]))
     json_type"

definition Documents_List :: "env \<Rightarrow> service \<Rightarrow> on_behalf \<Rightarrow> int \<Rightarrow> string \<Rightarrow> (gerr + doc_list) act" where
  "Documents_List v c obo limit after =
     doc_get v c obo (with_query ''/api/v1/documents'' (page_query limit after))
       (out_json (dec_doc_list (cal v)) zero_doc_list)"

definition Metadata :: "env \<Rightarrow> service \<Rightarrow> on_behalf \<Rightarrow> string \<Rightarrow> (gerr + meta) act" where
  "Metadata v c obo did = doc_get v c obo (''/api/v1/documents/'' @ did) (out_json dec_meta zero_meta)"

definition Content :: "env \<Rightarrow> service \<Rightarrow> on_behalf \<Rightarrow> string \<Rightarrow> (gerr + http_resp) act" where
  "Content v c obo did = doRawOnBehalf v ''document'' (sv_audience c) scopeDocRead
     (sv_base c @ ''/api/v1/documents/'' @ did @ ''/content'') obo"

definition ExtractObject :: "env \<Rightarrow> service \<Rightarrow> on_behalf \<Rightarrow> string \<Rightarrow> string \<Rightarrow> (gerr + http_resp) act" where
  "ExtractObject v c obo did name = doRawOnBehalf v ''document'' (sv_audience c) scopeDocRead
     (sv_base c @ ''/api/v1/documents/'' @ did @ ''/data-objects/'' @ path_escape name
        @ ''?conduit=review'') obo"

definition Delete :: "env \<Rightarrow> service \<Rightarrow> on_behalf \<Rightarrow> string \<Rightarrow> (gerr + unit) act" where
  "Delete v c obo did = doc_delete v c obo (''/api/v1/documents/'' @ did)"

lemmas document_client_defs = doc_get_def doc_post_def doc_delete_def ListChains_def GetChain_def
  ListHistory_def DeleteHistory_def Upload_def Bundle_def Rebundle_def Documents_List_def Metadata_def
  Content_def ExtractObject_def Delete_def

context call_invariant
begin

lemma keeps_document_client:
  assumes "ob_sub obo = sub"
  shows "keeps I (ListChains v c obo l a)" "keeps I (GetChain v c obo i)"
    "keeps I (ListHistory v c obo l a)" "keeps I (DeleteHistory v c obo i)"
    "keeps I (Upload v c obo ct b)" "keeps I (Bundle v c obo ids)" "keeps I (Rebundle v c obo i es)"
    "keeps I (Documents_List v c obo l a)" "keeps I (Metadata v c obo i)" "keeps I (Content v c obo i)"
    "keeps I (ExtractObject v c obo i n)" "keeps I (Delete v c obo i)"
  using assms by (simp_all add: document_client_defs keeps_outbound)

end

section \<open>The preview service\<close>

definition NewPreview :: "string \<Rightarrow> string \<Rightarrow> service" where
  "NewPreview baseURL audience = \<lparr>sv_base = trim_right slash baseURL, sv_audience = audience\<rparr>"

definition scopePreviewRead :: string where "scopePreviewRead = ''preview:read''"

definition preview_get :: "env \<Rightarrow> service \<Rightarrow> on_behalf \<Rightarrow> string \<Rightarrow> (gerr + http_resp) act" where
  "preview_get v c obo url =
     doRawOnBehalf v ''preview'' (sv_audience c) scopePreviewRead url obo"

definition preview_url :: "service \<Rightarrow> string \<Rightarrow> string" where
  "preview_url c did = sv_base c @ ''/api/v1/previews/'' @ did"

definition Manifest :: "env \<Rightarrow> service \<Rightarrow> on_behalf \<Rightarrow> string \<Rightarrow> (gerr + http_resp) act" where
  "Manifest v c obo did = preview_get v c obo (preview_url c did)"

definition Page :: "env \<Rightarrow> service \<Rightarrow> on_behalf \<Rightarrow> string \<Rightarrow> int \<Rightarrow> (gerr + http_resp) act" where
  "Page v c obo did n = preview_get v c obo (preview_url c did @ ''/pages/'' @ itoa n)"

definition PreviewText :: "env \<Rightarrow> service \<Rightarrow> on_behalf \<Rightarrow> string \<Rightarrow> (gerr + http_resp) act" where
  "PreviewText v c obo did = preview_get v c obo (preview_url c did @ ''/text'')"

definition inner_url :: "service \<Rightarrow> string \<Rightarrow> string \<Rightarrow> string" where
  "inner_url c did name = preview_url c did @ ''/data-objects/'' @ path_escape name"

definition InnerManifest :: "env \<Rightarrow> service \<Rightarrow> on_behalf \<Rightarrow> string \<Rightarrow> string \<Rightarrow> (gerr + http_resp) act" where
  "InnerManifest v c obo did name = preview_get v c obo (inner_url c did name)"

definition InnerPage :: "env \<Rightarrow> service \<Rightarrow> on_behalf \<Rightarrow> string \<Rightarrow> string \<Rightarrow> int \<Rightarrow> (gerr + http_resp) act" where
  "InnerPage v c obo did name n = preview_get v c obo (inner_url c did name @ ''/pages/'' @ itoa n)"

definition InnerText :: "env \<Rightarrow> service \<Rightarrow> on_behalf \<Rightarrow> string \<Rightarrow> string \<Rightarrow> (gerr + http_resp) act" where
  "InnerText v c obo did name = preview_get v c obo (inner_url c did name @ ''/text'')"

context call_invariant
begin

lemma keeps_preview_client:
  assumes "ob_sub obo = sub"
  shows "keeps I (Manifest v c obo i)" "keeps I (Page v c obo i n)" "keeps I (PreviewText v c obo i)"
    "keeps I (InnerManifest v c obo i nm)" "keeps I (InnerPage v c obo i nm n)"
    "keeps I (InnerText v c obo i nm)"
  using assms by (simp_all add: Manifest_def Page_def PreviewText_def InnerManifest_def
      InnerPage_def InnerText_def preview_get_def keeps_outbound)

end

section \<open>An inner file's name stays one path segment\<close>

text \<open>
  The receiver that cuts the path at its slashes and unescapes the segment gets the name back,
  whatever characters the name holds.
\<close>

lemma inner_url_segment:
  "slash \<notin> set (path_escape name)" "unescape False (path_escape name) = Some name"
  by (simp_all add: slash_def path_escape_no_separator unescape_path_escape)

end
