(* ===== verification/EnvelopeClient.thy ===== *)
theory EnvelopeClient
  imports Outbound
begin

text \<open>
  \<open>clients/envelope.go\<close>: the client of the envelope service, one definition per operation.
  Ids and cursors are put into the address as they are, except the document id of
  \<open>FindForDocument\<close>, which is escaped.
\<close>

definition NewEnvelope :: "string \<Rightarrow> string \<Rightarrow> service" where
  "NewEnvelope baseURL audience = \<lparr>sv_base = trim_right slash baseURL, sv_audience = audience\<rparr>"

definition scopeEnvRead :: string where "scopeEnvRead = ''envelopes:read''"
definition scopeEnvWrite :: string where "scopeEnvWrite = ''envelopes:write''"
definition scopeEnvTransition :: string where "scopeEnvTransition = ''envelopes:transition''"

definition env_get :: "env \<Rightarrow> service \<Rightarrow> on_behalf \<Rightarrow> string \<Rightarrow> (payload \<Rightarrow> gerr + 'a) \<Rightarrow> (gerr + 'a) act" where
  "env_get v c obo path out = doJSONOnBehalf v ''envelope'' (sv_audience c) scopeEnvRead ''GET''
     (sv_base c @ path) obo no_body [] out"

definition env_write :: "env \<Rightarrow> service \<Rightarrow> on_behalf \<Rightarrow> string \<Rightarrow> json \<Rightarrow> (payload \<Rightarrow> gerr + 'a) \<Rightarrow> (gerr + 'a) act" where
  "env_write v c obo path body out = doJSONOnBehalf v ''envelope'' (sv_audience c) scopeEnvWrite
     ''POST'' (sv_base c @ path) obo (Doc body) json_type out"

definition env_transition :: "env \<Rightarrow> service \<Rightarrow> on_behalf \<Rightarrow> string \<Rightarrow> json option
    \<Rightarrow> (payload \<Rightarrow> gerr + 'a) \<Rightarrow> (gerr + 'a) act" where
  "env_transition v c obo path body out = doJSONOnBehalf v ''envelope'' (sv_audience c)
     scopeEnvTransition ''POST'' (sv_base c @ path) obo
     (case body of None \<Rightarrow> no_body | Some j \<Rightarrow> Doc j) (case body of None \<Rightarrow> [] | Some j \<Rightarrow> json_type) out"

definition Create :: "env \<Rightarrow> service \<Rightarrow> on_behalf \<Rightarrow> create_input \<Rightarrow> (gerr + created) act" where
  "Create v c obo inp = env_write v c obo ''/api/v1/envelopes'' (enc_create_input inp)
     (out_json dec_created zero_created)"

definition cursor_query :: "int \<Rightarrow> string \<Rightarrow> string" where
  "cursor_query limit cursor =
     (let q = (if limit > 0 then [''limit='' @ itoa limit] else []) @
              (if cursor \<noteq> [] then [''cursor='' @ cursor] else [])
      in if q = [] then [] else ''?'' @ join ''&'' q)"

definition Envelope_List :: "env \<Rightarrow> service \<Rightarrow> on_behalf \<Rightarrow> int \<Rightarrow> string \<Rightarrow> (gerr + list_result) act" where
  "Envelope_List v c obo limit cursor =
     env_get v c obo (''/api/v1/envelopes'' @ cursor_query limit cursor)
       (out_json dec_list_result zero_list_result)"

definition FindForDocument :: "env \<Rightarrow> service \<Rightarrow> on_behalf \<Rightarrow> string \<Rightarrow> (gerr + list_result) act" where
  "FindForDocument v c obo documentID =
     env_get v c obo (''/api/v1/envelopes?documentId='' @ query_escape documentID)
       (out_json dec_list_result zero_list_result)"

definition SigningTasks :: "env \<Rightarrow> service \<Rightarrow> on_behalf \<Rightarrow> int \<Rightarrow> string
    \<Rightarrow> (gerr + signing_tasks_result) act" where
  "SigningTasks v c obo limit cursor =
     env_get v c obo (''/api/v1/signing-tasks'' @ cursor_query limit cursor)
       (out_json dec_signing_tasks_result zero_signing_tasks_result)"

definition envelope_path :: "string \<Rightarrow> string" where
  "envelope_path eid = ''/api/v1/envelopes/'' @ eid"

definition slot_path :: "string \<Rightarrow> string \<Rightarrow> string" where
  "slot_path eid slotID = envelope_path eid @ ''/slots/'' @ slotID"

definition Envelope_Get :: "env \<Rightarrow> service \<Rightarrow> on_behalf \<Rightarrow> string \<Rightarrow> (gerr + detail) act" where
  "Envelope_Get v c obo eid = env_get v c obo (envelope_path eid) (out_json dec_detail zero_detail)"

text \<open>Of the answer to an attachment the document id and hash are kept.\<close>

record attach_out =
  ao_envelope_id :: string
  ao_document_id :: string
  ao_content_hash :: string

definition zero_attach_out :: attach_out where
  "zero_attach_out = \<lparr>ao_envelope_id = [], ao_document_id = [], ao_content_hash = []\<rparr>"

definition dec_attach_out :: "json \<Rightarrow> attach_out \<Rightarrow> attach_out option" where
  "dec_attach_out = dec_struct [
     str_field ''envelopeId'' ao_envelope_id ao_envelope_id_update,
     str_field ''documentId'' ao_document_id ao_document_id_update,
     str_omit ''contentHash'' ao_content_hash ao_content_hash_update]"

definition AttachDocument :: "env \<Rightarrow> service \<Rightarrow> on_behalf \<Rightarrow> string \<Rightarrow> string \<Rightarrow> (gerr + doc_ref) act" where
  "AttachDocument v c obo eid documentID =
     on_ok (env_write v c obo (envelope_path eid @ ''/documents'')
              (JObj [(''documentId'', JStr documentID)]) (out_json dec_attach_out zero_attach_out))
       (\<lambda>out. State_Monad.return (Inr \<lparr>dr_document_id = ao_document_id out,
                 dr_content_hash = ao_content_hash out, dr_filename = []\<rparr>))"

record id_only =
  io_id :: string

definition zero_id_only :: id_only where "zero_id_only = \<lparr>io_id = []\<rparr>"

definition dec_id_only :: "json \<Rightarrow> id_only \<Rightarrow> id_only option" where
  "dec_id_only = dec_struct [str_field ''id'' io_id io_id_update]"

definition AddSlot :: "env \<Rightarrow> service \<Rightarrow> on_behalf \<Rightarrow> string \<Rightarrow> slot_input \<Rightarrow> (gerr + string) act" where
  "AddSlot v c obo eid inp =
     on_ok (env_write v c obo (envelope_path eid @ ''/slots'') (enc_slot_input inp)
              (out_json dec_id_only zero_id_only))
       (\<lambda>out. State_Monad.return (Inr (io_id out)))"

definition plain_transition :: "env \<Rightarrow> service \<Rightarrow> on_behalf \<Rightarrow> string \<Rightarrow> (gerr + transition) act" where
  "plain_transition v c obo path =
     env_transition v c obo path None (out_json dec_transition zero_transition)"

definition Send :: "env \<Rightarrow> service \<Rightarrow> on_behalf \<Rightarrow> string \<Rightarrow> (gerr + transition) act" where
  "Send v c obo eid = plain_transition v c obo (envelope_path eid @ ''/send'')"

definition Cancel :: "env \<Rightarrow> service \<Rightarrow> on_behalf \<Rightarrow> string \<Rightarrow> (gerr + transition) act" where
  "Cancel v c obo eid = plain_transition v c obo (envelope_path eid @ ''/cancel'')"

definition Reopen :: "env \<Rightarrow> service \<Rightarrow> on_behalf \<Rightarrow> string \<Rightarrow> (gerr + transition) act" where
  "Reopen v c obo eid = plain_transition v c obo (envelope_path eid @ ''/reopen'')"

definition DeclineSlot :: "env \<Rightarrow> service \<Rightarrow> on_behalf \<Rightarrow> string \<Rightarrow> string \<Rightarrow> (gerr + transition) act" where
  "DeclineSlot v c obo eid slotID = plain_transition v c obo (slot_path eid slotID @ ''/decline'')"

record eligible_only =
  eo_eligible :: bool

definition zero_eligible_only :: eligible_only where
  "zero_eligible_only = \<lparr>eo_eligible = False\<rparr>"

definition dec_eligible_only :: "json \<Rightarrow> eligible_only \<Rightarrow> eligible_only option" where
  "dec_eligible_only = dec_struct [bool_field ''eligible'' eo_eligible eo_eligible_update]"

definition SlotEligible :: "env \<Rightarrow> service \<Rightarrow> on_behalf \<Rightarrow> string \<Rightarrow> string \<Rightarrow> (gerr + bool) act" where
  "SlotEligible v c obo eid slotID =
     on_ok (env_get v c obo (slot_path eid slotID @ ''/eligible'')
              (out_json dec_eligible_only zero_eligible_only))
       (\<lambda>out. State_Monad.return (Inr (eo_eligible out)))"

definition SetSlotJob :: "env \<Rightarrow> service \<Rightarrow> on_behalf \<Rightarrow> string \<Rightarrow> string \<Rightarrow> string \<Rightarrow> (gerr + unit) act" where
  "SetSlotJob v c obo eid slotID jobID =
     env_transition v c obo (slot_path eid slotID @ ''/job'')
       (Some (JObj [(''jobId'', JStr jobID)])) out_none"

definition CaptureSignerName :: "env \<Rightarrow> service \<Rightarrow> on_behalf \<Rightarrow> string \<Rightarrow> string \<Rightarrow> string
    \<Rightarrow> (gerr + unit) act" where
  "CaptureSignerName v c obo eid slotID name =
     env_transition v c obo (slot_path eid slotID @ ''/name'')
       (Some (JObj [(''name'', JStr name)])) out_none"

lemmas envelope_client_defs = env_get_def env_write_def env_transition_def Create_def
  Envelope_List_def FindForDocument_def SigningTasks_def Envelope_Get_def AttachDocument_def
  AddSlot_def plain_transition_def Send_def Cancel_def Reopen_def DeclineSlot_def
  SlotEligible_def SetSlotJob_def CaptureSignerName_def

context call_invariant
begin

lemma keeps_envelope_client:
  assumes "ob_sub obo = sub"
  shows "keeps I (Create v c obo inp)" "keeps I (Envelope_List v c obo l a)"
    "keeps I (FindForDocument v c obo i)" "keeps I (SigningTasks v c obo l a)"
    "keeps I (Envelope_Get v c obo i)" "keeps I (AttachDocument v c obo i d)"
    "keeps I (AddSlot v c obo i si)" "keeps I (Send v c obo i)" "keeps I (Cancel v c obo i)"
    "keeps I (Reopen v c obo i)" "keeps I (DeclineSlot v c obo i j)"
    "keeps I (SlotEligible v c obo i j)" "keeps I (SetSlotJob v c obo i j k)"
    "keeps I (CaptureSignerName v c obo i j n)"
  using assms
  by (auto simp: envelope_client_defs intro!: keeps_outbound keeps_on_ok keeps_return)

end

section \<open>The signing tasks and listing queries\<close>

lemma cursor_query_first [simp]: "cursor_query 0 [] = []"
  by (simp add: cursor_query_def)

end
