(* ===== verification/Dashboard.thy ===== *)
theory Dashboard
  imports SessionRoutes DocumentClient EnvelopeClient
begin

text \<open>
  \<open>routes/dashboard.go\<close>: the composed library view, one row per document chain.  The
  composition is four pure functions over the three listings; the theorems are about those.
\<close>

section \<open>Which envelope acted last\<close>

definition actedLater :: "summary \<Rightarrow> summary \<Rightarrow> bool" where
  "actedLater a b = (if sm_updated_at a \<noteq> sm_updated_at b then sm_updated_at b < sm_updated_at a
                     else sm_id b < sm_id a)"

definition claim_doc :: "summary \<Rightarrow> string \<Rightarrow> (string \<rightharpoonup> summary) \<Rightarrow> (string \<rightharpoonup> summary)" where
  "claim_doc e doc m = (case m doc of
     Some cur \<Rightarrow> if actedLater e cur then m(doc \<mapsto> e) else m
   | None \<Rightarrow> m(doc \<mapsto> e))"

definition claim_docs :: "summary \<Rightarrow> (string \<rightharpoonup> summary) \<Rightarrow> (string \<rightharpoonup> summary)" where
  "claim_docs e m = fold (claim_doc e) (sm_doc_ids e) m"

definition home :: "summary list \<Rightarrow> (string \<rightharpoonup> summary)" where
  "home envs = fold claim_docs envs Map.empty"

definition all_docs :: "summary list \<Rightarrow> string list" where
  "all_docs envs = concat (map sm_doc_ids envs)"

definition kept_ids :: "summary list \<Rightarrow> string list" where
  "kept_ids envs = (let h = home envs in
     concat (map (\<lambda>doc. case h doc of Some e \<Rightarrow> [sm_id e] | None \<Rightarrow> []) (all_docs envs)))"

definition latestPerChain :: "summary list \<Rightarrow> summary list" where
  "latestPerChain envs = (let keep = kept_ids envs in
     filter (\<lambda>e. sm_doc_ids e = [] \<or> sm_id e \<in> set keep) envs)"

section \<open>Rows whose storage is gone\<close>

definition live_ids :: "chain_row list \<Rightarrow> string list" where
  "live_ids chs = filter (\<lambda>i. i \<noteq> []) (concat (map (\<lambda>c. [ch_root c, ch_id c]) chs))"

definition terminal :: "string \<Rightarrow> bool" where
  "terminal st \<longleftrightarrow> st \<in> {''completed'', ''declined'', ''cancelled'', ''expired''}"

definition withoutDestroyedChains :: "summary list \<Rightarrow> chain_row list \<Rightarrow> summary list" where
  "withoutDestroyedChains envs chs =
     (if envs = [] \<or> chs = [] then envs
      else let lv = live_ids chs in
        filter (\<lambda>e. \<not> (terminal (sm_status e) \<and> sm_doc_ids e \<noteq> [] \<and>
                       \<not> list_ex (\<lambda>doc. doc \<in> set lv) (sm_doc_ids e))) envs)"

section \<open>Retention\<close>

definition note_until :: "gotime \<Rightarrow> string \<Rightarrow> (string \<rightharpoonup> gotime) \<Rightarrow> (string \<rightharpoonup> gotime)" where
  "note_until t i m = (if i = [] then m else
     case m i of None \<Rightarrow> m(i \<mapsto> t) | Some cur \<Rightarrow> if t < cur then m(i \<mapsto> t) else m)"

definition note_chain :: "chain_row \<Rightarrow> (string \<rightharpoonup> gotime) \<Rightarrow> (string \<rightharpoonup> gotime)" where
  "note_chain c m = (if ch_retention_until c = 0 then m
     else note_until (ch_retention_until c) (ch_id c)
            (note_until (ch_retention_until c) (ch_root c) m))"

definition until_map :: "chain_row list \<Rightarrow> (string \<rightharpoonup> gotime)" where
  "until_map chs = fold note_chain chs Map.empty"

definition soonest_step :: "(string \<rightharpoonup> gotime) \<Rightarrow> string \<Rightarrow> gotime \<Rightarrow> gotime" where
  "soonest_step m doc best = (case m doc of None \<Rightarrow> best
     | Some t \<Rightarrow> if best = 0 \<or> t < best then t else best)"

definition soonest :: "(string \<rightharpoonup> gotime) \<Rightarrow> string list \<Rightarrow> gotime" where
  "soonest m docs = fold (soonest_step m) docs 0"

definition stamp :: "(gotime \<Rightarrow> string) \<Rightarrow> (string \<rightharpoonup> gotime) \<Rightarrow> summary \<Rightarrow> summary" where
  "stamp fmt m e = (let t = soonest m (sm_doc_ids e) in
     if t \<noteq> 0 then e\<lparr>sm_retention_until := fmt t\<rparr> else e)"

definition withRetention :: "(gotime \<Rightarrow> string) \<Rightarrow> summary list \<Rightarrow> chain_row list \<Rightarrow> summary list" where
  "withRetention fmt envs chs =
     (if envs = [] \<or> chs = [] then envs else map (stamp fmt (until_map chs)) envs)"

section \<open>The composed view\<close>

record dashboard_rows =
  db_tasks :: "signing_task list"
  db_envelopes :: "summary list"
  db_chains :: "chain_row list"

definition covered_ids :: "summary list \<Rightarrow> signing_task list \<Rightarrow> string list" where
  "covered_ids envs tasks = all_docs envs @ all_docs (map st_envelope tasks)"

definition standalone :: "summary list \<Rightarrow> signing_task list \<Rightarrow> chain_row list \<Rightarrow> chain_row list" where
  "standalone envs tasks chs = (let cov = covered_ids envs tasks in
     filter (\<lambda>c. \<not> (ch_root c \<in> set cov \<or> ch_id c \<in> set cov)) chs)"

definition compose :: "(gotime \<Rightarrow> string) \<Rightarrow> signing_task list \<Rightarrow> summary list
    \<Rightarrow> chain_row list \<Rightarrow> dashboard_rows" where
  "compose fmt tasks envs chs = \<lparr>db_tasks = tasks,
     db_envelopes = withRetention fmt (latestPerChain (withoutDestroyedChains envs chs)) chs,
     db_chains = standalone envs tasks chs\<rparr>"

definition nil_list :: "'a list option \<Rightarrow> 'a list" where
  "nil_list xs = (case xs of None \<Rightarrow> [] | Some ys \<Rightarrow> ys)"

definition enc_dashboard :: "calendar \<Rightarrow> dashboard_rows \<Rightarrow> json" where
  "enc_dashboard c d = JObj [
     (''tasks'', JArr (map enc_signing_task (db_tasks d))),
     (''envelopes'', JArr (map enc_summary (db_envelopes d))),
     (''chains'', JArr (map (enc_chain_row c) (db_chains d)))]"

definition dashboard :: "env \<Rightarrow> unit act" where
  "dashboard v =
     documentsReady v (\<lambda>docs. envelopeReady v (\<lambda>envc. with_delegation v (\<lambda>obo.
       or_relay v (SigningTasks v envc obo 0 []) (\<lambda>tasks.
       or_relay v (Envelope_List v envc obo 0 []) (\<lambda>envs.
       or_relay v (ListChains v docs obo 0 []) (\<lambda>chs.
         ctx_json (enc_dashboard (cal v)
           (compose (rfc3339 v) (nil_list (str_tasks tasks)) (nil_list (lr_envelopes envs))
              (nil_list (cl_chains chs))))))))))"

context handler_invariant
begin

lemma keeps_dashboard: "keeps I (dashboard v)"
  by (auto simp: dashboard_def
      intro!: keeps_ready keeps_with_delegation keeps_or_relay keeps_envelope_client
        keeps_document_client keeps_primitives)

end

section \<open>The order of acts\<close>

text \<open>
  \<open>actedLater\<close> compares the pair of the last mutation and the id: these pairs are linearly
  ordered, so which envelope a document's row shows never depends on the order of the listing.
\<close>

datatype acted = Acted string string

instantiation acted :: linorder
begin

definition less_acted :: "acted \<Rightarrow> acted \<Rightarrow> bool" where
  "less_acted a b = (case a of Acted t i \<Rightarrow> case b of Acted u j \<Rightarrow> t < u \<or> t = u \<and> i < j)"

definition less_eq_acted :: "acted \<Rightarrow> acted \<Rightarrow> bool" where
  "less_eq_acted a b \<longleftrightarrow> a = b \<or> less a b"

instance
  by standard (auto simp: less_acted_def less_eq_acted_def split: acted.splits)

end

definition acted_at :: "summary \<Rightarrow> acted" where
  "acted_at e = Acted (sm_updated_at e) (sm_id e)"

lemma actedLater_less: "actedLater a b \<longleftrightarrow> acted_at b < acted_at a"
  by (simp add: actedLater_def acted_at_def less_acted_def)

lemma acted_at_eq: "acted_at a = acted_at b \<longleftrightarrow> sm_updated_at a = sm_updated_at b \<and> sm_id a = sm_id b"
  by (simp add: acted_at_def)

section \<open>The home of a document\<close>

text \<open>\<open>claims m es\<close>: \<open>m\<close> is the home map of the envelopes \<open>es\<close>.\<close>

definition is_home :: "(summary \<times> string) set \<Rightarrow> (string \<rightharpoonup> summary) \<Rightarrow> bool" where
  "is_home S m \<longleftrightarrow>
     (\<forall>doc e. m doc = Some e \<longrightarrow> (e, doc) \<in> S) \<and>
     (\<forall>(e, doc) \<in> S. \<exists>h. m doc = Some h \<and> acted_at e \<le> acted_at h)"

lemma is_home_claim:
  assumes "is_home S m"
  shows "is_home (insert (e, doc) S) (claim_doc e doc m)"
proof (cases "m doc")
  case None
  then show ?thesis using assms by (auto simp: is_home_def claim_doc_def split: prod.splits)
next
  case (Some cur)
  then show ?thesis using assms
    by (fastforce simp: is_home_def claim_doc_def actedLater_less split: prod.splits)
qed

lemma is_home_claim_docs:
  "is_home S m \<Longrightarrow> is_home (S \<union> {e} \<times> set docs) (fold (claim_doc e) docs m)"
proof (induction docs arbitrary: S m)
  case (Cons d docs)
  have "S \<union> {e} \<times> set (d # docs) = insert (e, d) S \<union> {e} \<times> set docs" by auto
  then show ?case using Cons.IH [OF is_home_claim [OF Cons.prems]] by simp
qed simp

lemma is_home_fold:
  "is_home S m \<Longrightarrow> is_home (S \<union> {(e, d). e \<in> set envs \<and> d \<in> set (sm_doc_ids e)}) (fold claim_docs envs m)"
proof (induction envs arbitrary: S m)
  case (Cons e envs)
  have "S \<union> {(x, d). x \<in> set (e # envs) \<and> d \<in> set (sm_doc_ids x)}
      = (S \<union> {e} \<times> set (sm_doc_ids e)) \<union> {(x, d). x \<in> set envs \<and> d \<in> set (sm_doc_ids x)}" by auto
  then show ?case
    using Cons.IH [of "S \<union> {e} \<times> set (sm_doc_ids e)"] is_home_claim_docs [OF Cons.prems]
    by (simp add: claim_docs_def)
qed simp

lemma is_home_home: "is_home {(e, d). e \<in> set envs \<and> d \<in> set (sm_doc_ids e)} (home envs)"
  using is_home_fold [of "{}" Map.empty envs] by (simp add: home_def is_home_def)

lemma home_some: "home envs doc = Some e \<Longrightarrow> e \<in> set envs \<and> doc \<in> set (sm_doc_ids e)"
  using is_home_home [of envs] by (auto simp: is_home_def)

lemma home_latest:
  assumes "e \<in> set envs" "doc \<in> set (sm_doc_ids e)"
  obtains h where "home envs doc = Some h" "acted_at e \<le> acted_at h"
  using is_home_home [of envs] assms by (fastforce simp: is_home_def)

text \<open>The home of a document is the listed envelope over it that acted last.\<close>

lemma home_is_max:
  assumes "home envs doc = Some h"
  shows "acted_at h = Max (acted_at ` {e \<in> set envs. doc \<in> set (sm_doc_ids e)})"
proof -
  have "acted_at e \<le> acted_at h" if "e \<in> set envs" "doc \<in> set (sm_doc_ids e)" for e
    using home_latest [OF that] assms by fastforce
  then show ?thesis using home_some [OF assms] by (intro Max_eqI [symmetric]) auto
qed

lemma in_all_docs: "doc \<in> set (all_docs envs) \<longleftrightarrow> (\<exists>e \<in> set envs. doc \<in> set (sm_doc_ids e))"
  by (auto simp: all_docs_def)

lemma in_kept_ids: "i \<in> set (kept_ids envs) \<longleftrightarrow> (\<exists>doc e. home envs doc = Some e \<and> sm_id e = i)"
proof
  assume "i \<in> set (kept_ids envs)"
  then show "\<exists>doc e. home envs doc = Some e \<and> sm_id e = i"
    by (auto simp: kept_ids_def Let_def split: option.splits) metis
next
  assume "\<exists>doc e. home envs doc = Some e \<and> sm_id e = i"
  then obtain doc e where h: "home envs doc = Some e" "sm_id e = i" by blast
  then have "doc \<in> set (all_docs envs)" using home_some [OF h(1)] by (auto simp: in_all_docs)
  then show "i \<in> set (kept_ids envs)"
    using h by (auto simp: kept_ids_def Let_def intro!: bexI [of _ doc])
qed

lemma home_kept: "home envs doc = Some h \<Longrightarrow> h \<in> set (latestPerChain envs)"
  using home_some [of envs doc h] by (auto simp: latestPerChain_def Let_def in_kept_ids)

section \<open>Retention bounds\<close>

lemma until_map_some:
  assumes "until_map chs i = Some t"
  shows "i \<noteq> [] \<and> t \<noteq> 0 \<and> (\<exists>c \<in> set chs. ch_retention_until c = t \<and> i \<in> {ch_root c, ch_id c})"
proof -
  have "fold note_chain cs m i = Some t \<Longrightarrow>
      (\<And>i t. m i = Some t \<Longrightarrow> i \<noteq> [] \<and> t \<noteq> 0 \<and> P i t) \<Longrightarrow>
      (\<And>c. c \<in> set cs \<Longrightarrow> P (ch_root c) (ch_retention_until c) \<and> P (ch_id c) (ch_retention_until c)) \<Longrightarrow>
      i \<noteq> [] \<and> t \<noteq> 0 \<and> P i t" for cs m and P :: "string \<Rightarrow> gotime \<Rightarrow> bool"
  proof (induction cs arbitrary: m)
    case (Cons c cs)
    show ?case
      by (rule Cons.IH [of "note_chain c m"])
         (use Cons.prems in \<open>auto simp: note_chain_def note_until_def split: if_splits option.splits\<close>)
  qed simp
  from this [of chs Map.empty "\<lambda>i t. \<exists>c \<in> set chs. ch_retention_until c = t \<and> i \<in> {ch_root c, ch_id c}"]
  show ?thesis using assms by (auto simp: until_map_def)
qed

lemma note_until_le:
  "i \<noteq> [] \<Longrightarrow> \<exists>u. note_until t i m i = Some u \<and> u \<le> t"
  "m j = Some u \<Longrightarrow> \<exists>w. note_until t i m j = Some w \<and> w \<le> u"
  by (auto simp: note_until_def split: option.split)

lemma note_chain_le:
  assumes "m j = Some u"
  shows "\<exists>w. note_chain c m j = Some w \<and> w \<le> u"
proof -
  let ?t = "ch_retention_until c"
  obtain w1 where w1: "note_until ?t (ch_root c) m j = Some w1" "w1 \<le> u"
    using note_until_le(2) [where m = m and j = j and u = u] assms by blast
  obtain w2 where "note_until ?t (ch_id c) (note_until ?t (ch_root c) m) j = Some w2" "w2 \<le> w1"
    using note_until_le(2) [where m = "note_until ?t (ch_root c) m" and j = j, OF w1(1)] by blast
  then show ?thesis using assms w1(2) by (auto simp: note_chain_def)
qed

lemma note_chain_hit:
  assumes "ch_retention_until c \<noteq> 0" "i \<in> {ch_root c, ch_id c}" "i \<noteq> []"
  shows "\<exists>u. note_chain c m i = Some u \<and> u \<le> ch_retention_until c"
proof (cases "i = ch_id c")
  case True
  then show ?thesis using assms note_until_le(1) by (auto simp: note_chain_def)
next
  case False
  let ?t = "ch_retention_until c"
  obtain u where u: "note_until ?t (ch_root c) m i = Some u" "u \<le> ?t"
    using False assms note_until_le(1) by blast
  obtain w where "note_until ?t (ch_id c) (note_until ?t (ch_root c) m) i = Some w" "w \<le> u"
    using note_until_le(2) [where m = "note_until ?t (ch_root c) m" and j = i, OF u(1)] by blast
  then show ?thesis using assms u(2) by (auto simp: note_chain_def)
qed

lemma fold_note_le: "m j = Some u \<Longrightarrow> \<exists>w. fold note_chain cs m j = Some w \<and> w \<le> u"
proof (induction cs arbitrary: m u)
  case (Cons c cs)
  obtain w where w: "note_chain c m j = Some w" "w \<le> u"
    using note_chain_le [where m = m and j = j, OF Cons.prems] by blast
  obtain w' where "fold note_chain cs (note_chain c m) j = Some w'" "w' \<le> w"
    using Cons.IH [of "note_chain c m" w] w(1) by blast
  then show ?case using w(2) by auto
qed simp

lemma until_map_le:
  assumes "c \<in> set chs" "ch_retention_until c \<noteq> 0" "i \<in> {ch_root c, ch_id c}" "i \<noteq> []"
  shows "\<exists>u. until_map chs i = Some u \<and> u \<le> ch_retention_until c"
proof -
  obtain xs ys where split: "chs = xs @ c # ys" using assms(1) by (meson split_list)
  let ?m = "fold note_chain xs Map.empty"
  obtain u where u: "note_chain c ?m i = Some u" "u \<le> ch_retention_until c"
    using note_chain_hit [OF assms(2-4)] by blast
  obtain w where "fold note_chain ys (note_chain c ?m) i = Some w" "w \<le> u"
    using fold_note_le [where m = "note_chain c ?m" and j = i, OF u(1)] by blast
  then show ?thesis using u(2) by (auto simp: until_map_def split)
qed

lemma soonest_le_start:
  assumes "\<And>d t. m d = Some t \<Longrightarrow> t \<noteq> (0 :: gotime)" "best \<noteq> 0"
  shows "fold (soonest_step m) docs best \<noteq> 0 \<and> fold (soonest_step m) docs best \<le> best"
  using assms(2)
proof (induction docs arbitrary: best)
  case (Cons d docs)
  have "soonest_step m d best \<noteq> 0 \<and> soonest_step m d best \<le> best"
    using Cons.prems assms(1) by (auto simp: soonest_step_def split: option.split)
  then show ?case using Cons.IH [of "soonest_step m d best"] by auto
qed simp

lemma soonest_le_doc:
  assumes "\<And>d t. m d = Some t \<Longrightarrow> t \<noteq> (0 :: gotime)" "d \<in> set docs" "m d = Some t"
  shows "fold (soonest_step m) docs best \<noteq> 0 \<and> fold (soonest_step m) docs best \<le> t"
  using assms(2)
proof (induction docs arbitrary: best)
  case (Cons x docs)
  show ?case
  proof (cases "x = d")
    case True
    have "soonest_step m d best \<noteq> 0 \<and> soonest_step m d best \<le> t"
      using assms(1,3) by (auto simp: soonest_step_def)
    then show ?thesis
      using soonest_le_start [of m "soonest_step m d best" docs] assms(1) True by auto
  next
    case False
    then show ?thesis using Cons by auto
  qed
qed simp

lemma soonest_among:
  "fold (soonest_step m) docs best = best \<or> (\<exists>d \<in> set docs. m d = Some (fold (soonest_step m) docs best))"
proof (induction docs arbitrary: best)
  case (Cons x docs)
  show ?case using Cons.IH [of "soonest_step m x best"]
    by (cases "m x") (auto simp: soonest_step_def split: if_splits)
qed simp

lemma soonest_bounds:
  assumes "soonest (until_map chs) docs = t"
  shows "t \<noteq> 0 \<Longrightarrow> (\<exists>d \<in> set docs. until_map chs d = Some t)"
    and "d \<in> set docs \<Longrightarrow> until_map chs d = Some u \<Longrightarrow> t \<noteq> 0 \<and> t \<le> u"
proof -
  show "t \<noteq> 0 \<Longrightarrow> (\<exists>d \<in> set docs. until_map chs d = Some t)"
    using soonest_among [of "until_map chs" docs 0] assms by (auto simp: soonest_def)
  show "d \<in> set docs \<Longrightarrow> until_map chs d = Some u \<Longrightarrow> t \<noteq> 0 \<and> t \<le> u"
    using soonest_le_doc [of "until_map chs" d docs u 0] until_map_some assms
    by (auto simp: soonest_def)
qed

end
