(* ===== verification/SignflowClient.thy ===== *)
theory SignflowClient
  imports Outbound
begin

text \<open>
  \<open>clients/signflow.go\<close>: the client of the signing orchestrator, one definition per
  operation.  Starting a signing, its status, archiving and validating run under the slow
  timeout.
\<close>

definition NewSignflow :: "string \<Rightarrow> string \<Rightarrow> service" where
  "NewSignflow baseURL audience = \<lparr>sv_base = trim_right slash baseURL, sv_audience = audience\<rparr>"

definition scopeSigCreate :: string where "scopeSigCreate = ''signatures:create''"
definition scopeSigRead :: string where "scopeSigRead = ''signatures:read''"
definition scopeSigWrite :: string where "scopeSigWrite = ''signatures:write''"

definition sig_slow_post :: "env \<Rightarrow> service \<Rightarrow> on_behalf \<Rightarrow> string \<Rightarrow> string \<Rightarrow> json
    \<Rightarrow> (payload \<Rightarrow> gerr + 'a) \<Rightarrow> (gerr + 'a) act" where
  "sig_slow_post v c obo sc path body out = doJSONOnBehalfSlow v ''signflow'' (sv_audience c) sc
     ''POST'' (sv_base c @ path) obo (Doc body) json_type out"

definition BeginSigning :: "env \<Rightarrow> service \<Rightarrow> on_behalf \<Rightarrow> begin_input \<Rightarrow> (gerr + job) act" where
  "BeginSigning v c obo inp = sig_slow_post v c obo scopeSigCreate ''/api/v1/signings''
     (enc_begin_input inp) (out_json dec_job zero_job)"

definition signing_path :: "string \<Rightarrow> string" where
  "signing_path jobID = ''/api/v1/signings/'' @ jobID"

definition Status :: "env \<Rightarrow> service \<Rightarrow> on_behalf \<Rightarrow> string \<Rightarrow> int \<Rightarrow> (gerr + job) act" where
  "Status v c obo jobID wait = doJSONOnBehalfSlow v ''signflow'' (sv_audience c) scopeSigRead ''GET''
     (sv_base c @ signing_path jobID @ ''/status'' @ (if wait > 0 then ''?wait='' @ itoa wait else []))
     obo no_body [] (out_json dec_job zero_job)"

definition Abandon :: "env \<Rightarrow> service \<Rightarrow> on_behalf \<Rightarrow> string \<Rightarrow> (gerr + unit) act" where
  "Abandon v c obo jobID = doJSONOnBehalf v ''signflow'' (sv_audience c) scopeSigWrite ''POST''
     (sv_base c @ signing_path jobID @ ''/abandon'') obo no_body [] out_none"

record free_only =
  fo_free :: bool

definition zero_free_only :: free_only where "zero_free_only = \<lparr>fo_free = False\<rparr>"

definition dec_free_only :: "json \<Rightarrow> free_only \<Rightarrow> free_only option" where
  "dec_free_only = dec_struct [bool_field ''free'' fo_free fo_free_update]"

definition ChainFree_url :: "service \<Rightarrow> string \<Rightarrow> int \<Rightarrow> string" where
  "ChainFree_url c envelopeID wait = sv_base c @ ''/api/v1/chain-free?envelopeId='' @ envelopeID
     @ (if wait > 0 then ''&wait='' @ itoa wait else [])"

definition ChainFree :: "env \<Rightarrow> service \<Rightarrow> on_behalf \<Rightarrow> string \<Rightarrow> int \<Rightarrow> (gerr + bool) act" where
  "ChainFree v c obo envelopeID wait =
     on_ok (doJSONOnBehalf v ''signflow'' (sv_audience c) scopeSigRead ''GET''
              (ChainFree_url c envelopeID wait) obo no_body [] (out_json dec_free_only zero_free_only))
       (\<lambda>out. State_Monad.return (Inr (fo_free out)))"

definition SubmitClientSignature :: "env \<Rightarrow> service \<Rightarrow> on_behalf \<Rightarrow> string
    \<Rightarrow> client_signature list \<Rightarrow> (gerr + job) act" where
  "SubmitClientSignature v c obo jobID sigs =
     doJSONOnBehalf v ''signflow'' (sv_audience c) scopeSigWrite ''POST''
       (sv_base c @ signing_path jobID @ ''/client-signature'') obo
       (Doc (JObj [(''signatures'', JArr (map enc_client_signature sigs))])) json_type
       (out_json dec_job zero_job)"

definition ArchiveTimestamp :: "env \<Rightarrow> service \<Rightarrow> on_behalf \<Rightarrow> string \<Rightarrow> string
    \<Rightarrow> (gerr + archived_document) act" where
  "ArchiveTimestamp v c obo documentID authCert =
     sig_slow_post v c obo scopeSigWrite ''/api/v1/archive-timestamps''
       (JObj ((''documentId'', JStr documentID) #
          (if authCert = [] then [] else [(''authCertificate'', JStr authCert)])))
       (out_json dec_archived_document zero_archived_document)"

text \<open>The validation answer is decoded by its library.\<close>

definition zero_validation :: validation where
  "zero_validation = \<lparr>val_verdict = [], val_validated_at = [], val_rest = JNull\<rparr>"

definition out_validation :: "env \<Rightarrow> payload \<Rightarrow> gerr + validation" where
  "out_validation v = out_json (\<lambda>j z. dec_validation v j) zero_validation"

definition ValidateDocument :: "env \<Rightarrow> service \<Rightarrow> on_behalf \<Rightarrow> string \<Rightarrow> (gerr + validation) act" where
  "ValidateDocument v c obo documentID =
     sig_slow_post v c obo scopeSigRead ''/api/v1/document-validations''
       (JObj [(''documentId'', JStr documentID)]) (out_validation v)"

definition Validate_signature :: "env \<Rightarrow> service \<Rightarrow> on_behalf \<Rightarrow> string \<Rightarrow> (gerr + validation) act" where
  "Validate_signature v c obo signatureID =
     sig_slow_post v c obo scopeSigRead ''/api/v1/validations''
       (JObj [(''signatureId'', JStr signatureID)]) (out_validation v)"

lemmas signflow_client_defs = sig_slow_post_def BeginSigning_def Status_def Abandon_def
  ChainFree_def SubmitClientSignature_def ArchiveTimestamp_def ValidateDocument_def
  Validate_signature_def

context call_invariant
begin

lemma keeps_signflow_client:
  assumes "ob_sub obo = sub"
  shows "keeps I (BeginSigning v c obo bi)" "keeps I (Status v c obo j w)" "keeps I (Abandon v c obo j)"
    "keeps I (ChainFree v c obo e w)" "keeps I (SubmitClientSignature v c obo j ss)"
    "keeps I (ArchiveTimestamp v c obo d a)" "keeps I (ValidateDocument v c obo d)"
    "keeps I (Validate_signature v c obo d)"
  using assms
  by (auto simp: signflow_client_defs intro!: keeps_outbound keeps_on_ok keeps_return)

end

end
