(* ===== verification/EnvelopeRoutes.thy ===== *)
theory EnvelopeRoutes
  imports SessionRoutes DocumentClient EnvelopeClient SignflowClient
begin

text \<open>
  \<open>routes/envelope.go\<close>: creating and listing envelopes, the composed detail view, the
  lifecycle transitions, and starting the signing of a slot.
\<close>

section \<open>Invitations\<close>

definition organisation :: "string \<Rightarrow> gerr" where
  "organisation semantics = Text (semantics @ '' identifies an organisation, which cannot be invited to sign'')"

definition inviteIdentity :: "env \<Rightarrow> string \<Rightarrow> string \<Rightarrow> string \<Rightarrow> web_error + string" where
  "inviteIdentity v name cd country =
     (if cd = [] then Inr []
      else case idc_canonical v cd country of
        Inl e \<Rightarrow> Inl (ParamInvalid name ''identityRef'' e)
      | Inr canonical \<Rightarrow>
          (case idc_parse v canonical of
             Inl e \<Rightarrow> Inl (ParamInvalid name ''identityRef'' e)
           | Inr (semantics, natural) \<Rightarrow>
               if \<not> natural then Inl (ParamInvalid name ''identityRef'' (organisation semantics))
               else Inr canonical))"

definition slot_input_of :: "string \<Rightarrow> slot_entry \<Rightarrow> slot_input" where
  "slot_input_of identityRef s = \<lparr>si_order_index = se_order_index s, si_role = se_role s,
     si_flow = se_flow s, si_required_loa = se_required_loa s, si_identity_ref = identityRef\<rparr>"

fun slot_inputs :: "env \<Rightarrow> nat \<Rightarrow> slot_entry list \<Rightarrow> web_error + slot_input list" where
  "slot_inputs v i [] = Inr []"
| "slot_inputs v i (s # ss) =
     (case inviteIdentity v (''slots['' @ itoa (int i) @ ''].identityRef'') (se_identity_ref s) (se_country s) of
        Inl e \<Rightarrow> Inl e
      | Inr r \<Rightarrow> (case slot_inputs v (Suc i) ss of
          Inl e \<Rightarrow> Inl e | Inr xs \<Rightarrow> Inr (slot_input_of r s # xs)))"

section \<open>Creating and listing\<close>

text \<open>
  Two or more documents become one bundle.  The document client is used without asking
  whether it is configured: a nil client is dereferenced.
\<close>

definition one_document :: "env \<Rightarrow> on_behalf \<Rightarrow> string list \<Rightarrow> (string list \<Rightarrow> unit act) \<Rightarrow> unit act" where
  "one_document v obo docs h =
     (if 2 \<le> length docs then
        (case ap_documents (app v) of
           None \<Rightarrow> ctx_error v Panic
         | Some c \<Rightarrow> or_relay v (Bundle v c obo (Some docs)) (\<lambda>bundle. h [meta_id bundle]))
      else h docs)"

definition create_with :: "env \<Rightarrow> service \<Rightarrow> on_behalf \<Rightarrow> create_envelope \<Rightarrow> string list \<Rightarrow> unit act" where
  "create_with v c obo req docs = (case slot_inputs v 0 (ce_slots req) of
     Inl e \<Rightarrow> ctx_error v e
   | Inr slots \<Rightarrow>
       or_relay v (Create v c obo \<lparr>ci_title = ce_title req, ci_order_policy = ce_order_policy req,
                     ci_profile = ce_profile req, ci_documents = docs, ci_slots = slots\<rparr>)
         (\<lambda>out. do { set_status 201; ctx_json (enc_created out) }))"

definition createEnvelope :: "env \<Rightarrow> request \<Rightarrow> unit act" where
  "createEnvelope v q = envelopeReady v (\<lambda>c. with_delegation v (\<lambda>obo.
     case create_envelope_body q of
       Inl e \<Rightarrow> ctx_error v (Framework e)
     | Inr req \<Rightarrow> one_document v obo (ce_documents req) (create_with v c obo req)))"

text \<open>A page's \<open>limit\<close> (zero when absent or malformed) and cursor.\<close>

definition query_limit :: "request \<Rightarrow> string \<Rightarrow> int" where
  "query_limit q name = (case rq_query_int q name of Inr (Some n) \<Rightarrow> n | _ \<Rightarrow> 0)"

definition listEnvelopes :: "env \<Rightarrow> request \<Rightarrow> unit act" where
  "listEnvelopes v q = envelopeReady v (\<lambda>c. with_delegation v (\<lambda>obo.
     if opt_text (rq_query q ''documentId'') \<noteq> []
     then or_relay v (FindForDocument v c obo (opt_text (rq_query q ''documentId'')))
            (\<lambda>out. ctx_json (enc_list_result out))
     else or_relay v (Envelope_List v c obo (query_limit q ''limit'') (opt_text (rq_query q ''cursor'')))
            (\<lambda>out. ctx_json (enc_list_result out))))"

definition listSigningTasks :: "env \<Rightarrow> request \<Rightarrow> unit act" where
  "listSigningTasks v q = envelopeReady v (\<lambda>c. with_delegation v (\<lambda>obo.
     or_relay v (SigningTasks v c obo (query_limit q ''limit'') (opt_text (rq_query q ''cursor'')))
       (\<lambda>out. ctx_json (enc_signing_tasks_result out))))"

section \<open>The composed view\<close>

record composed_slot =
  co_slot :: slot
  co_state :: string
  co_container :: string
  co_you :: bool

definition enc_composed_slot :: "composed_slot \<Rightarrow> json" where
  "enc_composed_slot s = JObj (members slot_fields (co_slot s) @
     (if co_state s = [] then [] else [(''state'', JStr (co_state s))]) @
     (if co_container s = [] then [] else [(''containerId'', JStr (co_container s))]) @
     [(''you'', JBool (co_you s))])"

definition is_you :: "(string \<Rightarrow> string) \<Rightarrow> string \<Rightarrow> string \<Rightarrow> string \<Rightarrow> slot \<Rightarrow> bool" where
  "is_you key owner sub viewerSerial s \<longleftrightarrow>
     (sl_identity_ref s \<noteq> [] \<and> key (sl_identity_ref s) = viewerSerial) \<or>
     (sl_identity_ref s = [] \<and> owner = sub)"

text \<open>What of another party's slot is withheld from a viewer who is not the owner.\<close>

definition withhold :: "bool \<Rightarrow> bool \<Rightarrow> slot \<Rightarrow> slot" where
  "withhold isOwnerViewer you s =
     (if isOwnerViewer then s
      else s\<lparr>sl_identity_ref := [], sl_return_url := (if you then sl_return_url s else [])\<rparr>)"

definition seed_slot :: "(string \<Rightarrow> string) \<Rightarrow> string \<Rightarrow> string \<Rightarrow> string \<Rightarrow> slot \<Rightarrow> composed_slot" where
  "seed_slot key owner sub viewerSerial s =
     (let you = is_you key owner sub viewerSerial s in
      \<lparr>co_slot = withhold (owner = sub) you s, co_state = [], co_container = sl_signed_doc_ref s,
       co_you = you\<rparr>)"

definition with_job :: "job \<Rightarrow> composed_slot \<Rightarrow> composed_slot" where
  "with_job j s = s\<lparr>co_state := job_state j,
     co_slot := (if job_signature_id j \<noteq> [] then (co_slot s)\<lparr>sl_signature_id := job_signature_id j\<rparr>
                 else co_slot s),
     co_container := (if job_container_id j \<noteq> [] then job_container_id j else co_container s)\<rparr>"

definition compose_slot :: "env \<Rightarrow> on_behalf \<Rightarrow> string \<Rightarrow> slot \<Rightarrow> composed_slot act" where
  "compose_slot v obo owner s =
     (let x = seed_slot (idc_key v) owner (ob_sub obo) (serial_from_token v (ob_token obo)) s in
      case ap_signflow (app v) of
        None \<Rightarrow> State_Monad.return x
      | Some c \<Rightarrow>
          if sl_job_id s = [] then State_Monad.return x
          else do {
            r \<leftarrow> Status v c obo (sl_job_id s) 0;
            State_Monad.return (case r of Inl e \<Rightarrow> x | Inr j \<Rightarrow> with_job j x) })"

definition identity_name :: "identity \<Rightarrow> string" where
  "identity_name i = (if trim_space (idn_name i) \<noteq> [] then trim_space (idn_name i)
     else trim_space (idn_given i @ '' '' @ idn_family i))"

definition viewerName :: "env \<Rightarrow> string act" where
  "viewerName v = do {
     r \<leftarrow> freshToken v;
     case r of
       Inl e \<Rightarrow> State_Monad.return []
     | Inr token \<Rightarrow> do {
         x \<leftarrow> gets cur_ses;
         case parse_key v x of
           Inl e \<Rightarrow> State_Monad.return []
         | Inr key \<Rightarrow> do {
             r \<leftarrow> Identity v key token;
             State_Monad.return (case r of Inr (Some i) \<Rightarrow> identity_name i | _ \<Rightarrow> []) } } }"

definition capture_slot :: "env \<Rightarrow> service \<Rightarrow> on_behalf \<Rightarrow> string \<Rightarrow> composed_slot \<Rightarrow> composed_slot act" where
  "capture_slot v c obo eid x = do {
     name \<leftarrow> viewerName v;
     if name = [] then State_Monad.return x
     else do {
       CaptureSignerName v c obo eid (sl_id (co_slot x)) name;
       State_Monad.return (x\<lparr>co_slot := (co_slot x)\<lparr>sl_signer_name := name\<rparr>\<rparr>) } }"

definition named_or_not_yours :: "composed_slot \<Rightarrow> bool" where
  "named_or_not_yours x \<longleftrightarrow> \<not> co_you x \<or> sl_signer_name (co_slot x) \<noteq> []"

fun capture_first :: "(composed_slot \<Rightarrow> composed_slot act) \<Rightarrow> composed_slot list
    \<Rightarrow> composed_slot list act" where
  "capture_first f [] = State_Monad.return []"
| "capture_first f (x # xs) =
     (if named_or_not_yours x
      then do { ys \<leftarrow> capture_first f xs; State_Monad.return (x # ys) }
      else do { y \<leftarrow> f x; State_Monad.return (y # xs) })"

definition resolve_name :: "env \<Rightarrow> service \<Rightarrow> on_behalf \<Rightarrow> doc_ref \<Rightarrow> doc_ref act" where
  "resolve_name v c obo d = do {
     r \<leftarrow> Metadata v c obo (dr_document_id d);
     State_Monad.return (case r of Inl e \<Rightarrow> d | Inr m \<Rightarrow> d\<lparr>dr_filename := meta_filename m\<rparr>) }"

definition resolve_names :: "env \<Rightarrow> on_behalf \<Rightarrow> doc_ref list option \<Rightarrow> doc_ref list option act" where
  "resolve_names v obo ds = (case ap_documents (app v) of
     None \<Rightarrow> State_Monad.return ds
   | Some c \<Rightarrow> do {
       xs \<leftarrow> for_each 0 (case ds of None \<Rightarrow> [] | Some xs \<Rightarrow> xs) (\<lambda>i. resolve_name v c obo);
       State_Monad.return (Some xs) })"

definition enc_composed_detail :: "envelope_view \<Rightarrow> composed_slot list \<Rightarrow> doc_ref list option \<Rightarrow> json" where
  "enc_composed_detail e slots docs = JObj [
     (''envelope'', enc_envelope_view e),
     (''slots'', JArr (map enc_composed_slot slots)),
     (''documents'', case docs of None \<Rightarrow> JNull | Some ds \<Rightarrow> JArr (map enc_doc_ref ds))]"

definition compose_slots :: "env \<Rightarrow> on_behalf \<Rightarrow> detail \<Rightarrow> composed_slot list act" where
  "compose_slots v obo d = for_each 0 (case dt_slots d of None \<Rightarrow> [] | Some ss \<Rightarrow> ss)
     (\<lambda>i. compose_slot v obo (ev_owner (dt_envelope d)))"

definition getEnvelope :: "env \<Rightarrow> request \<Rightarrow> unit act" where
  "getEnvelope v q = envelopeReady v (\<lambda>c. with_delegation v (\<lambda>obo.
     or_relay v (Envelope_Get v c obo (rq_param q ''id'')) (\<lambda>d. do {
       seeded \<leftarrow> compose_slots v obo d;
       slots \<leftarrow> capture_first (capture_slot v c obo (rq_param q ''id'')) seeded;
       docs \<leftarrow> resolve_names v obo (dt_documents d);
       ctx_json (enc_composed_detail (dt_envelope d) slots docs) })))"

section \<open>Attaching, adding a slot, the transitions\<close>

definition attachEnvelopeDocument :: "env \<Rightarrow> request \<Rightarrow> unit act" where
  "attachEnvelopeDocument v q = envelopeReady v (\<lambda>c. with_delegation v (\<lambda>obo.
     case attach_document_body q of
       Inl e \<Rightarrow> ctx_error v (Framework e)
     | Inr req \<Rightarrow> or_relay v (AttachDocument v c obo (rq_param q ''id'') (ad_document_id req))
         (\<lambda>out. do { set_status 201; ctx_json (enc_doc_ref out) })))"

definition addEnvelopeSlot :: "env \<Rightarrow> request \<Rightarrow> unit act" where
  "addEnvelopeSlot v q = envelopeReady v (\<lambda>c. with_delegation v (\<lambda>obo.
     case add_slot_body q of
       Inl e \<Rightarrow> ctx_error v (Framework e)
     | Inr req \<Rightarrow> (case inviteIdentity v ''identityRef'' (se_identity_ref req) (se_country req) of
         Inl e \<Rightarrow> ctx_error v e
       | Inr r \<Rightarrow> or_relay v (AddSlot v c obo (rq_param q ''id'') (slot_input_of r req))
           (\<lambda>sid. do { set_status 201; ctx_json (JObj [(''id'', JStr sid)]) }))))"

definition transition_handler :: "env \<Rightarrow> (service \<Rightarrow> on_behalf \<Rightarrow> (gerr + transition) act) \<Rightarrow> unit act" where
  "transition_handler v m = envelopeReady v (\<lambda>c. with_delegation v (\<lambda>obo.
     or_relay v (m c obo) (\<lambda>out. ctx_json (enc_transition out))))"

definition sendEnvelope :: "env \<Rightarrow> request \<Rightarrow> unit act" where
  "sendEnvelope v q = transition_handler v (\<lambda>c obo. Send v c obo (rq_param q ''id''))"

definition cancelEnvelope :: "env \<Rightarrow> request \<Rightarrow> unit act" where
  "cancelEnvelope v q = transition_handler v (\<lambda>c obo. Cancel v c obo (rq_param q ''id''))"

definition reopenEnvelope :: "env \<Rightarrow> request \<Rightarrow> unit act" where
  "reopenEnvelope v q = transition_handler v (\<lambda>c obo. Reopen v c obo (rq_param q ''id''))"

definition declineEnvelopeSlot :: "env \<Rightarrow> request \<Rightarrow> unit act" where
  "declineEnvelopeSlot v q =
     transition_handler v (\<lambda>c obo. DeclineSlot v c obo (rq_param q ''id'') (rq_param q ''slot''))"

section \<open>Signing a slot\<close>

definition flowWebEid :: string where "flowWebEid = ''webEid''"
definition flowLegacyEid :: string where "flowLegacyEid = ''legacyEid''"
definition flowEseal :: string where "flowEseal = ''eparakstsMobileEseal''"

definition inBrowserFlow :: "string \<Rightarrow> bool" where
  "inBrowserFlow f \<longleftrightarrow> f = flowWebEid \<or> f = flowLegacyEid"

definition auth_cert_for :: "sign_slot \<Rightarrow> capabilities option \<Rightarrow> string" where
  "auth_cert_for req caps = (if ss_auth_certificate req \<noteq> [] then ss_auth_certificate req
     else case caps of Some c \<Rightarrow> cap_auth_cert c | None \<Rightarrow> [])"

text \<open>The seal that signs: the picked one, or the only one when none was picked.\<close>

definition seal_identity :: "seal list \<Rightarrow> string \<Rightarrow> string \<times> string" where
  "seal_identity seals picked = (case find (\<lambda>s. seal_id s = picked) seals of
     Some s \<Rightarrow> (seal_id s, seal_certificate s)
   | None \<Rightarrow> (case seals of
       [s] \<Rightarrow> if picked = [] then (seal_id s, seal_certificate s) else ([], [])
     | _ \<Rightarrow> ([], [])))"

definition sign_identity :: "sign_slot \<Rightarrow> capabilities option \<Rightarrow> string \<times> string" where
  "sign_identity req caps = (case caps of
     None \<Rightarrow> ([], [])
   | Some c \<Rightarrow> if inBrowserFlow (ss_flow req) then ([], [])
       else if ss_flow req = flowEseal then seal_identity (cap_seals c) (ss_seal_id req)
       else (cap_sign_identity c, cap_signing_cert c))"

definition missing_certificate :: "sign_slot \<Rightarrow> capabilities option \<Rightarrow> bool" where
  "missing_certificate req caps \<longleftrightarrow> inBrowserFlow (ss_flow req) \<and>
     (ss_signing_certificate req = [] \<or> auth_cert_for req caps = [])"

definition certificate_problem :: "string \<Rightarrow> web_error" where
  "certificate_problem f = problem ''err:signing:invalidRequest'' 400
     (''a signing certificate is required for the '' @ f
       @ '' flow; the authentication certificate comes from your card login'')"

definition not_eligible :: web_error where
  "not_eligible = problem ''err:envelope:notEligible'' 409 ''an earlier slot must be signed first''"

definition begin_input_for :: "env \<Rightarrow> string \<Rightarrow> string \<Rightarrow> sign_slot \<Rightarrow> capabilities option \<Rightarrow> begin_input" where
  "begin_input_for v eid slotID req caps =
     (let (identityID, cert) = sign_identity req caps;
          (back, err) = (if inBrowserFlow (ss_flow req) then ([], [])
                         else SigningSlotReturnURLs (cfg v) eid slotID)
      in \<lparr>bi_envelope_id = eid, bi_slot_id = slotID, bi_flow = ss_flow req,
          bi_sig_format = ss_sig_format req, bi_document_id = ss_document_id req,
          bi_signing_certificate = (if cert = [] then ss_signing_certificate req else cert),
          bi_auth_certificate = auth_cert_for req caps, bi_sign_identity_id = identityID,
          bi_seal_id = ss_seal_id req, bi_post_auth_redirect = back, bi_auth_error_redirect = err\<rparr>)"

definition start_signing :: "env \<Rightarrow> service \<Rightarrow> service \<Rightarrow> on_behalf \<Rightarrow> string \<Rightarrow> string
    \<Rightarrow> begin_input \<Rightarrow> unit act" where
  "start_signing v c sf obo eid slotID inp =
     or_relay v (BeginSigning v sf obo inp) (\<lambda>j. do {
       SetSlotJob v c obo eid slotID (job_id j);
       set_status 201;
       ctx_json (enc_job j) })"

definition signEnvelopeSlot :: "env \<Rightarrow> request \<Rightarrow> unit act" where
  "signEnvelopeSlot v q = envelopeReady v (\<lambda>c. signingReady v (\<lambda>sf. with_delegation v (\<lambda>obo.
     case sign_slot_body q of
       Inl e \<Rightarrow> ctx_error v (Framework e)
     | Inr req \<Rightarrow> do {
         caps \<leftarrow> gets (\<lambda>s. ses_capabilities (cur_ses s));
         if missing_certificate req caps then ctx_error v (certificate_problem (ss_flow req))
         else or_relay v (SlotEligible v c obo (rq_param q ''id'') (rq_param q ''slot'')) (\<lambda>eligible.
           if \<not> eligible then ctx_error v not_eligible
           else start_signing v c sf obo (rq_param q ''id'') (rq_param q ''slot'')
                  (begin_input_for v (rq_param q ''id'') (rq_param q ''slot'') req caps)) })))"

section \<open>What the handlers keep\<close>

context handler_invariant
begin

lemma keeps_capture_first:
  "(\<And>x. keeps I (f x)) \<Longrightarrow> keeps I (capture_first f xs)"
  by (induction xs) (auto intro!: keeps_intros)

lemma keeps_viewerName: "keeps I (viewerName v)"
  by (auto simp: viewerName_def Identity_def intro!: keeps_intros keeps_freshToken keeps_ask)

lemma keeps_transition_handler:
  "(\<And>c obo. ob_sub obo = sub \<Longrightarrow> keeps I (m c obo)) \<Longrightarrow> keeps I (transition_handler v m)"
  unfolding transition_handler_def
  by (intro keeps_ready keeps_with_delegation keeps_or_relay keeps_primitives)

lemma keeps_create: "keeps I (createEnvelope v q)"
proof -
  have "keeps I (create_with v c obo req docs)" if "ob_sub obo = sub" for c obo req docs
    using that unfolding create_with_def
    by (auto intro!: keeps_case_sum keeps_or_relay keeps_envelope_client keeps_bind keeps_primitives)
  then show ?thesis
    by (auto simp: createEnvelope_def one_document_def
        intro!: keeps_ready keeps_with_delegation keeps_case_sum keeps_case_option keeps_if
          keeps_or_relay keeps_document_client keeps_primitives)
qed

lemma keeps_getEnvelope: "keeps I (getEnvelope v q)"
  by (auto simp: getEnvelope_def compose_slots_def compose_slot_def Let_def capture_slot_def
      resolve_names_def resolve_name_def
      intro!: keeps_ready keeps_with_delegation keeps_or_relay keeps_envelope_client keeps_intros
        keeps_signflow_client keeps_document_client keeps_capture_first keeps_viewerName
        keeps_primitives)

lemma keeps_sign: "keeps I (signEnvelopeSlot v q)"
  by (auto simp: signEnvelopeSlot_def start_signing_def
      intro!: keeps_ready keeps_with_delegation keeps_or_relay keeps_envelope_client keeps_intros
        keeps_signflow_client keeps_primitives)

lemma keeps_envelope_routes:
  "keeps I (createEnvelope v q)" "keeps I (listEnvelopes v q)" "keeps I (listSigningTasks v q)"
  "keeps I (getEnvelope v q)" "keeps I (attachEnvelopeDocument v q)" "keeps I (addEnvelopeSlot v q)"
  "keeps I (sendEnvelope v q)" "keeps I (cancelEnvelope v q)" "keeps I (reopenEnvelope v q)"
  "keeps I (declineEnvelopeSlot v q)" "keeps I (signEnvelopeSlot v q)"
  by (auto simp: keeps_create keeps_getEnvelope keeps_sign listEnvelopes_def listSigningTasks_def
      attachEnvelopeDocument_def addEnvelopeSlot_def sendEnvelope_def cancelEnvelope_def
      reopenEnvelope_def declineEnvelopeSlot_def
      intro!: keeps_ready keeps_with_delegation keeps_or_relay keeps_envelope_client keeps_intros
        keeps_transition_handler keeps_primitives)

end

end
