(* ===== verification/SigningRoutes.thy ===== *)
theory SigningRoutes
  imports EnvelopeRoutes
begin

text \<open>
  \<open>routes/signing.go\<close> and \<open>routes/anscache.go\<close>: following and finishing a signing job, the
  wait for a free chain, and the validation answers with their render-recent cache.
\<close>

section \<open>Validation answers\<close>

definition answerKey :: "string \<Rightarrow> string \<Rightarrow> string \<Rightarrow> string" where
  "answerKey sub kind i = answer_prefix @ sub @ '':'' @ kind @ '':'' @ i"

definition forceRequested :: "request \<Rightarrow> bool" where
  "forceRequested q = (case rq_query_bool q ''force'' of Inr (Some b) \<Rightarrow> b | _ \<Rightarrow> False)"

text \<open>Serving from the cache; the result says whether the response was written.\<close>

definition serveCachedAnswer :: "env \<Rightarrow> request \<Rightarrow> string \<Rightarrow> bool act" where
  "serveCachedAnswer v q key =
     (if ap_answers_ttl (app v) = None \<or> forceRequested q then State_Monad.return False
      else do {
        b \<leftarrow> answer_Get v key;
        case b of
          None \<Rightarrow> State_Monad.return False
        | Some x \<Rightarrow> do {
            set_header ''Content-Type'' json_type;
            ctx_raw x;
            State_Monad.return True } })"

definition storeAnswer :: "env \<Rightarrow> string \<Rightarrow> json \<Rightarrow> unit act" where
  "storeAnswer v key j = (case ap_answers_ttl (app v) of
     None \<Rightarrow> skip | Some ttl \<Rightarrow> answer_Set v ttl key (Doc j))"

text \<open>The answer of both validation routes: from the cache, else fetched and remembered.\<close>

definition answer_with :: "env \<Rightarrow> request \<Rightarrow> string \<Rightarrow> (gerr + validation) act \<Rightarrow> unit act" where
  "answer_with v q key fetch = do {
     served \<leftarrow> serveCachedAnswer v q key;
     if served then skip
     else or_relay v fetch (\<lambda>out. do {
       storeAnswer v key (enc_validation v out);
       ctx_json (enc_validation v out) }) }"

definition signatureValidation :: "env \<Rightarrow> request \<Rightarrow> unit act" where
  "signatureValidation v q = signingReady v (\<lambda>c. with_delegation v (\<lambda>obo.
     answer_with v q (answerKey (ob_sub obo) ''sig'' (rq_param q ''sigId''))
       (Validate_signature v c obo (rq_param q ''sigId''))))"

definition validateDocument :: "env \<Rightarrow> request \<Rightarrow> unit act" where
  "validateDocument v q = signingReady v (\<lambda>c. with_delegation v (\<lambda>obo.
     answer_with v q (answerKey (ob_sub obo) ''doc'' (rq_param q ''id''))
       (ValidateDocument v c obo (rq_param q ''id''))))"

section \<open>Following a job\<close>

definition maxStatusWait :: int where "maxStatusWait = 10"

definition clamped_wait :: "request \<Rightarrow> int" where
  "clamped_wait q = (let w = query_limit q ''wait'' in if w > maxStatusWait then maxStatusWait else w)"

definition signingStatus :: "env \<Rightarrow> request \<Rightarrow> unit act" where
  "signingStatus v q = signingReady v (\<lambda>c. with_delegation v (\<lambda>obo.
     or_relay v (Status v c obo (rq_param q ''jobId'') (clamped_wait q)) (\<lambda>j. ctx_json (enc_job j))))"

definition clientSignature :: "env \<Rightarrow> request \<Rightarrow> unit act" where
  "clientSignature v q = signingReady v (\<lambda>c. with_delegation v (\<lambda>obo.
     case client_signature_body q of
       Inl e \<Rightarrow> ctx_error v (Framework e)
     | Inr req \<Rightarrow> or_relay v
         (SubmitClientSignature v c obo (rq_param q ''jobId'')
            (map (\<lambda>s. \<lparr>cs_document_id = cv_document_id s, cs_signature_value = cv_signature_value s\<rparr>)
               (case cr_signatures req of None \<Rightarrow> [] | Some xs \<Rightarrow> xs)))
         (\<lambda>j. ctx_json (enc_job j))))"

definition abandonSigning :: "env \<Rightarrow> request \<Rightarrow> unit act" where
  "abandonSigning v q = signingReady v (\<lambda>c. with_delegation v (\<lambda>obo.
     or_relay v (Abandon v c obo (rq_param q ''jobId'')) (\<lambda>_. set_status 204)))"

definition envelope_required :: web_error where
  "envelope_required = problem ''err:signing:invalidRequest'' 400 ''envelopeId is required''"

definition chainFree :: "env \<Rightarrow> request \<Rightarrow> unit act" where
  "chainFree v q = signingReady v (\<lambda>c. with_delegation v (\<lambda>obo.
     if opt_text (rq_query q ''envelopeId'') = [] then ctx_error v envelope_required
     else or_relay v (ChainFree v c obo (opt_text (rq_query q ''envelopeId'')) (clamped_wait q))
       (\<lambda>free. ctx_json (JObj [(''free'', JBool free)]))))"

section \<open>What the handlers keep\<close>

context handler_invariant
begin

lemma keeps_answer_Get: "keeps I (answer_Get v key)"
  by (auto simp: answer_Get_def keeps_answers
      intro!: keeps_intros keeps_primitives keeps_modify)

lemma keeps_answer_Set: "keeps I (answer_Set v ttl (answerKey u kind i) b)"
proof -
  have "keeps I (redis v (RSet (answerKey u kind i) b ttl))"
    by (auto intro!: keepsI simp: redis_def wp_simps answerKey_def keeps_redis_answer)
  then show ?thesis
    by (auto simp: answer_Set_def keeps_answers intro!: keeps_intros keeps_primitives keeps_modify)
qed

lemma keeps_answer_with: "keeps I fetch \<Longrightarrow> keeps I (answer_with v q (answerKey u kind i) fetch)"
  by (auto simp: answer_with_def serveCachedAnswer_def storeAnswer_def
      intro!: keeps_intros keeps_primitives keeps_answer_Get keeps_answer_Set keeps_or_relay)

lemma keeps_signing_routes:
  "keeps I (signatureValidation v q)" "keeps I (validateDocument v q)" "keeps I (signingStatus v q)"
  "keeps I (clientSignature v q)" "keeps I (abandonSigning v q)" "keeps I (chainFree v q)"
  by (auto simp: signatureValidation_def validateDocument_def signingStatus_def
      clientSignature_def abandonSigning_def chainFree_def
      intro!: keeps_ready keeps_with_delegation keeps_or_relay keeps_signflow_client keeps_answer_with
        keeps_intros keeps_primitives)

end

section \<open>Keys of the answer cache\<close>

text \<open>
  A subject without a colon cannot collide with another person's: the key determines the
  subject.  With colons it can.
\<close>

lemma answerKey_sub:
  assumes "CHR '':'' \<notin> set sub" "CHR '':'' \<notin> set sub'"
    and "answerKey sub kind i = answerKey sub' kind' i'"
  shows "sub = sub' \<and> kind @ '':'' @ i = kind' @ '':'' @ i'"
proof -
  have "sub @ CHR '':'' # (kind @ '':'' @ i) = sub' @ CHR '':'' # (kind' @ '':'' @ i')"
    using assms(3) by (simp add: answerKey_def)
  from split_at_first [OF this assms(1,2)] show ?thesis by simp
qed

lemma clamped_wait_le: "clamped_wait q \<le> 10"
  by (simp add: clamped_wait_def maxStatusWait_def Let_def)

end
