(* ===== verification/DocumentRoutes.thy ===== *)
theory DocumentRoutes
  imports SigningRoutes
begin

text \<open>
  \<open>routes/documents.go\<close>, \<open>routes/preview.go\<close> and \<open>audit/audit.go\<close>: the document library of
  the person, the review-only previews, and the access records they leave.
\<close>

section \<open>Access records\<close>

text \<open>
  \<open>documentRead\<close>: the access record of a download or preview; nothing without a configured
  client or a subject.  Delivery and its failure are the library's.
\<close>

definition documentRead :: "env \<Rightarrow> string \<Rightarrow> string \<Rightarrow> unit act" where
  "documentRead v user documentID =
     (if \<not> ap_audit (app v) \<or> user = [] then skip else emit (EAuditRead user documentID))"

definition DocumentDownloaded :: "env \<Rightarrow> string \<Rightarrow> string \<Rightarrow> unit act" where
  "DocumentDownloaded v user documentID = documentRead v user documentID"

definition DocumentPreviewed :: "env \<Rightarrow> string \<Rightarrow> string \<Rightarrow> unit act" where
  "DocumentPreviewed v user documentID = documentRead v user documentID"

section \<open>Uploading\<close>

definition encodeUpload :: "string \<Rightarrow> string \<Rightarrow> string \<Rightarrow> string \<Rightarrow> (string \<times> string) list
    \<Rightarrow> payload \<times> string" where
  "encodeUpload b field filename data extras =
     (Bytes (multipart b (file_part field filename data # map field_part extras)), form_type b)"

text \<open>The extra fields are in a Go map, whose order of iteration is not fixed.\<close>

definition form_field :: "request \<Rightarrow> string \<Rightarrow> (string \<times> string) list" where
  "form_field q name = (case rq_form q name of None \<Rightarrow> [] | Some x \<Rightarrow> [(name, x)])"

definition upload_fields :: "bool \<Rightarrow> request \<Rightarrow> (string \<times> string) list" where
  "upload_fields swap q = (let fs = form_field q ''preservation_class'' @ form_field q ''mime''
     in if swap then rev fs else fs)"

definition uploadDocument :: "env \<Rightarrow> request \<Rightarrow> unit act" where
  "uploadDocument v q = documentsReady v (\<lambda>c. with_delegation v (\<lambda>obo.
     case rq_form_file q of
       Inl e \<Rightarrow> ctx_error v (Framework e)
     | Inr fh \<Rightarrow> (case up_content fh of
         Inl e \<Rightarrow> fail v e
       | Inr data \<Rightarrow> do {
           tr \<leftarrow> gets trace;
           let (bd, contentType) = encodeUpload (boundary v tr) ''file'' (up_filename fh) data
                                     (upload_fields (swap_fields v tr) q);
           or_relay v (Upload v c obo contentType bd)
             (\<lambda>m. do { set_status 201; ctx_json (enc_meta m) }) })))"

section \<open>Reading\<close>

definition listDocuments :: "env \<Rightarrow> request \<Rightarrow> unit act" where
  "listDocuments v q = documentsReady v (\<lambda>c. with_delegation v (\<lambda>obo.
     or_relay v (Documents_List v c obo (query_limit q ''limit'') (opt_text (rq_query q ''after'')))
       (\<lambda>out. ctx_json (enc_doc_list (cal v) out))))"

definition getDocument :: "env \<Rightarrow> request \<Rightarrow> unit act" where
  "getDocument v q = documentsReady v (\<lambda>c. with_delegation v (\<lambda>obo.
     or_relay v (Metadata v c obo (rq_param q ''id'')) (\<lambda>m. ctx_json (enc_meta m))))"

definition getDocumentChain :: "env \<Rightarrow> request \<Rightarrow> unit act" where
  "getDocumentChain v q = documentsReady v (\<lambda>c. with_delegation v (\<lambda>obo.
     or_relay v (GetChain v c obo (rq_param q ''id''))
       (\<lambda>row. ctx_json (enc_chain_row (cal v) row))))"

definition relay_header :: "http_resp \<Rightarrow> string \<Rightarrow> unit act" where
  "relay_header r name = (if hr_header r name = [] then skip else set_header name (hr_header r name))"

text \<open>A file is relayed with its type and name, and the browser must not sniff another type.\<close>

definition relay_file :: "http_resp \<Rightarrow> unit act" where
  "relay_file r = do {
     relay_header r ''Content-Type'';
     relay_header r ''Content-Disposition'';
     set_header ''X-Content-Type-Options'' ''nosniff'';
     ctx_raw (hr_body r) }"

definition downloadDocument :: "env \<Rightarrow> request \<Rightarrow> unit act" where
  "downloadDocument v q = documentsReady v (\<lambda>c. with_delegation v (\<lambda>obo.
     or_relay v (Content v c obo (rq_param q ''id'')) (\<lambda>r. do {
       DocumentDownloaded v (ob_sub obo) (rq_param q ''id'');
       relay_file r })))"

definition extractDataObject :: "env \<Rightarrow> request \<Rightarrow> unit act" where
  "extractDataObject v q = documentsReady v (\<lambda>c. with_delegation v (\<lambda>obo.
     or_relay v (ExtractObject v c obo (rq_param q ''id'') (rq_path_param q ''name'')) relay_file))"

definition listHistory :: "env \<Rightarrow> request \<Rightarrow> unit act" where
  "listHistory v q = documentsReady v (\<lambda>c. with_delegation v (\<lambda>obo.
     or_relay v (ListHistory v c obo (query_limit q ''limit'') (opt_text (rq_query q ''after'')))
       (\<lambda>out. ctx_json (enc_history_list (cal v) out))))"

section \<open>Changing\<close>

definition deleteDocument :: "env \<Rightarrow> request \<Rightarrow> unit act" where
  "deleteDocument v q = documentsReady v (\<lambda>c. with_delegation v (\<lambda>obo.
     or_relay v (Delete v c obo (rq_param q ''id'')) (\<lambda>_. ctx_json ok_json)))"

definition deleteHistory :: "env \<Rightarrow> request \<Rightarrow> unit act" where
  "deleteHistory v q = documentsReady v (\<lambda>c. with_delegation v (\<lambda>obo.
     or_relay v (DeleteHistory v c obo (rq_param q ''chainRoot'')) (\<lambda>_. ctx_json ok_json)))"

definition bundleDocuments :: "env \<Rightarrow> request \<Rightarrow> unit act" where
  "bundleDocuments v q = documentsReady v (\<lambda>c. with_delegation v (\<lambda>obo.
     case bundle_body q of
       Inl e \<Rightarrow> ctx_error v (Framework e)
     | Inr req \<Rightarrow> or_relay v (Bundle v c obo (br_source_ids req))
         (\<lambda>m. do { set_status 201; ctx_json (enc_meta m) })))"

definition rebundleDocument :: "env \<Rightarrow> request \<Rightarrow> unit act" where
  "rebundleDocument v q = documentsReady v (\<lambda>c. with_delegation v (\<lambda>obo.
     case rebundle_body q of
       Inl e \<Rightarrow> ctx_error v (Framework e)
     | Inr req \<Rightarrow> or_relay v (Rebundle v c obo (rq_param q ''id'') (rr_entries req)) (\<lambda>m. ctx_json (enc_meta m))))"

definition cert_required :: web_error where
  "cert_required = problem ''err:signing:authCertificateRequired'' 409
     ''no authentication certificate is captured on this session; re-authenticate and retry''"

definition archiveTimestamp :: "env \<Rightarrow> request \<Rightarrow> unit act" where
  "archiveTimestamp v q = signingReady v (\<lambda>c. with_delegation v (\<lambda>obo. do {
     x \<leftarrow> gets cur_ses;
     let authCert = (case ses_capabilities x of Some cp \<Rightarrow> cap_auth_cert cp | None \<Rightarrow> []);
     if authCert = [] then ctx_error v cert_required
     else or_relay v (ArchiveTimestamp v c obo (rq_param q ''id'') authCert)
       (\<lambda>out. ctx_json (enc_archived_document out)) }))"

section \<open>Previews\<close>

definition relayJSON :: "http_resp \<Rightarrow> unit act" where
  "relayJSON r = do {
     set_header ''Content-Type'' json_type;
     set_status (hr_status r);
     ctx_raw (hr_body r) }"

definition relay_page :: "http_resp \<Rightarrow> unit act" where
  "relay_page r = do {
     relay_header r ''Content-Type'';
     set_header ''Cache-Control'' ''no-store'';
     ctx_raw (hr_body r) }"

definition previewManifest :: "env \<Rightarrow> request \<Rightarrow> unit act" where
  "previewManifest v q = previewReady v (\<lambda>c. with_delegation v (\<lambda>obo.
     or_relay v (Manifest v c obo (rq_param q ''id'')) (\<lambda>r. do {
       DocumentPreviewed v (ob_sub obo) (rq_param q ''id'');
       relayJSON r })))"

definition previewPage :: "env \<Rightarrow> request \<Rightarrow> unit act" where
  "previewPage v q = previewReady v (\<lambda>c. with_delegation v (\<lambda>obo.
     case rq_param_int q ''n'' of
       Inl e \<Rightarrow> ctx_error v (Framework e)
     | Inr n \<Rightarrow> or_relay v (Page v c obo (rq_param q ''id'') n) relay_page))"

definition previewText :: "env \<Rightarrow> request \<Rightarrow> unit act" where
  "previewText v q = previewReady v (\<lambda>c. with_delegation v (\<lambda>obo.
     or_relay v (PreviewText v c obo (rq_param q ''id'')) relayJSON))"

definition previewInnerManifest :: "env \<Rightarrow> request \<Rightarrow> unit act" where
  "previewInnerManifest v q = previewReady v (\<lambda>c. with_delegation v (\<lambda>obo.
     or_relay v (InnerManifest v c obo (rq_param q ''id'') (rq_path_param q ''name'')) (\<lambda>r. do {
       DocumentPreviewed v (ob_sub obo) (rq_param q ''id'');
       relayJSON r })))"

definition previewInnerPage :: "env \<Rightarrow> request \<Rightarrow> unit act" where
  "previewInnerPage v q = previewReady v (\<lambda>c. with_delegation v (\<lambda>obo.
     case rq_param_int q ''n'' of
       Inl e \<Rightarrow> ctx_error v (Framework e)
     | Inr n \<Rightarrow> or_relay v (InnerPage v c obo (rq_param q ''id'') (rq_path_param q ''name'') n) relay_page))"

definition previewInnerText :: "env \<Rightarrow> request \<Rightarrow> unit act" where
  "previewInnerText v q = previewReady v (\<lambda>c. with_delegation v (\<lambda>obo.
     or_relay v (InnerText v c obo (rq_param q ''id'') (rq_path_param q ''name'')) relayJSON))"

section \<open>What the handlers keep\<close>

context handler_invariant
begin

lemma keeps_relays:
  "keeps I (relay_file r)" "keeps I (relay_page r)" "keeps I (relayJSON r)"
  "keeps I (documentRead v u d)" "keeps I (DocumentDownloaded v u d)" "keeps I (DocumentPreviewed v u d)"
  by (auto simp: relay_file_def relay_page_def relayJSON_def relay_header_def documentRead_def
      DocumentDownloaded_def DocumentPreviewed_def
      intro!: keeps_intros keeps_primitives keeps_emit)

lemma keeps_upload: "keeps I (uploadDocument v q)"
  by (auto simp: uploadDocument_def Let_def case_prod_beta
      intro!: keeps_ready keeps_with_delegation keeps_or_relay keeps_document_client keeps_intros
        keeps_primitives)

lemma keeps_document_routes:
  "keeps I (uploadDocument v q)" "keeps I (listDocuments v q)" "keeps I (getDocument v q)"
  "keeps I (getDocumentChain v q)" "keeps I (downloadDocument v q)" "keeps I (extractDataObject v q)"
  "keeps I (listHistory v q)" "keeps I (deleteDocument v q)" "keeps I (deleteHistory v q)"
  "keeps I (bundleDocuments v q)" "keeps I (rebundleDocument v q)" "keeps I (archiveTimestamp v q)"
  by (auto simp: keeps_upload listDocuments_def getDocument_def getDocumentChain_def
      downloadDocument_def extractDataObject_def listHistory_def deleteDocument_def
      deleteHistory_def bundleDocuments_def rebundleDocument_def archiveTimestamp_def Let_def
      intro!: keeps_ready keeps_with_delegation keeps_or_relay keeps_document_client keeps_intros
        keeps_primitives keeps_relays keeps_signflow_client)

lemma keeps_preview_routes:
  "keeps I (previewManifest v q)" "keeps I (previewPage v q)" "keeps I (previewText v q)"
  "keeps I (previewInnerManifest v q)" "keeps I (previewInnerPage v q)" "keeps I (previewInnerText v q)"
  by (auto simp: previewManifest_def previewPage_def previewText_def previewInnerManifest_def
      previewInnerPage_def previewInnerText_def
      intro!: keeps_ready keeps_with_delegation keeps_or_relay keeps_preview_client keeps_intros
        keeps_primitives keeps_relays)

end

end
