(* ===== verification/VerifyRoutes.thy ===== *)
theory VerifyRoutes
  imports SessionRoutes
begin

text \<open>
  \<open>routes/verify.go\<close> and \<open>audit/verify.go\<close>: the anonymous verification of a signed file.
  The admission check, the report normalizer and the recorder's delivery are parameters; what
  is modelled is the order of the checks, what each refusal answers, when the provider is
  asked, which evidence is left, and that the place in the in-flight gate is given back.
\<close>

section \<open>Evidence\<close>

definition verifyEventsPath :: string where "verifyEventsPath = ''/v1/verify-events''"
definition scopeVerifyAudit :: string where "scopeVerifyAudit = ''verify-audit:write''"
definition verifyPostTimeout :: duration where "verifyPostTimeout = 10 * second"

record verify_event =
  ve_ts :: string
  ve_ip :: string
  ve_user_agent :: string
  ve_size_bytes :: int
  ve_sha256 :: string
  ve_verdict :: string
  ve_correlation :: string
  ve_session :: string

definition verify_event_fields :: "verify_event field list" where
  "verify_event_fields = [
     str_field ''ts'' ve_ts ve_ts_update,
     str_omit ''ip'' ve_ip ve_ip_update,
     str_omit ''userAgent'' ve_user_agent ve_user_agent_update,
     int_field ''sizeBytes'' ve_size_bytes ve_size_bytes_update,
     str_omit ''sha256'' ve_sha256 ve_sha256_update,
     str_field ''verdict'' ve_verdict ve_verdict_update,
     str_omit ''correlationId'' ve_correlation ve_correlation_update,
     str_omit ''sessionId'' ve_session ve_session_update]"

definition enc_verify_event :: "verify_event \<Rightarrow> json" where
  "enc_verify_event = enc_struct verify_event_fields"

text \<open>
  The delivery runs in the background and its answer is only logged; the event stands where
  it is started.
\<close>

definition evidence_call :: "service \<Rightarrow> verify_event \<Rightarrow> svc_call" where
  "evidence_call c ev = \<lparr>sc_timeout = Some verifyPostTimeout, sc_audience = sv_audience c,
     sc_scope = scopeVerifyAudit, sc_method = ''POST'', sc_url = sv_base c @ verifyEventsPath,
     sc_content_type = [], sc_body = Doc (enc_verify_event ev)\<rparr>"

definition Record :: "env \<Rightarrow> verify_event \<Rightarrow> unit act" where
  "Record v ev = (case ap_verify_audit (app v) of
     None \<Rightarrow> skip
   | Some c \<Rightarrow> if sv_base c = [] then skip else emit (ESvc (evidence_call c ev)))"

definition recordVerify :: "env \<Rightarrow> request \<Rightarrow> string \<Rightarrow> int \<Rightarrow> string \<Rightarrow> string \<Rightarrow> string \<Rightarrow> unit act" where
  "recordVerify v q ip nbytes sha verdict sessionID = do {
     t \<leftarrow> now v;
     Record v \<lparr>ve_ts = rfc3339 v t, ve_ip = ip, ve_user_agent = rq_user_agent q,
       ve_size_bytes = nbytes, ve_sha256 = sha, ve_verdict = verdict,
       ve_correlation = rq_correlation q, ve_session = sessionID\<rparr> }"

section \<open>Answers\<close>

definition public_problem :: "string \<Rightarrow> int \<Rightarrow> string option \<Rightarrow> string option \<Rightarrow> string \<Rightarrow> web_error" where
  "public_problem c st title detail public = Problem c (Some st) title detail (Some public)"

definition verify_unavailable :: web_error where
  "verify_unavailable = problem ''err:verify:unavailable'' 503 ''verify not configured''"

text \<open>The UTF-8 bytes of the dash.\<close>

definition em_dash :: string where "em_dash = map char_of [226 :: nat, 128, 148]"

definition too_many :: web_error where
  "too_many = public_problem ''err:verify:tooManyRequests'' 429 (Some ''Too many requests'') None
     (''another verification is already running for this address '' @ em_dash
       @ '' wait for it to finish'')"

definition one_file_required :: web_error where
  "one_file_required = public_problem ''err:verify:invalidRequest'' 400 None None
     ''multipart/form-data with exactly one 'file' part is required''"

definition file_too_large :: web_error where
  "file_too_large = public_problem ''err:verify:fileTooLarge'' 413 (Some ''File too large'') None
     ''the file exceeds the size limit''"

definition unreadable :: "gerr \<Rightarrow> web_error" where
  "unreadable e = problem ''err:verify:invalidRequest'' 400 (case e of Text s \<Rightarrow> s | _ \<Rightarrow> [])"

definition not_admitted :: "docgate_error \<Rightarrow> web_error" where
  "not_admitted e = (case e of
     TooLarge \<Rightarrow> file_too_large
   | NoSignature \<Rightarrow> public_problem ''err:verify:notSigned'' 422 (Some ''Document is not signed'') None
       ''the document carries no signature to validate''
   | UnsupportedType \<Rightarrow> public_problem ''err:verify:unsupportedType'' 422
       (Some ''Unsupported file type'') None
       ''only a signed PDF or ASiC-E container (.pdf, .asice, .edoc, .sce) can be verified''
   | Malformed why \<Rightarrow> public_problem ''err:verify:malformed'' 422 (Some ''Malformed document'')
       (Some why) ''the file is not a well-formed signed document'')"

definition upstream_unavailable :: web_error where
  "upstream_unavailable = Problem ''err:upstream:unavailable'' (Some 502) None None None"

definition rejected_upstream :: "env \<Rightarrow> verify_result \<Rightarrow> web_error" where
  "rejected_upstream v r = (case parse_problem v (vr_report r) of
     Some down \<Rightarrow> Relayed (Some down) (app_name v) (if vr_status r \<ge> 500 then 502 else vr_status r)
   | None \<Rightarrow> if 400 \<le> vr_status r \<and> vr_status r < 500
       then public_problem ''err:verify:notValidatable'' 422 (Some ''Document cannot be validated'') None
              ''the validation provider could not process this document''
       else upstream_unavailable)"

definition unreadable_report :: web_error where
  "unreadable_report = problem ''err:upstream:unexpectedResponse'' 502
     ''the validation report could not be read''"

section \<open>The handler\<close>

definition hex_lower :: "nat \<Rightarrow> char" where
  "hex_lower n = char_of (if n < 10 then 48 + n else 87 + n)"

definition hex_encode :: "string \<Rightarrow> string" where
  "hex_encode s = concat (map (\<lambda>c. [hex_lower (code c div 16), hex_lower (code c mod 16)]) s)"

text \<open>The admitted file goes to the signing service; every outcome is answered and recorded.\<close>

definition verify_admitted :: "env \<Rightarrow> request \<Rightarrow> service \<Rightarrow> string \<Rightarrow> upload \<Rightarrow> string \<Rightarrow> string \<Rightarrow> unit act" where
  "verify_admitted v q c ip fh data sha = do {
     r \<leftarrow> Verify_Validate v c (up_filename fh) data;
     case r of
       Inl e \<Rightarrow> do {
         recordVerify v q ip (up_size fh) sha ''error'' [];
         ctx_error v upstream_unavailable }
     | Inr res \<Rightarrow>
         if \<not> ok_status (vr_status res) then do {
           recordVerify v q ip (up_size fh) sha ''upstream-rejected'' (vr_session res);
           ctx_error v (rejected_upstream v res) }
         else (case normalize_report v (vr_report res) of
           Inl e \<Rightarrow> do {
             recordVerify v q ip (up_size fh) sha ''unreadable-report'' (vr_session res);
             ctx_error v unreadable_report }
         | Inr a \<Rightarrow> do {
             t \<leftarrow> now v;
             recordVerify v q ip (up_size fh) sha (val_verdict a) (vr_session res);
             ctx_json (enc_validation v (a\<lparr>val_validated_at := rfc3339 v t\<rparr>)) }) }"

definition verify_data :: "env \<Rightarrow> request \<Rightarrow> service \<Rightarrow> string \<Rightarrow> upload \<Rightarrow> string \<Rightarrow> unit act" where
  "verify_data v q c ip fh data =
     (let mx = verify_max_bytes (cfg v); sha = hex_encode (sha256 v data) in
      case docgate_check v (up_filename fh) data mx of
        Some e \<Rightarrow> do {
          recordVerify v q ip (up_size fh) sha ''rejected'' [];
          ctx_error v (not_admitted e) }
      | None \<Rightarrow> verify_admitted v q c ip fh data sha)"

text \<open>
  Reading stops one byte past the cap (\<open>io.LimitReader\<close>); the sum is computed at 64 bits, and
  with a negative count nothing is read.
\<close>

definition read_limited :: "int \<Rightarrow> string \<Rightarrow> string" where
  "read_limited mx content = take (nat (wrap64 (mx + 1))) content"

definition verify_file :: "env \<Rightarrow> request \<Rightarrow> service \<Rightarrow> string \<Rightarrow> unit act" where
  "verify_file v q c ip = (case rq_form_files q of
     [fh] \<Rightarrow> (let mx = verify_max_bytes (cfg v) in
       if up_size fh > mx then ctx_error v file_too_large
       else case up_content fh of
         Inl e \<Rightarrow> ctx_error v (unreadable e)
       | Inr content \<Rightarrow>
           (let data = read_limited mx content in
            if int (length data) > mx then ctx_error v file_too_large
            else verify_data v q c ip fh data))
   | _ \<Rightarrow> ctx_error v one_file_required)"

definition release_gate :: "string \<Rightarrow> unit act" where
  "release_gate ip = modify (\<lambda>s. s\<lparr>gate := gate_release ip (gate s)\<rparr>)"

definition verifyDocument :: "env \<Rightarrow> request \<Rightarrow> unit act" where
  "verifyDocument v q = (case ap_verify (app v) of
     None \<Rightarrow> ctx_error v verify_unavailable
   | Some c \<Rightarrow> do {
       g \<leftarrow> gets gate;
       case gate_acquire (gate_max v) (verifyClientIP q) g of
         None \<Rightarrow> ctx_error v too_many
       | Some g' \<Rightarrow> do {
           modify (\<lambda>s. s\<lparr>gate := g'\<rparr>);
           verify_file v q c (verifyClientIP q);
           release_gate (verifyClientIP q) } })"

section \<open>The limiter in front and the event behind\<close>

text \<open>
  The framework's limiter refuses with 429 before the handler runs; \<open>edgeBlockEvents\<close> looks
  at the status of the finished response.
\<close>

definition limiter_key :: "request \<Rightarrow> string" where
  "limiter_key q = (if verifyClientIP q \<noteq> [] then verifyClientIP q else ''unknown'')"

definition limited_verify :: "env \<Rightarrow> request \<Rightarrow> unit act" where
  "limited_verify v q = do {
     tr \<leftarrow> gets trace;
     if rate_limited v tr (limiter_key q)
     then do { set_status 429; set_body (BError (Framework (Text ''rate limit exceeded''))) }
     else verifyDocument v q }"

definition edgeBlock :: "env \<Rightarrow> request \<Rightarrow> unit act" where
  "edgeBlock v q = (if sec_events v then emit (EEdgeBlock (verifyClientIP q) ''verify_rate_limit'') else skip)"

definition edgeBlockEvents :: "env \<Rightarrow> request \<Rightarrow> unit act \<Rightarrow> unit act" where
  "edgeBlockEvents v q next_handler = do {
     next_handler;
     st \<leftarrow> gets (\<lambda>s. rsp_status (rsp s));
     if st \<noteq> 429 then skip else edgeBlock v q }"

definition verify_route :: "env \<Rightarrow> request \<Rightarrow> unit act" where
  "verify_route v q = edgeBlockEvents v q (limited_verify v q)"

section \<open>Which calls a verification makes\<close>

definition same_but_rsp_trace :: "bff \<Rightarrow> bff \<Rightarrow> bool" where
  "same_but_rsp_trace s t \<longleftrightarrow> (\<exists>r tr. t = s\<lparr>rsp := r, trace := tr\<rparr>)"

lemma same_rsp: "same_but_rsp_trace s t \<Longrightarrow> same_but_rsp_trace s (t\<lparr>rsp := r\<rparr>)"
proof -
  assume "same_but_rsp_trace s t"
  then obtain r0 tr0 where "t = s\<lparr>rsp := r0, trace := tr0\<rparr>" by (auto simp: same_but_rsp_trace_def)
  then have "t\<lparr>rsp := r\<rparr> = s\<lparr>rsp := r, trace := tr0\<rparr>" by simp
  then show ?thesis by (auto simp: same_but_rsp_trace_def)
qed

lemma same_trace: "same_but_rsp_trace s t \<Longrightarrow> same_but_rsp_trace s (t\<lparr>trace := tr\<rparr>)"
proof -
  assume "same_but_rsp_trace s t"
  then obtain r0 tr0 where "t = s\<lparr>rsp := r0, trace := tr0\<rparr>" by (auto simp: same_but_rsp_trace_def)
  then have "t\<lparr>trace := tr\<rparr> = s\<lparr>rsp := r0, trace := tr\<rparr>" by simp
  then show ?thesis by (auto simp: same_but_rsp_trace_def)
qed

lemma same_refl: "same_but_rsp_trace s s"
  unfolding same_but_rsp_trace_def by (intro exI [of _ "rsp s"] exI [of _ "trace s"]) simp

text \<open>Everything between taking and giving back the place writes the response and the trace only.\<close>

lemma keeps_verify_file:
  "keeps (same_but_rsp_trace s) (verify_file v q c ip)"
proof -
  have ev: "keeps (same_but_rsp_trace s) (ask e f)" "keeps (same_but_rsp_trace s) (emit e)"
    "keeps (same_but_rsp_trace s) (ctx_error v w)" "keeps (same_but_rsp_trace s) (ctx_json j)"
    for e and f :: "event list \<Rightarrow> 'a" and w j
    by (auto intro!: keepsI simp: wp_simps ctx_json_def same_rsp same_trace)
  have rec: "keeps (same_but_rsp_trace s) (recordVerify v q ip n sha w d)" for n sha w d
    by (auto simp: recordVerify_def now_def Record_def intro!: keeps_intros ev split: option.split)
  have "keeps (same_but_rsp_trace s) (Verify_Validate v c n data)" for n data
    by (auto simp: Verify_Validate_def svc_request_def Let_def case_prod_beta intro!: keeps_intros ev)
  then show ?thesis
    by (auto simp: verify_file_def verify_data_def verify_admitted_def now_def Let_def
        intro!: keeps_intros ev rec split: list.split)
qed

lemma gate_verify_file: "gate (final (verify_file v q c ip) s) = gate s"
  using keeps_final [OF keeps_verify_file [of s v q c ip] same_refl]
  unfolding same_but_rsp_trace_def by (elim exE) simp

section \<open>What the route keeps\<close>

context event_invariant
begin

lemma keeps_recordVerify: "keeps I (recordVerify v q ip n sha w d)"
  by (auto simp: recordVerify_def Record_def
      intro!: keeps_intros keeps_primitives keeps_emit split: option.split)

lemma keeps_verify_route:
  assumes "\<And>s g. I s \<Longrightarrow> I (s\<lparr>gate := g\<rparr>)"
  shows "keeps I (verify_route v q)"
proof -
  have "keeps I (Verify_Validate v c n data)" for c n data
    by (auto simp: Verify_Validate_def svc_request_def Let_def case_prod_beta
        intro!: keeps_intros keeps_ask)
  then have "keeps I (verify_file v q c ip)" for c ip
    by (auto simp: verify_file_def verify_data_def verify_admitted_def Let_def
        intro!: keeps_intros keeps_primitives keeps_recordVerify split: list.split)
  then show ?thesis
    by (auto simp: verify_route_def edgeBlockEvents_def edgeBlock_def limited_verify_def verifyDocument_def
        release_gate_def assms
        intro!: keeps_intros keeps_primitives keeps_emit keeps_modify)
qed

end

end
