(* ===== verification/Router.thy ===== *)
theory Router
  imports Dashboard EnvelopeRoutes SigningRoutes DocumentRoutes VerifyRoutes
begin

text \<open>
  \<open>routes/router.go\<close> (the route table, split as \<open>Init\<close> groups it), \<open>app.go\<close> (which
  collaborators \<open>init\<close> builds), \<open>auditposter.go\<close>, and the process as a transition system:
  one step serves one request.
\<close>

section \<open>The route table\<close>

type_synonym handler = "env \<Rightarrow> request \<Rightarrow> unit act"

type_synonym route = "string \<times> string \<times> handler"

definition open_routes :: "route list" where
  "open_routes = [
     (''GET'', ''/healthz'', \<lambda>v q. healthz),
     (''GET'', ''/readyz'', \<lambda>v q. readyz v),
     (''POST'', ''/login/start'', loginStart),
     (''GET'', ''/login/callback'', loginCallback),
     (''GET'', ''/sign-in-methods'', \<lambda>v q. signInMethods v),
     (''POST'', ''/verify'', verify_route)]"

definition session_routes :: "route list" where
  "session_routes = [
     (''GET'', ''/me'', \<lambda>v q. me v),
     (''POST'', ''/session/refresh'', \<lambda>v q. refresh v),
     (''POST'', ''/logout'', logout)]"

definition document_routes :: "route list" where
  "document_routes = [
     (''GET'', ''/dashboard'', \<lambda>v q. dashboard v),
     (''GET'', ''/history'', listHistory),
     (''DELETE'', ''/history/{chainRoot}'', deleteHistory),
     (''POST'', ''/documents'', uploadDocument),
     (''GET'', ''/documents'', listDocuments),
     (''GET'', ''/documents/{id}'', getDocument),
     (''GET'', ''/documents/{id}/chain'', getDocumentChain),
     (''GET'', ''/documents/{id}/download'', downloadDocument),
     (''DELETE'', ''/documents/{id}'', deleteDocument),
     (''POST'', ''/documents/{id}/archive-timestamp'', archiveTimestamp),
     (''POST'', ''/documents/{id}/validate'', validateDocument),
     (''POST'', ''/documents/bundle'', bundleDocuments),
     (''POST'', ''/documents/{id}/rebundle'', rebundleDocument),
     (''GET'', ''/documents/{id}/data-objects/{name}'', extractDataObject)]"

definition preview_routes :: "route list" where
  "preview_routes = [
     (''GET'', ''/documents/{id}/preview'', previewManifest),
     (''GET'', ''/documents/{id}/preview/pages/{n}'', previewPage),
     (''GET'', ''/documents/{id}/preview/text'', previewText),
     (''GET'', ''/documents/{id}/data-objects/{name}/preview'', previewInnerManifest),
     (''GET'', ''/documents/{id}/data-objects/{name}/preview/pages/{n}'', previewInnerPage),
     (''GET'', ''/documents/{id}/data-objects/{name}/preview/text'', previewInnerText)]"

definition signing_routes :: "route list" where
  "signing_routes = [
     (''GET'', ''/signings/{jobId}/status'', signingStatus),
     (''POST'', ''/signings/{jobId}/client-signature'', clientSignature),
     (''POST'', ''/signings/{jobId}/abandon'', abandonSigning),
     (''GET'', ''/signatures/{sigId}/validation'', signatureValidation),
     (''GET'', ''/chain-free'', chainFree)]"

definition envelope_routes :: "route list" where
  "envelope_routes = [
     (''POST'', ''/envelopes'', createEnvelope),
     (''GET'', ''/envelopes'', listEnvelopes),
     (''GET'', ''/signing-tasks'', listSigningTasks),
     (''GET'', ''/envelopes/{id}'', getEnvelope),
     (''POST'', ''/envelopes/{id}/documents'', attachEnvelopeDocument),
     (''POST'', ''/envelopes/{id}/slots'', addEnvelopeSlot),
     (''POST'', ''/envelopes/{id}/send'', sendEnvelope),
     (''POST'', ''/envelopes/{id}/cancel'', cancelEnvelope),
     (''POST'', ''/envelopes/{id}/reopen'', reopenEnvelope),
     (''POST'', ''/envelopes/{id}/slots/{slot}/decline'', declineEnvelopeSlot),
     (''POST'', ''/envelopes/{id}/slots/{slot}/sign'', signEnvelopeSlot)]"

definition authed_routes :: "route list" where
  "authed_routes = session_routes @ document_routes @ preview_routes @ signing_routes @ envelope_routes"

definition guarded :: "route \<Rightarrow> route" where
  "guarded r = (case r of (m, p, h) \<Rightarrow> (m, p, \<lambda>v q. requireSession v q (h v q)))"

definition Init :: "route list" where
  "Init = open_routes @ map guarded authed_routes"

lemmas route_groups = session_routes_def document_routes_def preview_routes_def
  signing_routes_def envelope_routes_def

section \<open>Building the application\<close>

text \<open>Which collaborators \<open>init\<close> builds from the settings, once its libraries are set up.\<close>

definition client :: "bool \<Rightarrow> string \<Rightarrow> service \<Rightarrow> service option" where
  "client outbound base c = (if outbound \<and> base \<noteq> [] then Some c else None)"

definition build_app :: "configuration \<Rightarrow> app" where
  "build_app c = (let outb = OutboundEnabled c; audited = AccessAuditEnabled c \<and> outb in \<lparr>
     ap_documents = client outb (document_base_url c) (NewDocuments (document_base_url c) (document_audience c)),
     ap_envelope = client outb (envelope_base_url c) (NewEnvelope (envelope_base_url c) (envelope_audience c)),
     ap_signflow = client outb (signflow_base_url c) (NewSignflow (signflow_base_url c) (signflow_audience c)),
     ap_preview = client outb (preview_base_url c) (NewPreview (preview_base_url c) (preview_audience c)),
     ap_verify = client outb (signer_base_url c) (NewVerify (signer_base_url c) (signer_audience c)),
     ap_offered = client outb (signer_base_url c) (NewOffer (signer_base_url c) (signer_audience c)),
     ap_signin_url = NewSignInMethods (InternalURL c),
     ap_redis = RedisEnabled c,
     ap_answers_ttl = (if validation_cache_ttl c > 0 then Some (validation_cache_ttl c) else None),
     ap_audit = audited,
     ap_verify_audit = (if audited then Some \<lparr>sv_base = access_audit_url c,
                          sv_audience = access_audit_audience c\<rparr> else None)\<rparr>)"

text \<open>The process at its start: both stores are empty and nothing was asked.\<close>

definition boot :: bff where
  "boot = \<lparr>flows = Map.empty, sessions = Map.empty, answers = Map.empty, offered = never_asked,
     sign_in = never_asked, gate = Map.empty, cur_sid = [], cur_ses = zero_session, trace = [],
     rsp = no_response\<rparr>"

section \<open>Delivering an access record\<close>

definition access_records_url :: "string \<Rightarrow> string" where
  "access_records_url baseURL = trim_suffix baseURL ''/'' @ ''/v1/access-records''"

text \<open>
  On a request's context the outbound client posts it (\<open>PostJSON\<close>, with the audience, the scope,
  the address and the record); in the background the record was kept only if the answer is a 2xx.
\<close>

type_synonym post_json = "string \<Rightarrow> string \<Rightarrow> string \<Rightarrow> json \<Rightarrow> gerr + unit"

definition Post :: "env \<Rightarrow> post_json option \<Rightarrow> json \<Rightarrow> (gerr + unit) act" where
  "Post v ctx rec = (let url = access_records_url (access_audit_url (cfg v)) in case ctx of
     Some post \<Rightarrow> State_Monad.return
       (post (access_audit_audience (cfg v)) (access_audit_scope (cfg v)) url rec)
   | None \<Rightarrow> do {
       r \<leftarrow> svc_request v \<lparr>sc_timeout = None, sc_audience = access_audit_audience (cfg v),
              sc_scope = access_audit_scope (cfg v), sc_method = ''POST'', sc_url = url,
              sc_content_type = [], sc_body = Doc rec\<rparr>;
       State_Monad.return (case r of
         Inl e \<Rightarrow> Inl e
       | Inr x \<Rightarrow> if hr_status x div 100 \<noteq> 2
           then Inl (Text (''access-audit: POST '' @ url @ '' returned '' @ itoa (hr_status x)))
           else Inr ()) })"

section \<open>Serving requests\<close>

text \<open>A request finds a fresh response and no session resolved.\<close>

definition arrive :: "bff \<Rightarrow> bff" where
  "arrive s = s\<lparr>cur_sid := [], cur_ses := zero_session, rsp := no_response\<rparr>"

definition serve :: "env \<Rightarrow> handler \<Rightarrow> request \<Rightarrow> bff \<Rightarrow> bff" where
  "serve v h q s = final (h v q) (arrive s)"

text \<open>
  A request is routed by its method; \<open>HEAD\<close> and \<open>OPTIONS\<close> reach no handler of this table.
\<close>

inductive step :: "env \<Rightarrow> bff \<Rightarrow> bff \<Rightarrow> bool" for v where
  request: "(m, p, h) \<in> set Init \<Longrightarrow> rq_method q = m \<Longrightarrow> step v s (serve v h q s)"

inductive reach :: "env \<Rightarrow> bff \<Rightarrow> bool" for v where
  booted: "reach v boot"
| served: "reach v s \<Longrightarrow> step v s t \<Longrightarrow> reach v t"

inductive_cases stepE: "step v s t"

lemma reach_invariant:
  assumes "reach v s" "P boot"
    and "\<And>m p h q s. (m, p, h) \<in> set Init \<Longrightarrow> P s \<Longrightarrow> P (serve v h q s)"
  shows "P s"
  using assms(1)
proof (induction rule: reach.induct)
  case booted
  then show ?case by (rule assms(2))
next
  case (served s t)
  then show ?case using assms(3) by (auto elim!: stepE)
qed

section \<open>Every guarded handler delegates\<close>

lemma keeps_authed:
  assumes "(m, p, h) \<in> set authed_routes"
  shows "keeps (delegated sub old) (h v q)"
  using assms
  by (auto simp: authed_routes_def route_groups delegated.keeps_session_routes
      delegated.keeps_logout
      delegated.keeps_document_routes delegated.keeps_preview_routes delegated.keeps_signing_routes
      delegated.keeps_envelope_routes delegated.keeps_dashboard)

lemma wp_onBehalf_subject:
  "wp (onBehalf v) (\<lambda>r t. \<forall>obo. r = Some obo \<longrightarrow> ob_sub obo = ses_subject (cur_ses s)) s"
  using delegated.onBehalf_subject [of "ses_subject (cur_ses s)" "trace s" s v]
  by (auto simp: delegated_def calls_for_start elim: wp_mono)

lemma onBehalf_none: "answer (onBehalf v) s = None \<Longrightarrow>
  \<exists>e. rsp_body (rsp (final (onBehalf v) s)) = BError e"
  by (auto simp: onBehalf_def world_final split: sum.splits)

section \<open>The anonymous handlers act for nobody\<close>

definition no_calls :: "event list \<Rightarrow> bff \<Rightarrow> bool" where
  "no_calls old s \<longleftrightarrow> (\<exists>es. trace s = es @ old \<and> list_all (\<lambda>e. \<not> is_call e) es)"

lemma no_calls_event: "\<not> is_call e \<Longrightarrow> no_calls old s \<Longrightarrow> no_calls old (s\<lparr>trace := e # trace s\<rparr>)"
  by (auto simp: no_calls_def intro: exI [of _ "e # es" for es])

interpretation no_calls: open_invariant "no_calls old" "\<lambda>_. True" "\<lambda>_. True" for old
  proof unfold_locales
  show "is_sign_in e \<Longrightarrow> no_calls old s \<Longrightarrow> no_calls old (s\<lparr>trace := e # trace s\<rparr>)" for e s
    by (rule no_calls_event [OF sign_in_no_call])
qed (auto intro: no_calls_event simp: no_calls_def)

lemma no_calls_start: "no_calls (trace s) s"
  by (auto simp: no_calls_def)

lemma keeps_open:
  assumes "(m, p, h) \<in> set open_routes"
  shows "keeps (no_calls old) (h v q)"
  using assms
  by (auto simp: open_routes_def no_calls.keeps_loginStart
      no_calls.keeps_signInMethods no_calls.keeps_health no_calls_def
      intro!: no_calls.keeps_verify_route no_calls.keeps_loginCallback)

end
