(* ===== verification/Samples.thy ===== *)
theory Samples
  imports Router
begin

text \<open>
  One concrete environment and request, used to show that the hypotheses of the properties
  can hold.  The clock reads the number of events so far as seconds; randomness counts; the
  services answer 200 with an empty body.
\<close>

definition demo_sources :: sources where
  "demo_sources = \<lparr>
     src_env = (\<lambda>n. if n = ''POST_LOGIN_URL'' then ''https://portal.example/app''
       else if n = ''DOCUMENT_BASE_URL'' then ''http://document/''
       else if n = ''ENVELOPE_BASE_URL'' then ''http://envelope''
       else if n = ''SIGNFLOW_BASE_URL'' then ''http://signflow''
       else if n = ''SIGNER_BASE_URL'' then ''http://signer'' else []),
     src_secret = (\<lambda>n. None), src_duration = (\<lambda>s. None), src_int = (\<lambda>s. None)\<rparr>"

definition demo_cfg :: configuration where
  "demo_cfg = Bind_texts demo_sources ''https://auth.example''"

definition demo_app :: app where
  "demo_app = \<lparr>
     ap_documents = Some \<lparr>sv_base = ''http://document'', sv_audience = ''svc:document''\<rparr>,
     ap_envelope = Some \<lparr>sv_base = ''http://envelope'', sv_audience = ''svc:envelope''\<rparr>,
     ap_signflow = Some \<lparr>sv_base = ''http://signflow'', sv_audience = ''svc:signflow''\<rparr>,
     ap_preview = None,
     ap_verify = Some \<lparr>sv_base = ''http://signer'', sv_audience = ''svc:eparaksts-signer''\<rparr>,
     ap_offered = None, ap_signin_url = ''https://auth.example/.well-known/openid-configuration'',
     ap_redis = False, ap_answers_ttl = Some (5 * minute), ap_audit = False,
     ap_verify_audit = None\<rparr>"

definition empty_ok :: http_resp where
  "empty_ok = \<lparr>hr_status = 200, hr_header = (\<lambda>n. []), hr_body = Bytes []\<rparr>"

definition demo_tokens :: tokens where
  "demo_tokens = \<lparr>tk_access = ''at2'', tk_expires_in = 300, tk_refresh = ''rt2'', tk_capabilities = None\<rparr>"

definition demo_identity :: identity where
  "demo_identity = \<lparr>idn_subject = ''alice'', idn_name = ''Alice'', idn_given = [], idn_family = [],
     idn_loa = ''high'', idn_login_method = ''webEid'', idn_permitted = Some [''webEid'']\<rparr>"

definition demo_key :: pkcs8 where
  "demo_key = \<lparr>marshal_pkcs8 = (\<lambda>k. Inr k), parse_pkcs8 = (\<lambda>d. Inr (Some d))\<rparr>"

definition demo_cal :: calendar where
  "demo_cal = \<lparr>fmt_time = itoa, parse_time = (\<lambda>s. None)\<rparr>"

definition demo :: env where
  "demo = \<lparr>cfg = demo_cfg, app = demo_app, app_name = ''portal'',
     clock = (\<lambda>tr. unix_epoch + int (length tr) * second),
     random_token = (\<lambda>tr. Inr (replicate 43 (CHR ''a''))),
     generate_key = (\<lambda>tr. Inr ''key''), pkce = (\<lambda>tr. Inr (''verifier'', ''challenge'')),
     key_der = demo_key, sha256 = (\<lambda>s. s), cal = demo_cal, rfc3339 = itoa,
     obo_reply = (\<lambda>tr. Inr empty_ok), svc_reply = (\<lambda>tr. Inr empty_ok),
     discovery_reply = (\<lambda>tr. Inr [''webEid'']), exchange_reply = (\<lambda>tr. Inr demo_tokens),
     refresh_reply = (\<lambda>tr. Inr demo_tokens), identity_reply = (\<lambda>tr. Inr (Some demo_identity)),
     revoke_reply = (\<lambda>tr. None), redis_reply = (\<lambda>tr. RNil), check_issuer = (\<lambda>i. None),
     authorization_url = (\<lambda>r. ''https://auth.example/authorize''),
     browser_logout_url = (\<lambda>u m. ''https://auth.example/logout''),
     subject_from_token = (\<lambda>t. ''alice''), serial_from_token = (\<lambda>t. ''PNOLV-1''),
     login_method_of = (\<lambda>t. Inr ''webEid''), parse_problem = (\<lambda>b. None),
     idc_canonical = (\<lambda>c k. Inr c), idc_parse = (\<lambda>c. Inr (''NTR'', c \<noteq> ''NTRLV-1'')),
     idc_key = (\<lambda>c. c), docgate_check = (\<lambda>n d m. if d = ''pdf'' then None else Some NoSignature),
     normalize_report = (\<lambda>b. Inr zero_validation), dec_validation = (\<lambda>j. Some zero_validation),
     enc_validation = (\<lambda>x. JObj []), boundary = (\<lambda>tr. ''b''), swap_fields = (\<lambda>tr. False),
     code_status = (\<lambda>c. 401), framework_status = (\<lambda>e. 400), rate_limited = (\<lambda>tr k. False), sec_events = True\<rparr>"

definition demo_request :: request where
  "demo_request = \<lparr>rq_method = ''POST'',
     rq_cookie = (\<lambda>n. if n = ''__Host-portal_session'' then ''sid1'' else []),
     rq_header = (\<lambda>n. []), rq_tls = True, rq_development = False, rq_query = (\<lambda>n. None),
     rq_query_int = (\<lambda>n. Inr None), rq_query_bool = (\<lambda>n. Inr None), rq_param = (\<lambda>n. ''p1''),
     rq_param_int = (\<lambda>n. Inr 1), rq_path_param = (\<lambda>n. ''file''), rq_body = no_body,
     rq_form_file = Inl (Text ''body''), rq_form_files = [], rq_form = (\<lambda>n. None),
     rq_ip = Some ''192.0.2.1'', rq_user_agent = ''ua'', rq_correlation = ''c1''\<rparr>"

definition demo_session :: session where
  "demo_session = \<lparr>ses_key = ''a2V5'', ses_access_token = ''at1'', ses_access_expiry = 1000,
     ses_refresh_token = ''rt1'', ses_subject = ''alice'', ses_csrf = ''csrf1'', ses_capabilities = None\<rparr>"

definition signed_in :: bff where
  "signed_in = boot\<lparr>sessions := [''sid1'' \<mapsto> (Doc (enc_session demo_session), unix_epoch + 1000 * second)]\<rparr>"

lemmas demo_simps = demo_def demo_app_def demo_cfg_def demo_sources_def demo_request_def
  demo_session_def signed_in_def boot_def demo_key_def demo_cal_def demo_tokens_def
  demo_identity_def empty_ok_def

text \<open>Reading the settings of the sample, without unfolding the record.\<close>

lemma demo_cfg_simps [simp]:
  "cookie_name demo_cfg = ''portal_session''" "session_ttl demo_cfg = 12 * hour"
  "flow_ttl demo_cfg = 10 * minute" "post_login_url demo_cfg = ''https://portal.example/app''"
  "verify_max_bytes demo_cfg = 25 * 2 ^ 20" "verify_concurrent_per_ip demo_cfg = 1"
  "signing_return_base_url demo_cfg = []"
  by (simp_all add: demo_cfg_def demo_sources_def Bind_texts_def env_or_def)

lemma demo_fields [simp]:
  "cfg demo = demo_cfg" "app demo = demo_app" "ap_redis demo_app = False"
  "clock demo tr = unix_epoch + int (length tr) * second"
  "code_status demo cd = 401"
  by (simp_all add: demo_def demo_app_def)

lemma demo_cookie [simp]: "readCookie demo_request ''portal_session'' = ''sid1''"
  by (simp add: demo_request_def readCookie_def cookieName_def secureCookies_def hostPrefix_def)

lemma demo_session_found:
  "answer (GetSession demo ''sid1'') signed_in = Inr demo_session"
proof -
  have "wp (GetSession demo ''sid1'') (\<lambda>r t. r = Inr demo_session) signed_in"
    by (simp add: GetSession_def wp_mem_GetSession get_entry_def live_def signed_in_def boot_def
        second_def valid_session_def demo_session_def int64_def)
  then show ?thesis by (simp add: wp_answer)
qed

lemma demo_session_arrives:
  "answer (GetSession demo ''sid1'') (arrive signed_in) = Inr demo_session"
proof -
  have "wp (GetSession demo ''sid1'') (\<lambda>r t. r = Inr demo_session) (arrive signed_in)"
    by (simp add: GetSession_def wp_mem_GetSession get_entry_def live_def signed_in_def boot_def
        arrive_def second_def valid_session_def demo_session_def int64_def)
  then show ?thesis by (simp add: wp_answer)
qed

text \<open>The sample session acts with its token as it is.\<close>

lemma demo_fresh:
  assumes "cur_ses u = demo_session" "length (trace u) < 900"
  shows "answer (onBehalf demo) u = Some \<lparr>ob_sub = ''alice'', ob_token = ''at1''\<rparr> \<and>
    final (onBehalf demo) u = u\<lparr>trace := EClock # trace u\<rparr>"
  using assms
  by (simp add: onBehalf_def freshToken_def now_def world_final near_expiry_def Unix_def
      refreshLeeway_def second_def demo_session_def)

lemma demo_delegated:
  assumes "cur_ses u = demo_session" "length (trace u) < 900"
  shows "final (with_delegation demo h) u =
    final (h \<lparr>ob_sub = ''alice'', ob_token = ''at1''\<rparr>) (u\<lparr>trace := EClock # trace u\<rparr>)"
  using demo_fresh [OF assms] by (simp add: with_delegation_def final_bind)

lemma demo_services [simp]:
  "ap_documents demo_app \<noteq> None" "ap_envelope demo_app = Some \<lparr>sv_base = ''http://envelope'', sv_audience = ''svc:envelope''\<rparr>"
  "ap_signflow demo_app = Some \<lparr>sv_base = ''http://signflow'', sv_audience = ''svc:signflow''\<rparr>"
  "ap_preview demo_app = None"
  "obo_reply demo tr = Inr empty_ok" "hr_status empty_ok = 200" "hr_body empty_ok = Bytes []"
  by (simp_all add: demo_app_def demo_def empty_ok_def)

end
