(* ===== verification/SessionTheorems.thy ===== *)
theory SessionTheorems
  imports Samples
begin

text \<open>
  What the session surface guarantees: the anti-forgery gate, whose behalf a call is made on,
  the binding of a sign-in to its browser, and the tokens of a session.
\<close>

section \<open>The session gate\<close>

text \<open>
  C1. The anti-forgery gate: a state-changing request on a live session that does not echo the
  session's token is answered 403 and, where the framework has a sink for them, recorded as a
  security event; its handler does not run, whatever it is, and nothing else of the process
  changes.
\<close>

theorem csrf_gate:
  assumes "readCookie q (cookie_name (cfg v)) = sid" "sid \<noteq> []"
    and "answer (GetSession v sid) s = Inr x"
    and "stateChanging (rq_method q)" "ses_csrf x = [] \<or> rq_header q csrfHeader \<noteq> ses_csrf x"
  shows "\<exists>es. list_all (\<lambda>e. e = EClock \<or> e = ERedis (RGet (sessKey sid))) es \<and>
    final (requireSession v q h) s =
      s\<lparr>trace := (if sec_events v then [EAuthZDenied (ses_subject x)] else []) @ es @ trace s,
      rsp := (rsp s)\<lparr>rsp_status := 403, rsp_body := BError csrf_problem\<rparr>\<rparr>"
proof -
  have "csrf_refused q x" using assms(4,5) by (simp add: csrf_refused_def)
  then show ?thesis
    using final_GetSession [of v sid s] requireSession_refused [OF assms(1-3)]
    by (auto simp: world_final final_csrfDenied error_status_def csrf_problem_def problem_def)
qed

theorem csrf_gate_witness:
  "\<exists>es. list_all (\<lambda>e. e = EClock \<or> e = ERedis (RGet (sessKey ''sid1''))) es \<and>
    final (requireSession demo demo_request skip) signed_in =
      signed_in\<lparr>trace := (if sec_events demo then [EAuthZDenied (ses_subject demo_session)] else [])
        @ es @ trace signed_in,
      rsp := (rsp signed_in)\<lparr>rsp_status := 403, rsp_body := BError csrf_problem\<rparr>\<rparr>"
  by (rule csrf_gate [OF _ _ demo_session_found])
     (simp_all add: stateChanging_def demo_request_def demo_session_def readCookie_def
        cookieName_def secureCookies_def hostPrefix_def)

section \<open>On whose behalf calls are made\<close>

lemma guarded_calls:
  assumes "(m, p, h) \<in> set authed_routes" "EObo c \<in> set es"
    and "trace (final (requireSession v q (h v q)) s) = es @ trace s"
  shows "\<exists>x. answer (GetSession v (readCookie q (cookie_name (cfg v)))) s = Inr x \<and>
     \<not> csrf_refused q x \<and> oc_sub c = ses_subject x \<and> oc_token c \<noteq> []"
proof -
  let ?sid = "readCookie q (cookie_name (cfg v))"
  obtain es0 where g: "final (GetSession v ?sid) s = s\<lparr>trace := es0 @ trace s\<rparr>"
    and "list_all (\<lambda>e. e = EClock \<or> e = ERedis (RGet (sessKey ?sid))) es0"
    using final_GetSession by blast
  then have none: "EObo c \<notin> set es0" for c by (auto simp: list_all_iff)
  show ?thesis
  proof (cases "?sid = []")
    case True
    then show ?thesis using assms(2,3) by (simp add: requireSession_none world_final)
  next
    case False
    show ?thesis
    proof (cases "answer (GetSession v ?sid) s")
      case (Inl e)
      then show ?thesis using assms(2,3) none requireSession_lost [OF refl False Inl, of "h v q"]
        by (simp add: g world_final clearSessionCookies_def add_cookie_def)
    next
      case (Inr x)
      show ?thesis
      proof (cases "csrf_refused q x")
        case True
        then show ?thesis using assms(2,3) none requireSession_refused [OF refl False Inr True, of "h v q"]
          by (auto simp: g world_final final_csrfDenied)
      next
        case ok: False
        let ?u = "s\<lparr>trace := es0 @ trace s, cur_sid := ?sid, cur_ses := x\<rparr>"
        have "delegated (ses_subject x) (trace ?u) (final (h v q) ?u)"
          by (rule keeps_final [OF keeps_authed [OF assms(1)]]) (simp add: delegated_def calls_for_def)
        then have "call_for (ses_subject x) c"
          using assms(2,3) none requireSession_passed [OF refl False Inr ok, of "h v q"]
          by (auto simp: g delegated_def calls_for_def)
        then show ?thesis using Inr ok by (auto simp: call_for_def)
      qed
    qed
  qed
qed

lemma Init_cases:
  assumes "(m, p, h) \<in> set Init"
  obtains "(m, p, h) \<in> set open_routes"
  | h' where "(m, p, h') \<in> set authed_routes" "h = (\<lambda>v q. requireSession v q (h' v q))"
proof -
  have "(m, p, h) \<in> set open_routes \<or> (m, p, h) \<in> guarded ` set authed_routes"
    using assms by (simp only: Init_def set_append set_map Un_iff)
  then show thesis
  proof
    assume "(m, p, h) \<in> guarded ` set authed_routes"
    then obtain r where r: "r \<in> set authed_routes" "(m, p, h) = guarded r" by blast
    moreover obtain m' p' h' where "r = (m', p', h')" by (cases r)
    ultimately show thesis by (intro that(2) [of h']) (simp_all add: guarded_def)
  qed (rule that(1))
qed

text \<open>
  C2. Whatever route a request takes, every call the service makes on a person's behalf while
  serving it carries the subject of the live session its cookie names, and a token; and if the
  request changes state it has echoed that session's anti-forgery token.
\<close>

theorem calls_are_the_sessions:
  assumes "(m, p, h) \<in> set Init" "EObo c \<in> set es" "trace (serve v h q s) = es @ trace s"
  shows "\<exists>x. answer (GetSession v (readCookie q (cookie_name (cfg v)))) (arrive s) = Inr x \<and>
    oc_sub c = ses_subject x \<and> oc_token c \<noteq> [] \<and>
    (stateChanging (rq_method q) \<longrightarrow> ses_csrf x \<noteq> [] \<and> rq_header q csrfHeader = ses_csrf x)"
  using assms(1)
proof (cases rule: Init_cases)
  case 1
  then have "no_calls (trace (arrive s)) (final (h v q) (arrive s))"
    by (rule keeps_final [OF keeps_open no_calls_start])
  then show ?thesis using assms(2,3)
    by (auto simp: no_calls_def serve_def arrive_def list_all_iff)
next
  case (2 h')
  then show ?thesis
    using guarded_calls [OF 2(1) assms(2), of v q "arrive s"] assms(3)
    by (auto simp: serve_def arrive_def csrf_refused_def)
qed

definition get_request :: request where
  "get_request = demo_request\<lparr>rq_method := ''GET''\<rparr>"

lemma get_cookie [simp]: "readCookie get_request ''portal_session'' = ''sid1''"
  by (simp add: get_request_def demo_request_def readCookie_def cookieName_def secureCookies_def
      hostPrefix_def)

lemma demo_document_call:
  "\<exists>c es. EObo c \<in> set es \<and>
     trace (serve demo (\<lambda>v q. requireSession v q (getDocument v q)) get_request signed_in)
       = es @ trace signed_in"
proof -
  have "wp (GetSession demo ''sid1'') (\<lambda>_ t. t = (arrive signed_in)\<lparr>trace := [EClock]\<rparr>) (arrive signed_in)"
    by (simp add: GetSession_def wp_mem_GetSession signed_in_def boot_def arrive_def)
  then have g: "final (GetSession demo ''sid1'') (arrive signed_in) = (arrive signed_in)\<lparr>trace := [EClock]\<rparr>"
    by (simp only: wp_final)
  let ?u = "(arrive signed_in)\<lparr>trace := [EClock], cur_sid := ''sid1'', cur_ses := demo_session\<rparr>"
  have f: "answer (onBehalf demo) ?u = Some \<lparr>ob_sub = ''alice'', ob_token = ''at1''\<rparr>"
    "final (onBehalf demo) ?u = ?u\<lparr>trace := EClock # trace ?u\<rparr>"
    using demo_fresh [of ?u] by (simp_all add: arrive_def signed_in_def boot_def)
  have "\<not> csrf_refused get_request demo_session"
    by (simp add: csrf_refused_def stateChanging_def get_request_def)
  then have run: "serve demo (\<lambda>v q. requireSession v q (getDocument v q)) get_request signed_in
      = final (getDocument demo get_request) ?u"
    using requireSession_passed [of get_request demo "''sid1''" "arrive signed_in" demo_session]
    by (simp add: serve_def demo_session_arrives g)
  have "\<exists>c. trace (final (getDocument demo get_request) ?u) = EObo c # EClock # trace ?u"
    using f by (simp add: getDocument_def documentsReady_def demo_app_def with_delegation_def
        final_bind or_relay_trace Metadata_def doc_get_def doJSONOnBehalf_trace)
  then obtain c where "trace (final (getDocument demo get_request) ?u) = EObo c # EClock # trace ?u" ..
  then show ?thesis unfolding run
    by (intro exI [of _ c] exI [of _ "[EObo c, EClock, EClock]"]) (simp add: signed_in_def boot_def)
qed

theorem calls_are_the_sessions_witness:
  "\<exists>(c :: obo_call) x. answer (GetSession demo (readCookie get_request (cookie_name (cfg demo)))) (arrive signed_in) = Inr x \<and>
    oc_sub c = ses_subject x \<and> oc_token c \<noteq> [] \<and>
    (stateChanging (rq_method get_request) \<longrightarrow> ses_csrf x \<noteq> [] \<and> rq_header get_request csrfHeader = ses_csrf x)"
proof -
  obtain c es where c: "EObo c \<in> set es"
    and tr: "trace (serve demo (\<lambda>v q. requireSession v q (getDocument v q)) get_request signed_in) = es @ trace signed_in"
    using demo_document_call by blast
  have "(''GET'', ''/documents/{id}'', \<lambda>v q. requireSession v q (getDocument v q)) \<in> set Init"
    by (simp add: Init_def authed_routes_def document_routes_def guarded_def)
  from calls_are_the_sessions [OF this c tr] show ?thesis by (rule exI [of _ c])
qed

section \<open>The binding of a sign-in\<close>

text \<open>The part of the callback that runs once the return is found well-formed.\<close>

definition callback_ready :: "env \<Rightarrow> request \<Rightarrow> bool" where
  "callback_ready v q \<longleftrightarrow> check_issuer v (opt_text (rq_query q ''iss'')) = None \<and>
     opt_text (rq_query q ''error'') = [] \<and> opt_text (rq_query q ''code'') \<noteq> [] \<and>
     opt_text (rq_query q ''state'') \<noteq> [] \<and> browserBinding q \<noteq> []"

definition callback_key :: "env \<Rightarrow> request \<Rightarrow> string" where
  "callback_key v q = FlowKey (sha256 v) (opt_text (rq_query q ''state'')) (browserBinding q)"

lemma callback_refused: "\<not> callback_ready v q \<Longrightarrow> \<exists>mk. loginCallback v q = redirectWithError v mk"
  unfolding callback_ready_def loginCallback_def by metis

lemma callback_not_ready:
  "\<not> callback_ready v q \<Longrightarrow> \<exists>r. final (loginCallback v q) s = s\<lparr>rsp := r\<rparr>"
  using callback_refused [of v q] answers_only_redirect [of v] by (auto simp: answers_only_def)

lemma callback_run:
  assumes "callback_ready v q"
  shows "final (loginCallback v q) s = (case answer (TakeFlow v (callback_key v q)) s of
      Inl e \<Rightarrow> final (redirectWithError v ''expired'') (final (TakeFlow v (callback_key v q)) s)
    | Inr f \<Rightarrow> final (finish_login v q (opt_text (rq_query q ''code'')) f)
                 (final (TakeFlow v (callback_key v q)) s))"
  using assms
  by (simp add: callback_ready_def loginCallback_def callback_key_def final_bind split: sum.split)

text \<open>
  A return of the authorization whose browser holds no sign-in binding changes nothing and
  asks nothing: no parked flow is taken, no code is redeemed, no session is stored; the answer
  is all there is.
\<close>

lemma binding_required:
  "browserBinding q = [] \<Longrightarrow> \<exists>r. final (loginCallback v q) s = s\<lparr>rsp := r\<rparr>"
  by (rule callback_not_ready) (simp add: callback_ready_def)

lemma binding_required_witness:
  "\<exists>r. final (loginCallback demo demo_request) signed_in = signed_in\<lparr>rsp := r\<rparr>"
  by (rule binding_required)
     (simp add: browserBinding_def demo_request_def readCookie_def cookieName_def
        secureCookies_def signInCookieName_def hostPrefix_def raw_encoded_len_def bindingBytes_def)

text \<open>A browser with a binding of 43 characters, that is 32 bytes.\<close>

definition bound_request :: request where
  "bound_request = demo_request\<lparr>rq_cookie := (\<lambda>n. if n = ''__Host-portal_signin''
     then replicate 43 (CHR ''A'') else []),
     rq_query := (\<lambda>n. if n = ''state'' then Some ''st'' else if n = ''code'' then Some ''co'' else None)\<rparr>"

lemma bound_binding: "browserBinding bound_request = replicate 43 (CHR ''A'')"
  by code_simp

lemma TakeFlow_rsp: "rsp (final (TakeFlow v key) s) = rsp s"
  by (simp add: TakeFlow_def mem_TakeFlow_def redis_TakeFlow_def redis_def now_def world_final
      split: option.split)

text \<open>The exchange a taken flow leads to, and its event.\<close>

definition exchange_event :: "string \<Rightarrow> flow \<Rightarrow> pkey \<Rightarrow> event" where
  "exchange_event ac f key = EExchange key ac (fl_verifier f)
     \<lparr>tc_nonce = fl_nonce f, tc_acr_values = fl_acr_values f, tc_max_age = Some 0,
      tc_started = fl_started f\<rparr>"

lemma finish_login_cookies:
  assumes "rsp_cookies (rsp (final (finish_login v q ac f) u)) \<noteq> rsp_cookies (rsp u)"
  shows "\<exists>key tk. ParseKey (key_der v) (fl_key f) = Inr key \<and>
    exchange_reply v (exchange_event ac f key # trace u) = Inr tk"
proof (cases "ParseKey (key_der v) (fl_key f)")
  case (Inl e)
  then show ?thesis using assms by (simp add: finish_login_def lift_text_def final_redirect)
next
  case (Inr key)
  then show ?thesis using assms
    by (cases "exchange_reply v (exchange_event ac f key # trace u)")
       (simp_all add: finish_login_def lift_text_def exchangeFlow_def world_final freshOnly_def
         exchange_event_def)
qed

text \<open>
  C9. A session is established only by a completed exchange: when the callback sets a cookie,
  the browser held a binding, the flow parked under it was taken, and the code was redeemed
  with that flow's verifier, nonce, named methods and start, admitting no earlier
  authentication, and the Auth Service answered tokens.
\<close>

theorem session_needs_exchange:
  assumes "rsp_cookies (rsp (final (loginCallback v q) s)) \<noteq> rsp_cookies (rsp s)"
  shows "browserBinding q \<noteq> [] \<and> (\<exists>f key tk.
    answer (TakeFlow v (callback_key v q)) s = Inr f \<and> ParseKey (key_der v) (fl_key f) = Inr key \<and>
    exchange_reply v (exchange_event (opt_text (rq_query q ''code'')) f key
       # trace (final (TakeFlow v (callback_key v q)) s)) = Inr tk)"
proof -
  let ?T = "TakeFlow v (callback_key v q)"
  have ready: "callback_ready v q"
  proof (rule ccontr)
    assume "\<not> callback_ready v q"
    then obtain mk where "loginCallback v q = redirectWithError v mk" using callback_refused by blast
    then show False using assms by (simp add: final_redirect)
  qed
  obtain f where f: "answer ?T s = Inr f"
    using assms by (cases "answer ?T s") (auto simp: callback_run [OF ready] final_redirect TakeFlow_rsp)
  have "rsp_cookies (rsp (final (finish_login v q (opt_text (rq_query q ''code'')) f) (final ?T s)))
      \<noteq> rsp_cookies (rsp (final ?T s))"
    using assms f by (simp add: callback_run [OF ready] TakeFlow_rsp)
  from finish_login_cookies [OF this] show ?thesis
    using ready f by (auto simp: callback_ready_def)
qed

definition demo_flow :: flow where
  "demo_flow = \<lparr>fl_key = ''a2V5'', fl_verifier = ''verifier'', fl_nonce = ''n1'',
     fl_acr_values = [], fl_started = 0\<rparr>"

definition parked :: bff where
  "parked = boot\<lparr>flows := [callback_key demo bound_request
     \<mapsto> (Doc (enc_flow demo_cal demo_flow), unix_epoch + 600 * second)]\<rparr>"

lemma demo_key_parses: "ParseKey demo_key ''a2V5'' = Inr ''key''"
  by code_simp

lemma bound_ready: "callback_ready demo bound_request"
proof -
  have "browserBinding bound_request \<noteq> []" by (simp add: bound_binding)
  then show ?thesis
    by (simp add: callback_ready_def opt_text_def) (simp add: bound_request_def demo_request_def demo_def)
qed

lemma parked_taken:
  "answer (TakeFlow demo (callback_key demo bound_request)) parked = Inr demo_flow"
  by (simp add: TakeFlow_def mem_TakeFlow_def now_def world_final parked_def live_def boot_def
      second_def) (simp add: demo_def demo_flow_def valid_flow_def)

lemma demo_login_cookies:
  "rsp_cookies (rsp (final (loginCallback demo bound_request) parked)) \<noteq> rsp_cookies (rsp parked)"
  by (simp add: callback_run [OF bound_ready] parked_taken finish_login_def)
     (simp add: demo_def demo_flow_def demo_key_parses lift_text_def exchangeFlow_def
       establishSession_def RandomToken_def on_ok_def now_def PutSession_def demo_app_def
       mem_PutSession_def setSessionCookies_def add_cookie_def ctx_redirect_def set_status_def
       set_body_def world_final TakeFlow_rsp)

theorem session_needs_exchange_witness:
  "browserBinding bound_request \<noteq> [] \<and> (\<exists>f key tk.
    answer (TakeFlow demo (callback_key demo bound_request)) parked = Inr f \<and>
    ParseKey (key_der demo) (fl_key f) = Inr key \<and>
    exchange_reply demo (exchange_event (opt_text (rq_query bound_request ''code'')) f key
       # trace (final (TakeFlow demo (callback_key demo bound_request)) parked)) = Inr tk)"
  by (rule session_needs_exchange [OF demo_login_cookies])

end
