(* ===== verification/StoreContract.thy ===== *)
theory StoreContract
  imports Store
begin

text \<open>
  What the session store promises, whichever backend it has.  The specification \<open>spec_step\<close> is a
  pair of maps with expiring entries; the locale \<open>store_machine\<close> says that a machine of
  computations implements it, one operation at a time, through a view of the process state.
  The in-memory store, the Redis store and the dispatch between them are its instances.

  Redis is outside the repository: \<open>redis_server\<close> states what its documentation says of the
  commands used (a value that was set is read until its lifetime has passed, \<open>GETDEL\<close> reads and
  deletes, \<open>DEL\<close> deletes), as a function of the commands in the trace and of the server's clock.
\<close>

section \<open>The specification\<close>

datatype store_op = OpPutFlow string flow | OpTakeFlow string
  | OpPutSession string session | OpGetSession string | OpDeleteSession string

datatype store_out = Stored "gerr + unit" | TookFlow "gerr + flow" | GotSession "gerr + session"

type_synonym contents = "(string \<rightharpoonup> entry) \<times> (string \<rightharpoonup> entry)"

definition read_entry :: "(json \<Rightarrow> 'a \<Rightarrow> 'a option) \<Rightarrow> 'a \<Rightarrow> gotime \<Rightarrow> string
    \<Rightarrow> (string \<rightharpoonup> entry) \<Rightarrow> gerr + 'a" where
  "read_entry dec zero t k m = (case get_entry t k m of
     None \<Rightarrow> Inl NotFound | Some b \<Rightarrow> decode dec zero b)"

fun spec_step :: "calendar \<Rightarrow> duration \<Rightarrow> duration \<Rightarrow> gotime \<Rightarrow> store_op \<Rightarrow> contents
    \<Rightarrow> store_out \<times> contents" where
  "spec_step c fl sl t (OpPutFlow k f) (fm, sm) =
     (Stored (Inr ()), put_entry fl t k (Doc (enc_flow c f)) fm, sm)"
| "spec_step c fl sl t (OpTakeFlow k) (fm, sm) =
     (TookFlow (read_entry (dec_flow c) zero_flow t k fm), fm(k := None), sm)"
| "spec_step c fl sl t (OpPutSession k x) (fm, sm) =
     (Stored (Inr ()), fm, put_entry sl t k (Doc (enc_session x)) sm)"
| "spec_step c fl sl t (OpGetSession k) (fm, sm) =
     (GotSession (read_entry dec_session zero_session t k sm), fm, sm)"
| "spec_step c fl sl t (OpDeleteSession k) (fm, sm) = (Stored (Inr ()), fm, sm(k := None))"

text \<open>The entry an operation may change.\<close>

fun touches_session :: "store_op \<Rightarrow> string \<Rightarrow> bool" where
  "touches_session (OpPutSession k x) sid = (k = sid)"
| "touches_session (OpDeleteSession k) sid = (k = sid)"
| "touches_session _ sid = False"

fun touches_flow :: "store_op \<Rightarrow> string \<Rightarrow> bool" where
  "touches_flow (OpPutFlow k f) key = (k = key)"
| "touches_flow (OpTakeFlow k) key = (k = key)"
| "touches_flow _ key = False"

lemma spec_frame:
  "\<not> touches_session p sid \<Longrightarrow> snd (snd (spec_step c fl sl t p m)) sid = snd m sid"
  "\<not> touches_flow p key \<Longrightarrow> fst (snd (spec_step c fl sl t p m)) key = fst m key"
  by (cases m; cases p; simp add: put_entry_def)+

section \<open>A machine that implements it\<close>

definition run_ops :: "(store_op \<Rightarrow> store_out act) \<Rightarrow> store_op list \<Rightarrow> bff \<Rightarrow> bff" where
  "run_ops f ps s = fold (\<lambda>p s. final (f p) s) ps s"

lemma run_ops_simps [simp]:
  "run_ops f [] s = s" "run_ops f (p # ps) s = run_ops f ps (final (f p) s)"
  by (simp_all add: run_ops_def)

locale store_machine =
  fixes perform :: "store_op \<Rightarrow> store_out act" and view :: "bff \<Rightarrow> contents"
    and time :: "store_op \<Rightarrow> bff \<Rightarrow> gotime" and cal :: calendar and fttl sttl :: duration
  assumes step: "(answer (perform p) s, view (final (perform p) s))
      = spec_step cal fttl sttl (time p s) p (view s)"
begin

lemma step_view: "view (final (perform p) s) = snd (spec_step cal fttl sttl (time p s) p (view s))"
  and step_out: "answer (perform p) s = fst (spec_step cal fttl sttl (time p s) p (view s))"
  using step [of p s] by (auto simp: prod_eq_iff)

lemma run_keeps_session:
  "\<forall>p \<in> set ps. \<not> touches_session p sid \<Longrightarrow> snd (view (run_ops perform ps s)) sid = snd (view s) sid"
  by (induction ps arbitrary: s) (simp_all add: step_view spec_frame)

lemma run_keeps_flow:
  "\<forall>p \<in> set ps. \<not> touches_flow p key \<Longrightarrow> fst (view (run_ops perform ps s)) key = fst (view s) key"
  by (induction ps arbitrary: s) (simp_all add: step_view spec_frame)

text \<open>A session is read back as it was stored last, until its lifetime has passed.\<close>

lemma session_read_back:
  assumes "valid_session x" "\<forall>p \<in> set ps. \<not> touches_session p sid"
    and "t = run_ops perform ps (final (perform (OpPutSession sid x)) s)"
  shows "answer (perform (OpGetSession sid)) t = GotSession
    (if time (OpGetSession sid) t \<le> time (OpPutSession sid x) s + sttl then Inr x else Inl NotFound)"
proof -
  have "snd (view t) sid = Some (Doc (enc_session x), time (OpPutSession sid x) s + sttl)"
    using run_keeps_session [OF assms(2)] assms(3)
    by (cases "view s") (simp add: step_view put_entry_def)
  then show ?thesis using assms(1)
    by (cases "view t") (simp add: step_out read_entry_def get_entry_def live_def)
qed

lemma session_gone:
  assumes "\<forall>p \<in> set ps. \<not> touches_session p sid" "t = run_ops perform ps (final (perform (OpDeleteSession sid)) s)"
  shows "answer (perform (OpGetSession sid)) t = GotSession (Inl NotFound)"
proof -
  have "snd (view t) sid = None"
    using run_keeps_session [OF assms(1)] assms(2) by (cases "view s") (simp add: step_view)
  then show ?thesis by (cases "view t") (simp add: step_out read_entry_def get_entry_def)
qed

text \<open>A parked flow is taken as it was parked, until its lifetime has passed, and once.\<close>

lemma flow_taken:
  assumes "valid_flow cal f" "\<forall>p \<in> set ps. \<not> touches_flow p key"
    and "t = run_ops perform ps (final (perform (OpPutFlow key f)) s)"
  shows "answer (perform (OpTakeFlow key)) t = TookFlow
    (if time (OpTakeFlow key) t \<le> time (OpPutFlow key f) s + fttl then Inr f else Inl NotFound)"
proof -
  have "fst (view t) key = Some (Doc (enc_flow cal f), time (OpPutFlow key f) s + fttl)"
    using run_keeps_flow [OF assms(2)] assms(3)
    by (cases "view s") (simp add: step_view put_entry_def)
  then show ?thesis using assms(1)
    by (cases "view t") (simp add: step_out read_entry_def get_entry_def live_def)
qed

lemma flow_taken_once:
  assumes "\<forall>p \<in> set ps. \<not> touches_flow p key" "t = run_ops perform ps (final (perform (OpTakeFlow key)) s)"
  shows "answer (perform (OpTakeFlow key)) t = TookFlow (Inl NotFound)"
proof -
  have "fst (view t) key = None"
    using run_keeps_flow [OF assms(1)] assms(2) by (cases "view s") (simp add: step_view)
  then show ?thesis by (cases "view t") (simp add: step_out read_entry_def get_entry_def)
qed

end

section \<open>The in-memory store\<close>

fun memory_op :: "env \<Rightarrow> store_op \<Rightarrow> store_out act" where
  "memory_op v (OpPutFlow k f) = do { r \<leftarrow> mem_PutFlow v k f; State_Monad.return (Stored r) }"
| "memory_op v (OpTakeFlow k) = do { r \<leftarrow> mem_TakeFlow v k; State_Monad.return (TookFlow r) }"
| "memory_op v (OpPutSession k x) = do { r \<leftarrow> mem_PutSession v k x; State_Monad.return (Stored r) }"
| "memory_op v (OpGetSession k) = do { r \<leftarrow> mem_GetSession v k; State_Monad.return (GotSession r) }"
| "memory_op v (OpDeleteSession k) = do { r \<leftarrow> mem_DeleteSession k; State_Monad.return (Stored r) }"

definition memory_view :: "bff \<Rightarrow> contents" where
  "memory_view s = (flows s, sessions s)"

definition memory_time :: "env \<Rightarrow> bff \<Rightarrow> gotime" where
  "memory_time v s = clock v (EClock # trace s)"

interpretation memory: store_machine "memory_op v" memory_view "\<lambda>_. memory_time v" "cal v"
  "flow_ttl (cfg v)" "session_ttl (cfg v)" for v
proof unfold_locales
  fix p s
  show "(answer (memory_op v p) s, memory_view (final (memory_op v p) s))
      = spec_step (cal v) (flow_ttl (cfg v)) (session_ttl (cfg v)) (memory_time v s) p (memory_view s)"
    by (cases p) (auto simp: memory_view_def memory_time_def mem_PutFlow_def mem_TakeFlow_def
        mem_PutSession_def mem_GetSession_def mem_DeleteSession_def now_def world_final read_entry_def
        get_entry_def split: option.split)
qed

section \<open>The Redis store\<close>

text \<open>
  What Redis holds after the commands of the trace: a command that was answered with an error has
  changed nothing.  \<open>rp\<close> is the function that answers, \<open>rt\<close> the clock of the server.
\<close>

definition accepted :: "redis_out \<Rightarrow> bool" where
  "accepted r \<longleftrightarrow> (case r of RErr _ \<Rightarrow> False | _ \<Rightarrow> True)"

lemma accepted_simps [simp]: "accepted ROk" "accepted RNil" "accepted (RBytes b)" "\<not> accepted (RErr w)"
  by (simp_all add: accepted_def)

fun redis_db :: "(event list \<Rightarrow> redis_out) \<Rightarrow> (event list \<Rightarrow> gotime) \<Rightarrow> event list \<Rightarrow> (string \<rightharpoonup> entry)" where
  "redis_db rp rt [] = Map.empty"
| "redis_db rp rt (e # tr) = (if \<not> accepted (rp (e # tr)) then redis_db rp rt tr else case e of
     ERedis (RSet k b ttl) \<Rightarrow> put_entry ttl (rt (e # tr)) k b (redis_db rp rt tr)
   | ERedis (RGetDel k) \<Rightarrow> (redis_db rp rt tr)(k := None)
   | ERedis (RDel k) \<Rightarrow> (redis_db rp rt tr)(k := None)
   | _ \<Rightarrow> redis_db rp rt tr)"

definition redis_read :: "gotime \<Rightarrow> string \<Rightarrow> (string \<rightharpoonup> entry) \<Rightarrow> redis_out" where
  "redis_read t k m = (case get_entry t k m of None \<Rightarrow> RNil | Some b \<Rightarrow> RBytes b)"

definition redis_server :: "(event list \<Rightarrow> gotime) \<Rightarrow> event list \<Rightarrow> redis_out" where
  "redis_server rt tr = (case tr of
     ERedis (RGet k) # old \<Rightarrow> redis_read (rt tr) k (redis_db (\<lambda>_. ROk) rt old)
   | ERedis (RGetDel k) # old \<Rightarrow> redis_read (rt tr) k (redis_db (\<lambda>_. ROk) rt old)
   | _ \<Rightarrow> ROk)"

text \<open>That server executes every command it is sent.\<close>

lemma server_accepts [simp]: "accepted (redis_server rt tr)"
  by (simp add: redis_server_def redis_read_def split: list.split event.split redis_cmd.split option.split)

lemma db_server: "redis_db (redis_server rt) rt tr = redis_db (\<lambda>_. ROk) rt tr"
  by (induction tr) (simp_all split: event.split redis_cmd.split)

fun redis_op :: "env \<Rightarrow> store_op \<Rightarrow> store_out act" where
  "redis_op v (OpPutFlow k f) = do { r \<leftarrow> redis_PutFlow v k f; State_Monad.return (Stored r) }"
| "redis_op v (OpTakeFlow k) = do { r \<leftarrow> redis_TakeFlow v k; State_Monad.return (TookFlow r) }"
| "redis_op v (OpPutSession k x) = do { r \<leftarrow> redis_PutSession v k x; State_Monad.return (Stored r) }"
| "redis_op v (OpGetSession k) = do { r \<leftarrow> redis_GetSession v k; State_Monad.return (GotSession r) }"
| "redis_op v (OpDeleteSession k) = do { r \<leftarrow> redis_DeleteSession v k; State_Monad.return (Stored r) }"

fun redis_command :: "env \<Rightarrow> store_op \<Rightarrow> redis_cmd" where
  "redis_command v (OpPutFlow k f) = RSet (flowKey k) (Doc (enc_flow (cal v) f)) (flow_ttl (cfg v))"
| "redis_command v (OpTakeFlow k) = RGetDel (flowKey k)"
| "redis_command v (OpPutSession k x) = RSet (sessKey k) (Doc (enc_session x)) (session_ttl (cfg v))"
| "redis_command v (OpGetSession k) = RGet (sessKey k)"
| "redis_command v (OpDeleteSession k) = RDel (sessKey k)"

definition redis_view :: "(event list \<Rightarrow> redis_out) \<Rightarrow> (event list \<Rightarrow> gotime) \<Rightarrow> bff \<Rightarrow> contents" where
  "redis_view rp rt s =
     ((\<lambda>k. redis_db rp rt (trace s) (flowKey k)), (\<lambda>k. redis_db rp rt (trace s) (sessKey k)))"

definition redis_time :: "env \<Rightarrow> (event list \<Rightarrow> gotime) \<Rightarrow> store_op \<Rightarrow> bff \<Rightarrow> gotime" where
  "redis_time v rt p s = rt (ERedis (redis_command v p) # trace s)"

text \<open>The key spaces of flows and sessions do not meet.\<close>

lemma key_spaces [simp]:
  "flowKey k = flowKey k' \<longleftrightarrow> k = k'" "sessKey k = sessKey k' \<longleftrightarrow> k = k'"
  "flowKey k \<noteq> sessKey k'" "sessKey k \<noteq> flowKey k'"
  by (simp_all add: flowKey_def sessKey_def)

definition served :: "env \<Rightarrow> (event list \<Rightarrow> gotime) \<Rightarrow> env" where
  "served v rt = v\<lparr>redis_reply := redis_server rt\<rparr>"

lemma served_fields [simp]:
  "cal (served v rt) = cal v" "cfg (served v rt) = cfg v" "redis_reply (served v rt) = redis_server rt"
  "app (served v rt) = app v" "clock (served v rt) = clock v"
  by (simp_all add: served_def)

lemma served_self: "redis_reply v = redis_server rt \<Longrightarrow> served v rt = v"
  by (simp add: served_def flip: env.surjective)

interpretation redis: store_machine "redis_op (served v rt)" "redis_view (redis_server rt) rt" "redis_time v rt" "cal v"
  "flow_ttl (cfg v)" "session_ttl (cfg v)" for v rt
proof unfold_locales
  fix p s
  show "(answer (redis_op (served v rt) p) s, redis_view (redis_server rt) rt (final (redis_op (served v rt) p) s))
      = spec_step (cal v) (flow_ttl (cfg v)) (session_ttl (cfg v)) (redis_time v rt p s) p (redis_view (redis_server rt) rt s)"
    by (cases p) (auto simp: db_server redis_view_def redis_time_def redis_PutFlow_def redis_TakeFlow_def
        redis_PutSession_def redis_GetSession_def redis_DeleteSession_def redis_def world_final
        redis_server_def redis_read_def redis_err_def redis_bytes_def read_entry_def put_entry_def
        get_entry_def fun_eq_iff split: option.split)
qed

section \<open>The store of the application\<close>

fun app_store_op :: "env \<Rightarrow> store_op \<Rightarrow> store_out act" where
  "app_store_op v (OpPutFlow k f) = do { r \<leftarrow> PutFlow v k f; State_Monad.return (Stored r) }"
| "app_store_op v (OpTakeFlow k) = do { r \<leftarrow> TakeFlow v k; State_Monad.return (TookFlow r) }"
| "app_store_op v (OpPutSession k x) = do { r \<leftarrow> PutSession v k x; State_Monad.return (Stored r) }"
| "app_store_op v (OpGetSession k) = do { r \<leftarrow> GetSession v k; State_Monad.return (GotSession r) }"
| "app_store_op v (OpDeleteSession k) = do { r \<leftarrow> DeleteSession v k; State_Monad.return (Stored r) }"

definition store_view :: "env \<Rightarrow> (event list \<Rightarrow> gotime) \<Rightarrow> bff \<Rightarrow> contents" where
  "store_view v rt = (if ap_redis (app v) then redis_view (redis_reply v) rt else memory_view)"

definition store_time :: "env \<Rightarrow> (event list \<Rightarrow> gotime) \<Rightarrow> store_op \<Rightarrow> bff \<Rightarrow> gotime" where
  "store_time v rt p s = (if ap_redis (app v) then redis_time v rt p s else memory_time v s)"

lemma app_store_op_backend:
  "app_store_op v p = (if ap_redis (app v) then redis_op v p else memory_op v p)"
  by (cases p) (simp_all add: PutFlow_def TakeFlow_def PutSession_def GetSession_def DeleteSession_def)

interpretation store: store_machine "app_store_op (served v rt)" "store_view (served v rt) rt" "store_time v rt" "cal v"
  "flow_ttl (cfg v)" "session_ttl (cfg v)" for v rt
proof unfold_locales
  fix p s
  show "(answer (app_store_op (served v rt) p) s, store_view (served v rt) rt (final (app_store_op (served v rt) p) s))
      = spec_step (cal v) (flow_ttl (cfg v)) (session_ttl (cfg v)) (store_time v rt p s) p (store_view (served v rt) rt s)"
    using redis.step [of v rt p s] memory.step [of "served v rt" p s]
    by (simp add: app_store_op_backend store_view_def store_time_def memory_time_def)
qed

end
