(* ===== verification/FlowTheorems.thy ===== *)
theory FlowTheorems
  imports SessionTheorems StoreContract
begin

text \<open>
  The properties of the session store, for both backends, and what they give to the sign-in: a
  parked flow is taken once, by the browser that started it.
\<close>

section \<open>Both backends implement the specification\<close>

text \<open>\<open>rt\<close> is the clock of the Redis server; nothing is asked of it when there is none.\<close>

definition reliable :: "env \<Rightarrow> (event list \<Rightarrow> gotime) \<Rightarrow> bool" where
  "reliable v rt \<longleftrightarrow> (ap_redis (app v) \<longrightarrow> redis_reply v = redis_server rt)"

lemma reliable_served:
  assumes "reliable v rt"
  shows "app_store_op (served v rt) = app_store_op v" "store_view (served v rt) rt = store_view v rt"
proof -
  show "store_view (served v rt) rt = store_view v rt" using assms by (auto simp: store_view_def reliable_def)
  show "app_store_op (served v rt) = app_store_op v"
  proof (rule ext, cases "ap_redis (app v)")
  fix p
  case True
  then show "app_store_op (served v rt) p = app_store_op v p"
    using assms served_self by (simp add: reliable_def)
next
  fix p
  case False
  have "now (served v rt) = now v" by (simp add: now_def)
  then have "memory_op (served v rt) p = memory_op v p"
    by (cases p) (simp_all add: mem_PutFlow_def mem_TakeFlow_def mem_PutSession_def mem_GetSession_def
        mem_DeleteSession_def cong: option.case_cong if_cong)
  then show "app_store_op (served v rt) p = app_store_op v p"
    using False by (simp add: app_store_op_backend)
  qed
qed

text \<open>
  C6. The session store is the specification, whichever backend it has: each operation of the
  application's store gives the answer of the specification at the moment of the operation and
  leaves the specified contents, in memory and, with a server that keeps Redis's documented
  promises, in Redis.
\<close>

theorem store_implements_the_specification:
  assumes "ap_redis (app v) \<longrightarrow> redis_reply v = redis_server rt"
  shows "(answer (app_store_op v p) s, store_view v rt (final (app_store_op v p) s))
    = spec_step (cal v) (flow_ttl (cfg v)) (session_ttl (cfg v)) (store_time v rt p s) p (store_view v rt s)"
proof -
  have "reliable v rt" using assms by (simp add: reliable_def)
  from reliable_served [OF this] show ?thesis using store.step [of v rt p s] by simp
qed

definition redis_demo :: env where
  "redis_demo = served (demo\<lparr>app := demo_app\<lparr>ap_redis := True\<rparr>\<rparr>) (clock demo)"

lemma redis_demo_simps [simp]:
  "ap_redis (app redis_demo)" "redis_reply redis_demo = redis_server (clock demo)"
  by (simp_all add: redis_demo_def)

lemma redis_demo_cfg: "cfg redis_demo = demo_cfg"
  by (simp add: redis_demo_def)

theorem store_implements_the_specification_witness:
  "answer (app_store_op redis_demo (OpGetSession ''nobody'')) boot = GotSession (Inl NotFound)"
  using store_implements_the_specification [of redis_demo "clock demo" "OpGetSession ''nobody''" boot]
  by (simp add: store_view_def redis_view_def boot_def read_entry_def get_entry_def)

text \<open>
  A session is read back as it was stored last, from either backend, until exactly its
  lifetime has passed, whatever else the store was asked meanwhile.
\<close>

lemma stored_session_is_read_back:
  assumes "ap_redis (app v) \<longrightarrow> redis_reply v = redis_server rt" "valid_session x"
    and "\<forall>p \<in> set ps. \<not> touches_session p sid"
    and "t = run_ops (app_store_op v) ps (final (app_store_op v (OpPutSession sid x)) s)"
  shows "answer (app_store_op v (OpGetSession sid)) t = GotSession
    (if store_time v rt (OpGetSession sid) t \<le> store_time v rt (OpPutSession sid x) s + session_ttl (cfg v)
     then Inr x else Inl NotFound)"
proof -
  have "reliable v rt" using assms(1) by (simp add: reliable_def)
  note same = reliable_served [OF this]
  show ?thesis by (rule store.session_read_back [OF assms(2,3), of t v rt s, unfolded same, OF assms(4)])
qed

lemma stored_session_is_read_back_witness:
  "answer (app_store_op redis_demo (OpGetSession ''sid1''))
     (final (app_store_op redis_demo (OpPutSession ''sid1'' demo_session)) boot) = GotSession (Inr demo_session)"
proof -
  have "valid_session demo_session" by (simp add: valid_session_def demo_session_def int64_def)
  note read = stored_session_is_read_back [OF _ this, of redis_demo "clock demo" "[]" "''sid1''" _ boot]
  let ?t = "final (app_store_op redis_demo (OpPutSession ''sid1'' demo_session)) boot"
  have "length (trace ?t) = 1"
    by (simp add: PutSession_def redis_PutSession_def redis_def world_final boot_def)
  then have "store_time redis_demo (clock demo) (OpGetSession ''sid1'') ?t
      \<le> store_time redis_demo (clock demo) (OpPutSession ''sid1'' demo_session) boot + session_ttl (cfg redis_demo)"
    by (simp add: store_time_def redis_time_def boot_def redis_demo_cfg second_def hour_def minute_def del: app_store_op.simps)
  then show ?thesis using read by (simp del: app_store_op.simps)
qed

section \<open>Operations of the handlers in the view\<close>

lemma TakeFlow_spec:
  assumes "reliable v rt"
  shows "answer (TakeFlow v k) s = read_entry (dec_flow (cal v)) zero_flow
      (store_time v rt (OpTakeFlow k) s) k (fst (store_view v rt s))"
    and "fst (store_view v rt (final (TakeFlow v k) s)) = (fst (store_view v rt s))(k := None)"
  using store.step [of v rt "OpTakeFlow k" s, unfolded reliable_served [OF assms]]
  by (cases "store_view v rt s"; simp add: world_final prod_eq_iff)+

lemma PutSession_spec:
  assumes "reliable v rt"
  shows "fst (store_view v rt (final (PutSession v sid x) s)) = fst (store_view v rt s)"
  using store.step [of v rt "OpPutSession sid x" s, unfolded reliable_served [OF assms]]
  by (cases "store_view v rt s") (simp add: world_final prod_eq_iff)

lemma store_view_event: "(\<And>c. e \<noteq> ERedis c) \<Longrightarrow> store_view v rt (s\<lparr>trace := e # trace s\<rparr>) = store_view v rt s"
  by (cases e) (auto simp: store_view_def memory_view_def redis_view_def)

lemma store_view_rsp [simp]: "store_view v rt (s\<lparr>rsp := r\<rparr>) = store_view v rt s"
  by (simp add: store_view_def memory_view_def redis_view_def)

definition flows_seen :: "env \<Rightarrow> (event list \<Rightarrow> gotime) \<Rightarrow> (string \<rightharpoonup> entry) \<Rightarrow> bff \<Rightarrow> bool" where
  "flows_seen v rt m s \<longleftrightarrow> fst (store_view v rt s) = m"

lemma keeps_flows_seen:
  "(\<And>c. e \<noteq> ERedis c) \<Longrightarrow> keeps (flows_seen v rt m) (ask e g)"
  "keeps (flows_seen v rt m) (add_cookie c)" "keeps (flows_seen v rt m) (redirectWithError v mk)"
  "keeps (flows_seen v rt m) (ctx_error v w)" "keeps (flows_seen v rt m) (ctx_redirect u)"
  "reliable v rt \<Longrightarrow> keeps (flows_seen v rt m) (PutSession v sid x)"
  by (auto simp: flows_seen_def keeps_def add_cookie_def redirectWithError_def ctx_redirect_def
      ctx_error_def set_status_def set_body_def ask_def emit_def store_view_event PutSession_spec
      simp flip: final_def)

lemma finish_login_flows:
  assumes "reliable v rt"
  shows "fst (store_view v rt (final (finish_login v q ac f) s)) = fst (store_view v rt s)"
proof -
  have "keeps (flows_seen v rt m) (finish_login v q ac f)" for m
    using assms by (auto simp: finish_login_def exchangeFlow_def establishSession_def RandomToken_def now_def
        setSessionCookies_def fail_def intro!: keeps_intros keeps_flows_seen)
  from keeps_final [OF this, of _ s] show ?thesis by (simp add: flows_seen_def)
qed

lemma callback_flows:
  assumes "reliable v rt" "callback_ready v q"
  shows "fst (store_view v rt (final (loginCallback v q) s)) = (fst (store_view v rt s))(callback_key v q := None)"
  using TakeFlow_spec(2) [OF assms(1)]
  by (simp add: callback_run [OF assms(2)] finish_login_flows [OF assms(1)] final_redirect split: sum.split)

section \<open>A flow belongs to one browser, once\<close>

text \<open>
  C11. A return in one browser never takes the flow another browser started: in either backend, a
  flow parked under a binding whose hash is not this browser's is still parked, under whatever
  state, after the callback.
\<close>

theorem parked_flow_stays:
  assumes "ap_redis (app v) \<longrightarrow> redis_reply v = redis_server rt"
    and "sha256 v b \<noteq> sha256 v (browserBinding q)"
    and "length (sha256 v b) = length (sha256 v (browserBinding q))"
  shows "fst (store_view v rt (final (loginCallback v q) s)) (FlowKey (sha256 v) st b)
    = fst (store_view v rt s) (FlowKey (sha256 v) st b)"
proof (cases "callback_ready v q")
  case False
  then show ?thesis using callback_not_ready [of v q s] by auto
next
  case True
  have "FlowKey (sha256 v) st b \<noteq> callback_key v q"
    using assms(2) FlowKey_eq [of "sha256 v" b "browserBinding q"] assms(3) by (simp add: callback_key_def)
  then show ?thesis using callback_flows [OF _ True] assms(1) by (simp add: reliable_def)
qed

theorem parked_flow_stays_witness:
  "fst (store_view redis_demo (clock demo) (final (loginCallback redis_demo bound_request) boot))
      (FlowKey (sha256 redis_demo) ''st'' (replicate 43 (CHR ''B'')))
    = fst (store_view redis_demo (clock demo) boot) (FlowKey (sha256 redis_demo) ''st'' (replicate 43 (CHR ''B'')))"
  by (rule parked_flow_stays) (simp_all add: bound_binding redis_demo_def served_def demo_def)

text \<open>
  C10. A return cannot be replayed: served a second time, the same request finds no flow in
  either backend, whatever the first time came to; it changes nothing but the answer, and asks
  nothing but, in Redis, for that flow.
\<close>

theorem callback_replay:
  assumes "ap_redis (app v) \<longrightarrow> redis_reply v = redis_server rt"
  shows "\<exists>r es. final (loginCallback v q) (final (loginCallback v q) s)
           = (final (loginCallback v q) s)\<lparr>trace := es @ trace (final (loginCallback v q) s), rsp := r\<rparr> \<and>
         set es \<subseteq> {ERedis (RGetDel (flowKey (callback_key v q)))}"
proof (cases "callback_ready v q")
  case False
  from callback_not_ready [OF this, of "final (loginCallback v q) s"]
  show ?thesis by (auto intro!: exI [of _ "[]"])
next
  case True
  let ?t = "final (loginCallback v q) s" and ?k = "callback_key v q"
  have rel: "reliable v rt" using assms by (simp add: reliable_def)
  have gone: "fst (store_view v rt ?t) ?k = None" by (simp add: callback_flows [OF rel True])
  then have none: "answer (TakeFlow v ?k) ?t = Inl NotFound"
    by (simp add: TakeFlow_spec(1) [OF rel] read_entry_def get_entry_def)
  have "\<exists>es. final (TakeFlow v ?k) ?t = ?t\<lparr>trace := es @ trace ?t\<rparr> \<and> set es \<subseteq> {ERedis (RGetDel (flowKey ?k))}"
  proof (cases "ap_redis (app v)")
    case True
    then show ?thesis
      by (intro exI [of _ "[ERedis (RGetDel (flowKey ?k))]"])
         (simp add: TakeFlow_def redis_TakeFlow_def redis_def world_final)
  next
    case False
    then have f: "flows ?t ?k = None" using gone by (simp add: store_view_def memory_view_def)
    then have "(flows ?t)(?k := None) = flows ?t" by (auto simp: fun_eq_iff)
    then have "final (TakeFlow v ?k) ?t = ?t"
      using False f by (simp add: TakeFlow_def mem_TakeFlow_def world_final)
    then show ?thesis by (intro exI [of _ "[]"]) simp
  qed
  then obtain es where es: "final (TakeFlow v ?k) ?t = ?t\<lparr>trace := es @ trace ?t\<rparr>"
    "set es \<subseteq> {ERedis (RGetDel (flowKey ?k))}" by blast
  have "\<exists>r. final (loginCallback v q) ?t = ?t\<lparr>trace := es @ trace ?t, rsp := r\<rparr>"
    unfolding callback_run [OF True, of ?t] none es(1) by (simp add: final_redirect) blast
  then show ?thesis using es(2) by blast
qed

theorem callback_replay_witness:
  "\<exists>r es. final (loginCallback redis_demo bound_request) (final (loginCallback redis_demo bound_request) boot)
      = (final (loginCallback redis_demo bound_request) boot)
          \<lparr>trace := es @ trace (final (loginCallback redis_demo bound_request) boot), rsp := r\<rparr> \<and>
     set es \<subseteq> {ERedis (RGetDel (flowKey (callback_key redis_demo bound_request)))}"
  by (rule callback_replay [of redis_demo "clock demo"]) simp

end
