(* ===== verification/SignInTheorems.thy ===== *)
theory SignInTheorems
  imports FlowTheorems
begin

text \<open>
  The sign-in from its start to the session: what the start parks is what the return redeems, and
  what the return stores is the session the next request finds.
\<close>

section \<open>The start\<close>

text \<open>The state of the store and the cookies after a start that answered.\<close>

lemma bindBrowser_out:
  assumes "answer (bindBrowser v q ttl) s = Inr b"
  shows "\<exists>es. final (bindBrowser v q ttl) s = s\<lparr>trace := es @ trace s,
      rsp := (rsp s)\<lparr>rsp_cookies := rsp_cookies (rsp s) @ [new_cookie q signInCookieName b True (Some ttl)]\<rparr>\<rparr>"
  using assms
  by (cases "browserBinding q = []"; cases "random_token v (ERandom bindingBytes # trace s)")
     (auto simp: bindBrowser_def on_ok_def RandomToken_def add_cookie_def world_final
        intro: exI [of _ "[]"] exI [of _ "[ERandom bindingBytes]"])

lemma PutFlow_spec:
  assumes "reliable v rt"
  shows "answer (PutFlow v k f) s = Inr ()"
    and "fst (store_view v rt (final (PutFlow v k f) s)) k =
      Some (Doc (enc_flow (cal v) f), store_time v rt (OpPutFlow k f) s + flow_ttl (cfg v))"
proof -
  obtain fm sm where m: "store_view v rt s = (fm, sm)" by (cases "store_view v rt s")
  have "(answer (app_store_op v (OpPutFlow k f)) s, store_view v rt (final (app_store_op v (OpPutFlow k f)) s))
      = (Stored (Inr ()), put_entry (flow_ttl (cfg v)) (store_time v rt (OpPutFlow k f) s) k (Doc (enc_flow (cal v) f)) fm, sm)"
    using store.step [of v rt "OpPutFlow k f" s, unfolded reliable_served [OF assms] m] by (simp only: spec_step.simps)
  then have "answer (app_store_op v (OpPutFlow k f)) s = Stored (Inr ())"
    and "fst (store_view v rt (final (app_store_op v (OpPutFlow k f)) s)) =
      put_entry (flow_ttl (cfg v)) (store_time v rt (OpPutFlow k f) s) k (Doc (enc_flow (cal v) f)) fm"
    by (simp_all only: prod.inject fst_conv)
  then show "answer (PutFlow v k f) s = Inr ()"
    and "fst (store_view v rt (final (PutFlow v k f) s)) k =
      Some (Doc (enc_flow (cal v) f), store_time v rt (OpPutFlow k f) s + flow_ttl (cfg v))"
    by (simp_all add: world_final put_entry_def)
qed

definition asks_for :: "env \<Rightarrow> flow \<Rightarrow> string \<Rightarrow> string \<Rightarrow> json \<Rightarrow> bool" where
  "asks_for v f challenge st j \<longleftrightarrow> j = enc_login_start (authorization_url v
     \<lparr>ar_code_challenge = challenge, ar_state = st, ar_nonce = fl_nonce f,
      ar_acr_values = fl_acr_values f, ar_prompt = ''login'', ar_max_age = Some 0\<rparr>) st"

definition parked_in :: "env \<Rightarrow> (event list \<Rightarrow> gotime) \<Rightarrow> bff \<Rightarrow> string \<Rightarrow> flow \<Rightarrow> bool" where
  "parked_in v rt t k f \<longleftrightarrow>
     (\<exists>te. fst (store_view v rt t) k = Some (Doc (enc_flow (cal v) f), te + flow_ttl (cfg v)))"

text \<open>The last steps of a start, from the random tokens on.\<close>

definition park_tail where
  "park_tail v q acr keyEnc verifier challenge =
     on_ok (RandomToken v 24) (\<lambda>st.
     on_ok (RandomToken v 24) (\<lambda>nonce.
     on_ok (bindBrowser v q (flow_ttl (cfg v))) (\<lambda>binding. do {
       t \<leftarrow> now v;
       on_ok (PutFlow v (FlowKey (sha256 v) st binding)
               \<lparr>fl_key = keyEnc, fl_verifier = verifier, fl_nonce = nonce, fl_acr_values = acr,
                fl_started = t\<rparr>)
         (\<lambda>_. State_Monad.return (Inr (enc_login_start
            (authorization_url v \<lparr>ar_code_challenge = challenge, ar_state = st, ar_nonce = nonce,
               ar_acr_values = acr, ar_prompt = ''login'', ar_max_age = freshOnly\<rparr>) st))) })))"

lemma park_flow_tail:
  "park_flow v q acr = on_ok (GenerateKey v) (\<lambda>key.
     on_ok (State_Monad.return (lift_text (MarshalKey (key_der v) key))) (\<lambda>keyEnc.
     on_ok (PKCE v) (\<lambda>p. park_tail v q acr keyEnc (fst p) (snd p))))"
  by (simp add: park_flow_def park_tail_def case_prod_unfold)

lemma park_tail_parks:
  assumes "reliable v rt" "answer (park_tail v q acr ke ver ch) s = Inr j" "t = final (park_tail v q acr ke ver ch) s"
  shows "\<exists>st b f. fl_key f = ke \<and> fl_verifier f = ver \<and> fl_acr_values f = acr \<and>
    random_token v (ERandom 24 # trace s) = Inr st \<and>
    random_token v (ERandom 24 # ERandom 24 # trace s) = Inr (fl_nonce f) \<and>
    fl_started f \<in> range (clock v) \<and> asks_for v f ch st j \<and>
    new_cookie q signInCookieName b True (Some (flow_ttl (cfg v))) \<in> set (rsp_cookies (rsp t)) \<and>
    parked_in v rt t (FlowKey (sha256 v) st b) f"
proof -
  obtain st where st: "answer (RandomToken v 24) s = Inr st" by (rule on_ok_InrE [OF assms(2) [unfolded park_tail_def]])
  let ?s1 = "final (RandomToken v 24) s"
  obtain nonce b where n: "answer (RandomToken v 24) ?s1 = Inr nonce"
    and b: "answer (bindBrowser v q (flow_ttl (cfg v))) (final (RandomToken v 24) ?s1) = Inr b"
    using assms(2) unfolding park_tail_def by (elim on_ok_InrE) (auto simp: st)
  let ?s3 = "final (bindBrowser v q (flow_ttl (cfg v))) (final (RandomToken v 24) ?s1)"
  let ?f = "\<lparr>fl_key = ke, fl_verifier = ver, fl_nonce = nonce, fl_acr_values = acr, fl_started = answer (now v) ?s3\<rparr>"
  let ?k = "FlowKey (sha256 v) st b" and ?s4 = "final (now v) ?s3"
  note put = PutFlow_spec [OF assms(1), of ?k ?f ?s4]
  have tail: "answer (park_tail v q acr ke ver ch) s = Inr (enc_login_start (authorization_url v
      \<lparr>ar_code_challenge = ch, ar_state = st, ar_nonce = nonce, ar_acr_values = acr, ar_prompt = ''login'',
       ar_max_age = freshOnly\<rparr>) st)" "t = final (PutFlow v ?k ?f) ?s4"
    using put(1) by (simp_all add: assms(3) park_tail_def on_ok_def st n b final_simps)
  have "new_cookie q signInCookieName b True (Some (flow_ttl (cfg v))) \<in> set (rsp_cookies (rsp t))"
    using bindBrowser_out [OF b]
    by (auto simp: tail(2) now_def world_final PutFlow_def redis_PutFlow_def mem_PutFlow_def redis_def)
  moreover have "parked_in v rt t ?k ?f" using put(2) by (auto simp: parked_in_def tail(2))
  moreover have "asks_for v ?f ch st j" using tail(1) assms(2) by (simp add: asks_for_def freshOnly_def)
  moreover have "fl_started ?f \<in> range (clock v)" by (simp add: now_def world_final)
  moreover have "random_token v (ERandom 24 # trace s) = Inr st"
    "random_token v (ERandom 24 # ERandom 24 # trace s) = Inr (fl_nonce ?f)"
    using st n by (simp_all add: RandomToken_def world_final)
  ultimately show ?thesis by (intro exI [of _ st] exI [of _ b] exI [of _ ?f]) simp
qed

text \<open>
  What a start that began at the trace \<open>tr\<close> drew, one after the other: the key, the PKCE pair, the
  state and the nonce.
\<close>

definition drawn_for :: "env \<Rightarrow> event list \<Rightarrow> pkey \<Rightarrow> string \<Rightarrow> string \<Rightarrow> flow \<Rightarrow> bool" where
  "drawn_for v tr key challenge st f \<longleftrightarrow> generate_key v (EKeyGen # tr) = Inr key \<and>
     pkce v (EPkce # EKeyGen # tr) = Inr (fl_verifier f, challenge) \<and>
     random_token v (ERandom 24 # EPkce # EKeyGen # tr) = Inr st \<and>
     random_token v (ERandom 24 # ERandom 24 # EPkce # EKeyGen # tr) = Inr (fl_nonce f)"

lemma park_flow_parks:
  assumes "reliable v rt" "answer (park_flow v q acr) s = Inr j" "t = final (park_flow v q acr) s"
  shows "\<exists>key challenge st b f. drawn_for v (trace s) key challenge st f \<and>
    MarshalKey (key_der v) key = Inr (fl_key f) \<and> fl_started f \<in> range (clock v) \<and>
    fl_acr_values f = acr \<and> asks_for v f challenge st j \<and>
    new_cookie q signInCookieName b True (Some (flow_ttl (cfg v))) \<in> set (rsp_cookies (rsp t)) \<and>
    parked_in v rt t (FlowKey (sha256 v) st b) f"
proof -
  obtain key where key: "answer (GenerateKey v) s = Inr key"
    by (rule on_ok_InrE [OF assms(2) [unfolded park_flow_tail]])
  let ?s1 = "final (GenerateKey v) s"
  obtain ke p where ke: "MarshalKey (key_der v) key = Inr ke" and p: "answer (PKCE v) ?s1 = Inr p"
    using assms(2) unfolding park_flow_tail
    by (elim on_ok_InrE) (auto simp: key lift_text_def world_final split: sum.splits)
  have tail: "answer (park_flow v q acr) s = answer (park_tail v q acr ke (fst p) (snd p)) (final (PKCE v) ?s1)"
    "final (park_flow v q acr) s = final (park_tail v q acr ke (fst p) (snd p)) (final (PKCE v) ?s1)"
    using key ke p by (simp_all add: park_flow_tail on_ok_def lift_text_def final_simps)
  have "generate_key v (EKeyGen # trace s) = Inr key" "pkce v (EPkce # EKeyGen # trace s) = Inr (fst p, snd p)"
    "trace (final (PKCE v) ?s1) = EPkce # EKeyGen # trace s"
    using key p by (simp_all add: PKCE_def GenerateKey_def world_final)
  moreover have "answer (park_tail v q acr ke (fst p) (snd p)) (final (PKCE v) ?s1) = Inr j"
    "t = final (park_tail v q acr ke (fst p) (snd p)) (final (PKCE v) ?s1)"
    using assms(2,3) tail by simp_all
  ultimately show ?thesis using park_tail_parks [OF assms(1)] ke unfolding drawn_for_def by metis
qed

section \<open>The return\<close>

lemma parked_is_taken:
  assumes "reliable v rt" "fst (store_view v rt u) k = Some (Doc (enc_flow (cal v) f), te)"
    and "valid_flow (cal v) f" "store_time v rt (OpTakeFlow k) u \<le> te"
  shows "answer (TakeFlow v k) u = Inr f"
  using assms(2-4) by (simp add: TakeFlow_spec(1) [OF assms(1)] read_entry_def get_entry_def live_def)

lemma TakeFlow_trace: "\<exists>es. trace (final (TakeFlow v k) s) = es @ trace s"
  by (auto simp: TakeFlow_def mem_TakeFlow_def redis_TakeFlow_def redis_def now_def world_final
      split: option.split)

definition adds :: "event list \<Rightarrow> bff \<Rightarrow> bool" where
  "adds old s \<longleftrightarrow> (\<exists>es. trace s = es @ old)"

lemma finish_login_asks:
  assumes "ParseKey (key_der v) (fl_key f) = Inr key"
  shows "\<exists>es. trace (final (finish_login v q ac f) u) = es @ exchange_event ac f key # trace u"
proof -
  have k: "keeps (adds old) (ask e g)" "keeps (adds old) (add_cookie c)" "keeps (adds old) (fail v w)"
    "keeps (adds old) (ctx_redirect z)" "keeps (adds old) (redirectWithError v mk)" "keeps (adds old) (PutSession v sid x)"
    for old e and g :: "event list \<Rightarrow> 'z" and c w z mk sid x
    by (auto simp: adds_def store_defs add_cookie_def fail_def ctx_error_def ctx_redirect_def set_status_def
        set_body_def redirectWithError_def ask_def emit_def intro!: keeps_intros keeps_modify)
  have est: "keeps (adds old) (establishSession v q ke tk)" for old ke tk
    by (auto simp: establishSession_def RandomToken_def now_def setSessionCookies_def intro!: keeps_intros k)
  let ?u = "u\<lparr>trace := exchange_event ac f key # trace u\<rparr>"
  have "adds (trace ?u) (final (finish_login v q ac f) u)"
  proof (cases "exchange_reply v (trace ?u)")
    case (Inl e)
    then show ?thesis using assms
      by (simp add: finish_login_def lift_text_def exchangeFlow_def world_final freshOnly_def exchange_event_def adds_def)
  next
    case (Inr tk)
    have "keeps (adds (trace ?u)) (do { r \<leftarrow> establishSession v q (fl_key f) tk;
        case r of Inl e \<Rightarrow> fail v e | Inr _ \<Rightarrow> ctx_redirect (post_login_url (cfg v)) })"
      by (intro keeps_intros est k)
    from keeps_final [OF this, of ?u] show ?thesis using assms Inr
      by (simp add: finish_login_def lift_text_def exchangeFlow_def world_final freshOnly_def exchange_event_def adds_def)
  qed
  then show ?thesis by (auto simp: adds_def)
qed

lemma callback_asks:
  assumes "callback_ready v q" "answer (TakeFlow v (callback_key v q)) u = Inr f"
    and "ParseKey (key_der v) (fl_key f) = Inr key"
  shows "exchange_event (opt_text (rq_query q ''code'')) f key \<in> set (trace (final (loginCallback v q) u))"
  using finish_login_asks [OF assms(3), of q "opt_text (rq_query q ''code'')" "final (TakeFlow v (callback_key v q)) u"]
  by (auto simp: callback_run [OF assms(1)] assms(2))

lemma start_answered:
  assumes "rsp_body (rsp (serve v loginStart q s)) = BJson j"
  shows "\<exists>acr. answer (park_flow v q acr) (arrive s) = Inr j \<and>
    trace (serve v loginStart q s) = trace (final (park_flow v q acr) (arrive s)) \<and>
    store_view v rt (serve v loginStart q s) = store_view v rt (final (park_flow v q acr) (arrive s)) \<and>
    rsp_cookies (rsp (serve v loginStart q s)) = rsp_cookies (rsp (final (park_flow v q acr) (arrive s)))"
proof -
  let ?req = "if payload_empty (rq_body q) then Inr zero_login_start else login_start_body q"
  obtain req where req: "?req = Inr req"
    using assms by (cases ?req) (simp_all only: serve_def loginStart_def sum.case, simp add: world_final)
  moreover have "\<not> (lo_acr_values req \<noteq> [] \<and> \<not> method_names (lo_acr_values req))"
    using assms req by (auto simp only: serve_def loginStart_def sum.case split: if_splits) (simp_all add: world_final)
  ultimately obtain acr where "serve v loginStart q s = final (do { r \<leftarrow> park_flow v q acr;
      case r of Inl e \<Rightarrow> fail v e | Inr j \<Rightarrow> ctx_json j }) (arrive s)"
    by (simp only: serve_def loginStart_def sum.case if_False)
  moreover then obtain j' where "answer (park_flow v q acr) (arrive s) = Inr j'"
    using assms by (cases "answer (park_flow v q acr) (arrive s)") (simp_all add: world_final fail_def)
  ultimately show ?thesis using assms by (intro exI [of _ acr]) (simp add: world_final)
qed

text \<open>The flow parked under \<open>k\<close> in \<open>t\<close> is still there in \<open>u\<close>, within its lifetime.\<close>

definition still_parked :: "env \<Rightarrow> (event list \<Rightarrow> gotime) \<Rightarrow> bff \<Rightarrow> bff \<Rightarrow> string \<Rightarrow> bool" where
  "still_parked v rt t u k \<longleftrightarrow> fst (store_view v rt u) k = fst (store_view v rt t) k \<and>
     (\<forall>e. fst (store_view v rt t) k = Some e \<longrightarrow> live (store_time v rt (OpTakeFlow k) u) e)"

text \<open>
  C7. What a sign-in starts, its return redeems: when a start was answered, it drew a signing key, a
  PKCE pair, a state and a nonce, in this order and each for this start; the address it gave the
  browser carries the challenge of that pair, the state and the nonce, and the cookie it set a
  binding; a return that names this state, in the browser with this binding, while the flow is
  parked, redeems its code with the verifier of that pair, that nonce, the methods asked for,
  and the key that was drawn.
\<close>

theorem sign_in_round_trip:
  assumes "ap_redis (app v) \<longrightarrow> redis_reply v = redis_server rt"
    and "\<And>k der. marshal_pkcs8 (key_der v) k = Inr der \<Longrightarrow> parse_pkcs8 (key_der v) der = Inr (Some k)"
    and "\<And>x. x \<in> range (clock v) \<Longrightarrow> parse_time (cal v) (fmt_time (cal v) x) = Some x"
    and "t = serve v loginStart q s" "rsp_body (rsp t) = BJson j"
  shows "\<exists>key challenge st b f. generate_key v (EKeyGen # trace s) = Inr key \<and>
    pkce v (EPkce # EKeyGen # trace s) = Inr (fl_verifier f, challenge) \<and>
    random_token v (ERandom 24 # EPkce # EKeyGen # trace s) = Inr st \<and>
    random_token v (ERandom 24 # ERandom 24 # EPkce # EKeyGen # trace s) = Inr (fl_nonce f) \<and>
    asks_for v f challenge st j \<and>
    new_cookie q signInCookieName b True (Some (flow_ttl (cfg v))) \<in> set (rsp_cookies (rsp t)) \<and>
    (\<forall>u q'. callback_ready v q' \<longrightarrow> rq_query q' ''state'' = Some st \<longrightarrow> browserBinding q' = b \<longrightarrow>
       still_parked v rt t u (FlowKey (sha256 v) st b) \<longrightarrow>
       exchange_event (opt_text (rq_query q' ''code'')) f key \<in> set (trace (final (loginCallback v q') u)))"
proof -
  have rel: "reliable v rt" using assms(1) by (simp add: reliable_def)
  obtain acr where a: "answer (park_flow v q acr) (arrive s) = Inr j"
    "store_view v rt t = store_view v rt (final (park_flow v q acr) (arrive s))"
    "rsp_cookies (rsp t) = rsp_cookies (rsp (final (park_flow v q acr) (arrive s)))"
    using start_answered [of v q s j rt] assms(4,5) by auto
  have "trace (arrive s) = trace s" by (simp add: arrive_def)
  then obtain key challenge st b f where p: "MarshalKey (key_der v) key = Inr (fl_key f)"
    "drawn_for v (trace s) key challenge st f" "asks_for v f challenge st j" "fl_started f \<in> range (clock v)"
    "new_cookie q signInCookieName b True (Some (flow_ttl (cfg v))) \<in> set (rsp_cookies (rsp t))"
    "parked_in v rt (final (park_flow v q acr) (arrive s)) (FlowKey (sha256 v) st b) f"
    using park_flow_parks [OF rel a(1) refl] a(3) by metis
  have key: "ParseKey (key_der v) (fl_key f) = Inr key" by (rule ParseKey_MarshalKey [OF p(1) assms(2)])
  have f: "valid_flow (cal v) f" using p(4) by (simp add: valid_flow_def assms(3))
  have "exchange_event (opt_text (rq_query q' ''code'')) f key \<in> set (trace (final (loginCallback v q') u))"
    if r: "callback_ready v q'" "rq_query q' ''state'' = Some st" "browserBinding q' = b"
      "still_parked v rt t u (FlowKey (sha256 v) st b)" for u q'
  proof (rule callback_asks [OF r(1) _ key])
    have k: "callback_key v q' = FlowKey (sha256 v) st b" using r(2,3) by (simp add: callback_key_def opt_text_def)
    show "answer (TakeFlow v (callback_key v q')) u = Inr f"
      using p(6) r(4) a(2) by (auto simp: k still_parked_def parked_in_def live_def intro!: parked_is_taken [OF rel _ f])
  qed
  then show ?thesis using p unfolding drawn_for_def by blast
qed

text \<open>An environment whose calendar reads back what it writes.\<close>

definition tally :: calendar where
  "tally = \<lparr>fmt_time = (\<lambda>t. (if t < 0 then ''-'' else ''+'') @ replicate (nat \<bar>t\<bar>) (CHR ''1'')),
     parse_time = (\<lambda>s. Some (if hd s = CHR ''-'' then - int (length (tl s)) else int (length (tl s))))\<rparr>"

lemma tally_reads: "parse_time tally (fmt_time tally x) = Some x"
  by (simp add: tally_def)

definition dated :: env where
  "dated = demo\<lparr>cal := tally, random_token := (\<lambda>tr. Inr (replicate 43 (CHR ''A'')))\<rparr>"

definition start_request :: request where
  "start_request = demo_request\<lparr>rq_cookie := (\<lambda>n. [])\<rparr>"

lemma no_binding: "browserBinding start_request = []"
  by code_simp

abbreviation (input) drawn :: string where
  "drawn \<equiv> replicate 43 (CHR ''A'')"

definition dated_flow :: flow where
  "dated_flow = \<lparr>fl_key = std_encode ''key'', fl_verifier = ''verifier'', fl_nonce = drawn,
     fl_acr_values = [], fl_started = unix_epoch + 6 * second\<rparr>"

lemma dated_parks:
  "answer (park_flow dated start_request []) (arrive boot) =
     Inr (enc_login_start ''https://auth.example/authorize'' drawn)"
  "flows (final (park_flow dated start_request []) (arrive boot)) =
     [FlowKey (sha256 dated) drawn drawn \<mapsto> (Doc (enc_flow tally dated_flow), unix_epoch + 7 * second + 10 * minute)]"
  "length (trace (final (park_flow dated start_request []) (arrive boot))) = 7"
  "rsp_cookies (rsp (final (park_flow dated start_request []) (arrive boot))) =
     [new_cookie start_request signInCookieName drawn True (Some (10 * minute))]"
  by (simp_all add: park_flow_def on_ok_def GenerateKey_def PKCE_def RandomToken_def bindBrowser_def no_binding
      world_final PutFlow_def mem_PutFlow_def add_cookie_def)
     (simp_all add: dated_def demo_def demo_app_def lift_text_def MarshalKey_def demo_key_def now_def world_final
        on_ok_def RandomToken_def add_cookie_def mem_PutFlow_def put_entry_def boot_def arrive_def dated_flow_def
        no_response_def)

text \<open>The browser that started returns with the state it was given and the cookie it was set.\<close>

definition back_request :: request where
  "back_request = bound_request\<lparr>rq_method := ''GET'', rq_query := (\<lambda>n. if n = ''state'' then Some drawn
     else if n = ''code'' then Some ''code1'' else None)\<rparr>"

lemma dated_started:
  "rsp_body (rsp (serve dated loginStart start_request boot)) =
     BJson (enc_login_start ''https://auth.example/authorize'' drawn)"
  "flows (serve dated loginStart start_request boot) =
     [FlowKey (sha256 dated) drawn drawn \<mapsto> (Doc (enc_flow tally dated_flow), unix_epoch + 7 * second + 10 * minute)]"
  "length (trace (serve dated loginStart start_request boot)) = 7"
  "rsp_cookies (rsp (serve dated loginStart start_request boot)) =
     [new_cookie start_request signInCookieName drawn True (Some (10 * minute))]"
  by (simp_all add: serve_def loginStart_def world_final zero_login_start_def dated_parks,
      simp_all add: start_request_def demo_request_def payload_empty_def no_body_def)

lemma back_again: "callback_ready dated back_request" "browserBinding back_request = drawn"
  "rq_query back_request ''state'' = Some drawn" "opt_text (rq_query back_request ''code'') = ''code1''"
proof -
  show b: "browserBinding back_request = drawn" by code_simp
  show "callback_ready dated back_request"
    using b by (simp add: callback_ready_def opt_text_def)
       (simp add: back_request_def bound_request_def dated_def demo_def)
qed (simp_all add: back_request_def opt_text_def)

theorem sign_in_round_trip_witness:
  "\<exists>f key. fl_verifier f = ''verifier'' \<and> exchange_event ''code1'' f key
     \<in> set (trace (final (loginCallback dated back_request) (serve dated loginStart start_request boot)))"
proof -
  let ?t = "serve dated loginStart start_request boot"
  have mem: "ap_redis (app dated) \<longrightarrow> redis_reply dated = redis_server (clock dated)"
    by (simp add: dated_def)
  from sign_in_round_trip [OF this _ _ refl dated_started(1)]
  obtain key challenge st b f where r: "pkce dated (EPkce # EKeyGen # trace boot) = Inr (fl_verifier f, challenge)"
    "asks_for dated f challenge st (enc_login_start ''https://auth.example/authorize'' drawn)"
    "new_cookie start_request signInCookieName b True (Some (flow_ttl (cfg dated))) \<in> set (rsp_cookies (rsp ?t))"
    "\<forall>u q'. callback_ready dated q' \<longrightarrow> rq_query q' ''state'' = Some st \<longrightarrow> browserBinding q' = b \<longrightarrow>
       still_parked dated (clock dated) ?t u (FlowKey (sha256 dated) st b) \<longrightarrow>
       exchange_event (opt_text (rq_query q' ''code'')) f key \<in> set (trace (final (loginCallback dated q') u))"
    by (auto simp: dated_def tally_reads demo_def demo_key_def)
  have "st = drawn" "b = drawn"
    using r(2,3) by (simp_all add: asks_for_def enc_login_start_def dated_started new_cookie_def)
  moreover have "still_parked dated (clock dated) ?t ?t (FlowKey (sha256 dated) drawn drawn)"
    by (simp add: still_parked_def store_view_def memory_view_def dated_started live_def store_time_def memory_time_def)
       (simp add: dated_def dated_started [unfolded dated_def] second_def minute_def)
  moreover have "fl_verifier f = ''verifier''" using r(1) by (simp add: dated_def demo_def)
  ultimately show ?thesis using r(4) back_again by metis
qed

section \<open>The session\<close>

lemma PutSession_out:
  assumes "reliable v rt"
  shows "answer (PutSession v sid x) s = Inr ()"
    and "snd (store_view v rt (final (PutSession v sid x) s)) sid =
      Some (Doc (enc_session x), store_time v rt (OpPutSession sid x) s + session_ttl (cfg v))"
    and "rsp (final (PutSession v sid x) s) = rsp s"
proof -
  obtain fm sm where m: "store_view v rt s = (fm, sm)" by (cases "store_view v rt s")
  have "(answer (app_store_op v (OpPutSession sid x)) s, store_view v rt (final (app_store_op v (OpPutSession sid x)) s))
      = (Stored (Inr ()), fm, put_entry (session_ttl (cfg v)) (store_time v rt (OpPutSession sid x) s) sid (Doc (enc_session x)) sm)"
    using store.step [of v rt "OpPutSession sid x" s, unfolded reliable_served [OF assms] m] by (simp only: spec_step.simps)
  then have "answer (app_store_op v (OpPutSession sid x)) s = Stored (Inr ())"
    and "snd (store_view v rt (final (app_store_op v (OpPutSession sid x)) s)) =
      put_entry (session_ttl (cfg v)) (store_time v rt (OpPutSession sid x) s) sid (Doc (enc_session x)) sm"
    by (simp_all only: prod.inject snd_conv)
  then show "answer (PutSession v sid x) s = Inr ()"
    and "snd (store_view v rt (final (PutSession v sid x) s)) sid =
      Some (Doc (enc_session x), store_time v rt (OpPutSession sid x) s + session_ttl (cfg v))"
    by (simp_all add: world_final put_entry_def)
qed (simp add: PutSession_def redis_PutSession_def mem_PutSession_def redis_def now_def world_final)

lemma GetSession_spec:
  assumes "reliable v rt"
  shows "answer (GetSession v sid) s = read_entry dec_session zero_session
      (store_time v rt (OpGetSession sid) s) sid (snd (store_view v rt s))"
proof -
  obtain fm sm where m: "store_view v rt s = (fm, sm)" by (cases "store_view v rt s")
  have "(answer (app_store_op v (OpGetSession sid)) s, store_view v rt (final (app_store_op v (OpGetSession sid)) s))
      = (GotSession (read_entry dec_session zero_session (store_time v rt (OpGetSession sid) s) sid sm), fm, sm)"
    using store.step [of v rt "OpGetSession sid" s, unfolded reliable_served [OF assms] m] by (simp only: spec_step.simps)
  then have "answer (app_store_op v (OpGetSession sid)) s =
      GotSession (read_entry dec_session zero_session (store_time v rt (OpGetSession sid) s) sid sm)"
    by (simp only: prod.inject)
  then show ?thesis by (simp add: world_final m)
qed

text \<open>
  C8. A sign-in completes: when the return's flow is taken, the Auth Service redeems the code and
  random ids can be drawn, the browser is sent on to the app with the session and anti-forgery
  cookies, and the session stored under the cookie's id, in either backend, is what the gate of
  a later request finds while it lives: this person's, with the returned tokens.
\<close>

theorem sign_in_completes:
  assumes "ap_redis (app v) \<longrightarrow> redis_reply v = redis_server rt"
    and "callback_ready v q" "answer (TakeFlow v (callback_key v q)) s = Inr f"
    and "ParseKey (key_der v) (fl_key f) = Inr key"
    and "asked = exchange_event (opt_text (rq_query q ''code'')) f key # trace (final (TakeFlow v (callback_key v q)) s)"
    and "exchange_reply v asked = Inr tk"
    and "random_token v (ERandom 32 # asked) = Inr sid" "random_token v (ERandom 32 # ERandom 32 # asked) = Inr csrf"
    and "x = new_session v (fl_key f) csrf (clock v (EClock # ERandom 32 # ERandom 32 # asked)) tk"
    and "t = final (loginCallback v q) s"
  shows "rsp_status (rsp t) = 302 \<and> rsp_body (rsp t) = BRedirect (post_login_url (cfg v)) \<and>
    rsp_cookies (rsp t) = rsp_cookies (rsp s) @
      [new_cookie q (cookie_name (cfg v)) sid True None, new_cookie q csrfCookieName csrf False None] \<and>
    (\<exists>expires. snd (store_view v rt t) sid = Some (Doc (enc_session x), expires) \<and>
      (\<forall>u. valid_session x \<longrightarrow> snd (store_view v rt u) sid = snd (store_view v rt t) sid \<longrightarrow>
         store_time v rt (OpGetSession sid) u \<le> expires \<longrightarrow> answer (GetSession v sid) u = Inr x))"
proof -
  have rel: "reliable v rt" using assms(1) by (simp add: reliable_def)
  let ?w = "(final (TakeFlow v (callback_key v q)) s)\<lparr>trace := EClock # ERandom 32 # ERandom 32 # asked\<rparr>"
  note put = PutSession_out [OF rel, of sid x ?w]
  have fin: "final (loginCallback v q) s =
      final (do { setSessionCookies q (cookie_name (cfg v)) sid csrf; ctx_redirect (post_login_url (cfg v)) })
        (final (PutSession v sid x) ?w)"
    using assms(3-8) put(1)
    by (simp add: callback_run [OF assms(2)] finish_login_def lift_text_def exchangeFlow_def exchange_event_def
        freshOnly_def establishSession_def RandomToken_def on_ok_def now_def world_final assms(9))
  have view: "store_view v rt t = store_view v rt (final (PutSession v sid x) ?w)"
    by (simp add: assms(10) fin setSessionCookies_def add_cookie_def ctx_redirect_def set_status_def set_body_def world_final)
  have "rsp_status (rsp t) = 302 \<and> rsp_body (rsp t) = BRedirect (post_login_url (cfg v)) \<and>
    rsp_cookies (rsp t) = rsp_cookies (rsp s) @
      [new_cookie q (cookie_name (cfg v)) sid True None, new_cookie q csrfCookieName csrf False None]"
    by (simp add: assms(10) fin setSessionCookies_def add_cookie_def ctx_redirect_def set_status_def set_body_def
        world_final put(3) TakeFlow_rsp)
  moreover have "answer (GetSession v sid) u = Inr x"
    if "valid_session x" "snd (store_view v rt u) sid = Some (Doc (enc_session x), e)"
      "store_time v rt (OpGetSession sid) u \<le> e" for u e
    using that by (simp add: GetSession_spec [OF rel] read_entry_def get_entry_def live_def)
  ultimately show ?thesis using put(2) view by auto
qed

theorem sign_in_completes_witness:
  "rsp_body (rsp (final (loginCallback demo bound_request) parked)) = BRedirect ''https://portal.example/app''"
proof -
  have "ap_redis (app demo) \<longrightarrow> redis_reply demo = redis_server (clock demo)" by simp
  moreover have "ParseKey (key_der demo) (fl_key demo_flow) = Inr ''key''"
    by (simp add: demo_def demo_flow_def demo_key_parses)
  moreover have "exchange_reply demo tr = Inr demo_tokens"
    "random_token demo tr = Inr (replicate 43 (CHR ''a''))" for tr
    by (simp_all add: demo_def)
  ultimately show ?thesis
    using sign_in_completes [of demo "clock demo", OF _ bound_ready parked_taken _ refl _ _ _ refl refl] by simp
qed

end
