(* ===== verification/VerifyTheorems.thy ===== *)
theory VerifyTheorems
  imports Samples
begin

text \<open>
  What the public verification guarantees: its places in flight, what reaches the signing
  service, and the evidence it leaves.
\<close>

section \<open>Places in flight\<close>

text \<open>
  C15. However requests interleave, an address never has more verifications running than the cap;
  one is refused exactly when the cap is reached; and the gate remembers an address exactly while
  it has one running.
\<close>

theorem never_more_than_the_cap:
  assumes "gate_reach mx (g, running)"
  shows "count running ip \<le> mx \<and> (gate_acquire mx ip g = None \<longleftrightarrow> count running ip = mx) \<and>
    (g ip = None \<longleftrightarrow> count running ip = 0)"
proof -
  have c: "in_flight g ip = count running ip" and i: "gate_inv mx g"
    using gate_counts [OF assms] by simp_all
  have "in_flight g ip \<le> mx" "g ip = None \<longleftrightarrow> in_flight g ip = 0"
    using i by (auto simp: gate_inv_def in_flight_def split: option.split)
  then show ?thesis by (auto simp: gate_acquire_def c)
qed

theorem never_more_than_the_cap_witness:
  "count {#''192.0.2.1''#} ''192.0.2.1'' \<le> (1 :: nat) \<and>
   gate_acquire 1 ''192.0.2.1'' [''192.0.2.1'' \<mapsto> 1] = None"
proof -
  have "gate_step 1 (Map.empty, {#}) ([''192.0.2.1'' \<mapsto> 1], add_mset ''192.0.2.1'' {#})"
    by (rule gate_step.enter) (simp add: gate_acquire_def in_flight_def)
  then have "gate_reach 1 ([''192.0.2.1'' \<mapsto> 1], {#''192.0.2.1''#})"
    using gate_reach.start gate_reach.step by blast
  from never_more_than_the_cap [OF this, of "''192.0.2.1''"] show ?thesis by simp
qed

lemma final_verifyDocument:
  "final (verifyDocument v q) s = (case ap_verify (app v) of
     None \<Rightarrow> final (ctx_error v verify_unavailable) s
   | Some c \<Rightarrow> (case gate_acquire (gate_max v) (verifyClientIP q) (gate s) of
       None \<Rightarrow> final (ctx_error v too_many) s
     | Some g' \<Rightarrow> (let t = final (verify_file v q c (verifyClientIP q)) (s\<lparr>gate := g'\<rparr>) in
         t\<lparr>gate := gate_release (verifyClientIP q) (gate t)\<rparr>)))"
  by (simp add: verifyDocument_def release_gate_def final_bind final_gets final_modify Let_def split: option.split)

text \<open>
  Every verification gives its place back, however it ends: after the route has answered, the
  gate is as it was before.
\<close>

theorem the_place_is_given_back:
  assumes "gate_inv (gate_max v) (gate s)"
  shows "gate (final (verify_route v q) s) = gate s"
  using gate_release_acquire [OF assms]
  by (auto simp: verify_route_def edgeBlockEvents_def edgeBlock_def limited_verify_def final_verifyDocument
      gate_verify_file set_status_def set_body_def world_final Let_def split: option.split)

theorem the_place_is_given_back_witness:
  "gate (final (verify_route demo demo_request) boot) = gate boot"
  by (rule the_place_is_given_back) (simp add: gate_inv_def boot_def)

text \<open>
  The rule name of the edge's security event says more than is known: a verification that
  the limiter let through and the in-flight gate refused, because another one is running for
  the address, is recorded as a hit of the rate limit; nothing else happened.
\<close>

lemma gate_refusal_is_recorded_as_rate_limit:
  assumes "ap_verify (app v) = Some d" "sec_events v"
    and "\<not> rate_limited v (trace s) (limiter_key q)"
    and "gate_acquire (gate_max v) (verifyClientIP q) (gate s) = None"
  shows "final (verify_route v q) s =
    s\<lparr>trace := EEdgeBlock (verifyClientIP q) ''verify_rate_limit'' # trace s,
      rsp := (rsp s)\<lparr>rsp_status := 429, rsp_body := BError too_many\<rparr>\<rparr>"
  using assms
  by (simp add: verify_route_def edgeBlockEvents_def edgeBlock_def limited_verify_def
      final_verifyDocument world_final error_status_def too_many_def public_problem_def)

lemma gate_refusal_is_recorded_as_rate_limit_witness:
  "rsp_status (rsp (final (verify_route demo demo_request)
     (boot\<lparr>gate := [''192.0.2.1'' \<mapsto> 1]\<rparr>))) = 429"
proof -
  let ?s = "boot\<lparr>gate := [''192.0.2.1'' \<mapsto> 1]\<rparr>"
  have g: "ap_verify (app demo) = Some \<lparr>sv_base = ''http://signer'', sv_audience = ''svc:eparaksts-signer''\<rparr>"
    "sec_events demo" "\<not> rate_limited demo (trace ?s) (limiter_key demo_request)"
    "gate_acquire (gate_max demo) (verifyClientIP demo_request) (gate ?s) = None"
    by (simp_all add: demo_app_def demo_def gate_max_def gate_acquire_def in_flight_def
        verifyClientIP_def demo_request_def)
  show ?thesis unfolding gate_refusal_is_recorded_as_rate_limit [OF g] by simp
qed

section \<open>What reaches the signing service\<close>

definition asked :: "(svc_call \<Rightarrow> bool) \<Rightarrow> event list \<Rightarrow> bff \<Rightarrow> bool" where
  "asked P old s \<longleftrightarrow> (\<exists>es. trace s = es @ old \<and> (\<forall>c. ESvc c \<in> set es \<longrightarrow> P c))"

lemma asked_event: "asked P old s \<Longrightarrow> (\<And>c. e = ESvc c \<Longrightarrow> P c) \<Longrightarrow> asked P old (s\<lparr>trace := e # trace s\<rparr>)"
proof -
  assume a: "asked P old s" and "\<And>c. e = ESvc c \<Longrightarrow> P c"
  moreover obtain es where "trace s = es @ old" "\<forall>c. ESvc c \<in> set es \<longrightarrow> P c" using a by (auto simp: asked_def)
  ultimately show ?thesis by (auto simp: asked_def intro!: exI [of _ "e # es"])
qed

lemma asked_start: "asked P (trace s) s"
  by (auto simp: asked_def)

lemma keeps_asked:
  "(\<And>c. e = ESvc c \<Longrightarrow> P c) \<Longrightarrow> keeps (asked P old) (ask e f)"
  "(\<And>c. e = ESvc c \<Longrightarrow> P c) \<Longrightarrow> keeps (asked P old) (emit e)"
  "keeps (asked P old) (ctx_error v w)" "keeps (asked P old) (ctx_json j)"
  by (auto intro!: keepsI asked_event simp: wp_simps ctx_json_def) (auto simp: asked_def)

definition not_for_signer :: "svc_call \<Rightarrow> bool" where
  "not_for_signer c \<longleftrightarrow> sc_scope c \<noteq> scopeVerifyRead"

lemma keeps_recorded: "keeps (asked not_for_signer old) (recordVerify v q ip n sha w d)"
  by (auto simp: recordVerify_def now_def Record_def evidence_call_def not_for_signer_def scopeVerifyAudit_def
      scopeVerifyRead_def intro!: keeps_intros keeps_asked split: option.split)

text \<open>
  What is read of a file is the file when it keeps to the cap, as long as one byte past the cap can
  be counted at 64 bits; with the largest cap of all the count wraps and nothing is read.
\<close>

lemma wrap64_same: "- (2 ^ 63) \<le> i \<Longrightarrow> i < 2 ^ 63 \<Longrightarrow> wrap64 i = i"
  by (simp add: wrap64_def)

definition countable_cap :: "int \<Rightarrow> bool" where
  "countable_cap mx \<longleftrightarrow> 0 \<le> mx \<and> mx < 2 ^ 63 - 1"

lemma read_within_cap:
  assumes "countable_cap mx"
  shows "int (length (read_limited mx xs)) \<le> mx \<longleftrightarrow> int (length xs) \<le> mx"
    and "int (length xs) \<le> mx \<Longrightarrow> read_limited mx xs = xs"
  using assms by (auto simp: countable_cap_def read_limited_def wrap64_same min_def)

lemma largest_cap_reads_nothing: "read_limited (2 ^ 63 - 1) xs = []"
  by (simp add: read_limited_def wrap64_def)

text \<open>The file the form carries, once its size, its readability and its admission are settled.\<close>

definition admissible :: "env \<Rightarrow> request \<Rightarrow> bool" where
  "admissible v q \<longleftrightarrow> (\<exists>fh content data. rq_form_files q = [fh] \<and> up_size fh \<le> verify_max_bytes (cfg v) \<and>
     up_content fh = Inr content \<and> data = read_limited (verify_max_bytes (cfg v)) content \<and>
     int (length data) \<le> verify_max_bytes (cfg v) \<and> (countable_cap (verify_max_bytes (cfg v)) \<longrightarrow> data = content) \<and>
     docgate_check v (up_filename fh) data (verify_max_bytes (cfg v)) = None)"

lemma inadmissible_not_forwarded:
  assumes "\<not> admissible v q"
  shows "keeps (asked not_for_signer old) (verify_file v q c ip)"
proof -
  let ?m = "verify_max_bytes (cfg v)"
  have "keeps (asked not_for_signer old) (verify_data v q c ip fh (read_limited ?m content))"
    if f: "rq_form_files q = [fh]" "\<not> ?m < up_size fh" "up_content fh = Inr content"
      "\<not> ?m < int (length (read_limited ?m content))" for fh content
  proof -
    have "countable_cap ?m \<longrightarrow> read_limited ?m content = content" using read_within_cap f(4) by fastforce
    then have "docgate_check v (up_filename fh) (read_limited ?m content) ?m \<noteq> None"
      using assms f by (fastforce simp: admissible_def)
    then show ?thesis
      by (auto simp: verify_data_def Let_def intro!: keeps_bind keeps_recorded keeps_asked split: option.split)
  qed
  then show ?thesis
    by (auto simp: verify_file_def Let_def
        intro!: keeps_asked keeps_if keeps_case_sum split: list.split sum.split)
qed

lemma keeps_asked_file: "keeps (asked (\<lambda>_. True) old) (verify_file v q c ip)"
proof -
  have "keeps (asked (\<lambda>_. True) old) (recordVerify v q ip n sha w d)" for n sha w d
    by (auto simp: recordVerify_def now_def Record_def intro!: keeps_intros keeps_asked split: option.split)
  moreover have "keeps (asked (\<lambda>_. True) old) (Verify_Validate v c n data)" for n data
    by (auto simp: Verify_Validate_def svc_request_def Let_def case_prod_beta intro!: keeps_intros keeps_asked)
  ultimately show ?thesis
    by (auto simp: verify_file_def verify_data_def verify_admitted_def now_def Let_def
        intro!: keeps_intros keeps_asked split: list.split)
qed

text \<open>Only a request that passed the limiter and took a place asks anything.\<close>

lemma verify_route_asks:
  assumes "trace (final (verify_route v q) s) = es @ trace s" "ESvc c \<in> set es"
  shows "\<exists>es' d g. gate_acquire (gate_max v) (verifyClientIP q) (gate s) = Some g \<and>
     \<not> rate_limited v (trace s) (limiter_key q) \<and> ap_verify (app v) = Some d \<and>
     trace (final (verify_file v q d (verifyClientIP q)) (s\<lparr>gate := g\<rparr>)) = es' @ trace s \<and> ESvc c \<in> set es'"
proof -
  let ?L = "final (limited_verify v q) s"
  have t: "trace ?L = es @ trace s \<or> EEdgeBlock (verifyClientIP q) ''verify_rate_limit'' # trace ?L = es @ trace s"
    using assms(1) by (auto simp: verify_route_def edgeBlockEvents_def edgeBlock_def world_final split: if_splits)
  have ne: "trace ?L \<noteq> trace s"
    using t assms(2) by (auto simp: Cons_eq_append_conv)
  then obtain d g where d: "\<not> rate_limited v (trace s) (limiter_key q)" "ap_verify (app v) = Some d"
    "gate_acquire (gate_max v) (verifyClientIP q) (gate s) = Some g"
    "trace ?L = trace (final (verify_file v q d (verifyClientIP q)) (s\<lparr>gate := g\<rparr>))"
    by (auto simp: limited_verify_def final_verifyDocument world_final set_status_def set_body_def Let_def
        split: if_splits option.splits)
  have "asked (\<lambda>_. True) (trace (s\<lparr>gate := g\<rparr>)) (final (verify_file v q d (verifyClientIP q)) (s\<lparr>gate := g\<rparr>))"
    by (rule keeps_final [OF keeps_asked_file asked_start])
  then obtain es' where e: "trace ?L = es' @ trace s" by (auto simp: asked_def d(4))
  then have "ESvc c \<in> set es'" using t assms(2) by (auto simp: Cons_eq_append_conv)
  then show ?thesis using d(1-3) e [unfolded d(4)] by blast
qed

lemma Verify_Validate_trace:
  "\<exists>c. trace (final (Verify_Validate v d name data) s) = ESvc c # trace s \<and> sc_scope c = scopeVerifyRead"
  by (simp add: Verify_Validate_def svc_request_def Let_def case_prod_beta world_final split: sum.split)

definition signed_file :: upload where
  "signed_file = \<lparr>up_filename = ''a.pdf'', up_size = 3, up_content = Inr ''pdf''\<rparr>"

definition verify_request :: request where
  "verify_request = demo_request\<lparr>rq_form_files := [signed_file]\<rparr>"

definition audited :: env where
  "audited = demo\<lparr>app := demo_app\<lparr>ap_verify_audit := Some \<lparr>sv_base = ''http://audit'', sv_audience = ''svc:access-audit''\<rparr>\<rparr>\<rparr>"

definition demo_signer :: service where
  "demo_signer = \<lparr>sv_base = ''http://signer'', sv_audience = ''svc:eparaksts-signer''\<rparr>"

lemma verify_request_simps [simp]:
  "rq_form_files verify_request = [signed_file]" "verifyClientIP verify_request = ''192.0.2.1''"
  "up_size signed_file = 3" "up_content signed_file = Inr ''pdf''"
  "verify_max_bytes (cfg audited) = 25 * 2 ^ 20" "gate_max demo = 1" "gate_max audited = 1"
  "rate_limited demo tr k = False" "rate_limited audited tr k = False"
  "ap_verify demo_app = Some demo_signer" "ap_verify (app audited) = Some demo_signer"
  "docgate_check demo n ''pdf'' m = None"
  "ap_verify_audit (app audited) = Some \<lparr>sv_base = ''http://audit'', sv_audience = ''svc:access-audit''\<rparr>"
  by (simp_all add: verify_request_def demo_request_def signed_file_def verifyClientIP_def audited_def
      gate_max_def demo_signer_def demo_app_def demo_def)

lemma demo_reads [simp]: "read_limited 26214400 ''pdf'' = ''pdf''"
  by (simp add: read_limited_def wrap64_def)

lemma demo_asks_to_validate:
  "\<exists>es c. trace (final (verify_route demo verify_request) boot) = es @ trace boot \<and>
     ESvc c \<in> set es \<and> sc_scope c = scopeVerifyRead"
proof -
  let ?u = "boot\<lparr>gate := [''192.0.2.1'' \<mapsto> 1]\<rparr>"
  obtain c where c: "trace (final (Verify_Validate demo demo_signer (up_filename signed_file) ''pdf'') ?u) = [ESvc c]"
    "sc_scope c = scopeVerifyRead"
    using Verify_Validate_trace [of demo demo_signer "up_filename signed_file" "''pdf''" ?u] by (auto simp: boot_def)
  have no_audit: "ap_verify_audit demo_app = None" by (simp add: demo_app_def)
  have "\<exists>es. trace (final (verify_file demo verify_request demo_signer ''192.0.2.1'') ?u) = es @ [ESvc c]"
    using c(1) no_audit
    by (auto simp: verify_file_def verify_data_def verify_admitted_def recordVerify_def Record_def now_def
        Let_def world_final ctx_json_def set_body_def split: sum.split)
  then obtain es where es: "trace (final (verify_file demo verify_request demo_signer ''192.0.2.1'') ?u) = es @ [ESvc c]"
    by blast
  have "gate_acquire 1 ''192.0.2.1'' (gate boot) = Some [''192.0.2.1'' \<mapsto> 1]"
    by (simp add: gate_acquire_def in_flight_def boot_def)
  then have "trace (final (limited_verify demo verify_request) boot) = es @ [ESvc c]"
    using es by (simp add: limited_verify_def final_verifyDocument world_final Let_def)
  then have "\<exists>es'. trace (final (verify_route demo verify_request) boot) = es' @ [ESvc c]"
    by (auto simp: verify_route_def edgeBlockEvents_def edgeBlock_def world_final intro: exI [of _ "_ # es"])
  then show ?thesis using c(2) by (auto simp: boot_def)
qed

text \<open>
  C14. Nothing inadmissible reaches the signing service: it is asked to validate only when the
  limiter lets the request pass, the address had a place free, and the form held exactly one
  file, readable, of at most the configured size by its header and by what was read of it, which
  is all of it and what the admission check accepts.
\<close>

theorem only_admissible_files_are_forwarded:
  assumes "ESvc c \<in> set es" "sc_scope c = scopeVerifyRead"
    and "trace (final (verify_route v q) s) = es @ trace s"
  shows "admissible v q \<and> \<not> rate_limited v (trace s) (limiter_key q) \<and>
    in_flight (gate s) (verifyClientIP q) < gate_max v"
proof -
  obtain es' d g where g: "gate_acquire (gate_max v) (verifyClientIP q) (gate s) = Some g"
    "\<not> rate_limited v (trace s) (limiter_key q)"
    "trace (final (verify_file v q d (verifyClientIP q)) (s\<lparr>gate := g\<rparr>)) = es' @ trace s" "ESvc c \<in> set es'"
    using verify_route_asks [OF assms(3,1)] by blast
  have "admissible v q"
  proof (rule ccontr)
    assume "\<not> admissible v q"
    from keeps_final [OF inadmissible_not_forwarded [OF this] asked_start]
    have "asked not_for_signer (trace (s\<lparr>gate := g\<rparr>)) (final (verify_file v q d (verifyClientIP q)) (s\<lparr>gate := g\<rparr>))" .
    then show False using g(3,4) assms(2) by (auto simp: asked_def not_for_signer_def)
  qed
  then show ?thesis using g(1,2) by (auto simp: gate_acquire_def split: if_splits)
qed

theorem only_admissible_files_are_forwarded_witness:
  "admissible demo verify_request \<and> \<not> rate_limited demo (trace boot) (limiter_key verify_request) \<and>
   in_flight (gate boot) (verifyClientIP verify_request) < gate_max demo"
  using demo_asks_to_validate only_admissible_files_are_forwarded by blast

section \<open>The evidence\<close>

fun is_evidence :: "event \<Rightarrow> bool" where
  "is_evidence (ESvc c) = (sc_scope c = scopeVerifyAudit)"
| "is_evidence _ = False"

definition evidence_of :: "event list \<Rightarrow> event list" where
  "evidence_of es = filter is_evidence es"

lemma evidence_simps [simp]:
  "evidence_of [] = []" "evidence_of (EClock # es) = evidence_of es"
  "evidence_of (EEdgeBlock x y # es) = evidence_of es"
  "evidence_of (ESvc (evidence_call a ev) # es) = ESvc (evidence_call a ev) # evidence_of es"
  by (simp_all add: evidence_of_def evidence_call_def)

lemma evidence_not_verify [simp]:
  "sc_scope c = scopeVerifyRead \<Longrightarrow> evidence_of (ESvc c # es) = evidence_of es"
  by (simp add: evidence_of_def scopeVerifyAudit_def scopeVerifyRead_def)

text \<open>The events \<open>es\<close> leave one piece of evidence: of this file, size and address.\<close>

definition one_evidence :: "service \<Rightarrow> string \<Rightarrow> int \<Rightarrow> string \<Rightarrow> event list \<Rightarrow> bool" where
  "one_evidence a ip n sha es \<longleftrightarrow> (\<exists>ev. evidence_of es = [ESvc (evidence_call a ev)] \<and>
     ve_sha256 ev = sha \<and> ve_size_bytes ev = n \<and> ve_ip ev = ip)"

lemma recordVerify_trace:
  assumes "ap_verify_audit (app v) = Some a" "sv_base a \<noteq> []"
  shows "\<exists>es. trace (final (recordVerify v q ip n sha w d) s) = es @ trace s \<and> one_evidence a ip n sha es"
proof -
  let ?ev = "\<lparr>ve_ts = rfc3339 v (clock v (EClock # trace s)), ve_ip = ip, ve_user_agent = rq_user_agent q,
    ve_size_bytes = n, ve_sha256 = sha, ve_verdict = w, ve_correlation = rq_correlation q, ve_session = d\<rparr>"
  have "one_evidence a ip n sha [ESvc (evidence_call a ?ev), EClock]"
    unfolding one_evidence_def by (intro exI [of _ ?ev]) simp
  then show ?thesis using assms
    by (intro exI [of _ "[ESvc (evidence_call a ?ev), EClock]"]) (simp add: recordVerify_def now_def Record_def world_final)
qed

lemma one_evidence_more:
  "evidence_of old = [] \<Longrightarrow> one_evidence a ip n sha (es @ old) \<longleftrightarrow> one_evidence a ip n sha es"
  by (simp add: one_evidence_def evidence_of_def)

text \<open>Recording, from wherever the file has come to, with nothing recorded before.\<close>

lemma recorded_after:
  assumes "ap_verify_audit (app v) = Some a" "sv_base a \<noteq> []" "trace u = old @ trace s" "evidence_of old = []"
  shows "\<exists>es. trace (final (recordVerify v q ip n sha w d) u) = es @ trace s \<and> one_evidence a ip n sha es"
  using recordVerify_trace [OF assms(1,2), of q ip n sha w d u] one_evidence_more [OF assms(4)] assms(3)
  by (metis append.assoc)

lemma verify_data_evidence:
  assumes "ap_verify_audit (app v) = Some a" "sv_base a \<noteq> []"
  shows "\<exists>es. trace (final (verify_data v q c ip fh data) s) = es @ trace s \<and>
    one_evidence a ip (up_size fh) (hex_encode (sha256 v data)) es"
proof -
  obtain call where call: "trace (final (Verify_Validate v c (up_filename fh) data) s) = ESvc call # trace s"
    "sc_scope call = scopeVerifyRead" using Verify_Validate_trace by blast
  note r = recorded_after [OF assms, where q = q and ip = ip and n = "up_size fh" and sha = "hex_encode (sha256 v data)"]
  note here = r [of s "[]" s] and after = r [of _ "[ESvc call]" s] and later = r [of _ "[EClock, ESvc call]" s]
  show ?thesis
    using here after later call
    by (auto simp: verify_data_def verify_admitted_def Let_def world_final now_def split: option.split sum.split)
qed

text \<open>Without a recorder nothing is left.\<close>

lemma no_recorder_no_evidence:
  assumes "case ap_verify_audit (app v) of None \<Rightarrow> True | Some a \<Rightarrow> sv_base a = []"
  shows "\<exists>es. trace (final (verify_data v q c ip fh data) s) = es @ trace s \<and> evidence_of es = []"
proof -
  let ?P = "\<lambda>c. sc_scope c \<noteq> scopeVerifyAudit"
  have "keeps (asked ?P old) (recordVerify v q ip n sha w d)" for n sha w d old
    using assms by (auto simp: recordVerify_def now_def Record_def intro!: keeps_intros keeps_asked split: option.splits)
  moreover have "keeps (asked ?P old) (Verify_Validate v c n data)" for n data old
    by (auto simp: Verify_Validate_def svc_request_def Let_def case_prod_beta scopeVerifyAudit_def scopeVerifyRead_def
        intro!: keeps_intros keeps_asked)
  ultimately have "keeps (asked ?P (trace s)) (verify_data v q c ip fh data)"
    by (auto simp: verify_data_def verify_admitted_def now_def Let_def intro!: keeps_intros keeps_asked)
  from keeps_final [OF this asked_start] obtain es where
    es: "trace (final (verify_data v q c ip fh data) s) = es @ trace s" "\<forall>c. ESvc c \<in> set es \<longrightarrow> ?P c"
    by (auto simp: asked_def)
  have "\<not> is_evidence e" if "e \<in> set es" for e using es(2) that by (cases e) auto
  then show ?thesis using es(1) by (auto simp: evidence_of_def)
qed

definition evidence_is :: "env \<Rightarrow> string \<Rightarrow> int \<Rightarrow> string \<Rightarrow> bool \<Rightarrow> event list \<Rightarrow> bool" where
  "evidence_is v ip n sha examined es \<longleftrightarrow> (case ap_verify_audit (app v) of
     Some a \<Rightarrow> if examined \<and> sv_base a \<noteq> [] then one_evidence a ip n sha es else evidence_of es = []
   | None \<Rightarrow> evidence_of es = [])"

lemma data_evidence:
  "\<exists>es. trace (final (verify_data v q c ip fh data) s) = es @ trace s \<and>
    evidence_is v ip (up_size fh) (hex_encode (sha256 v data)) True es"
  using verify_data_evidence [of v _ q c ip fh data s] no_recorder_no_evidence [of v q c ip fh data s]
  by (cases "ap_verify_audit (app v)"; fastforce simp: evidence_is_def)

lemma evidence_is_block: "evidence_is v ip n sha x (EEdgeBlock i r # es) \<longleftrightarrow> evidence_is v ip n sha x es"
  by (simp add: evidence_is_def one_evidence_def split: option.split)

text \<open>
  C16. A file that was let in and read leaves its evidence: where a recorder is configured, and the
  content read keeps to the cap, exactly one piece, whatever became of the file (rejected at
  admission, not answered, rejected or answered by the provider), naming the address, the size
  and the digest of what was read; without a recorder, or past the cap, none.
\<close>

theorem every_examined_file_leaves_evidence:
  assumes "ap_verify (app v) = Some d" "\<not> rate_limited v (trace s) (limiter_key q)"
    and "gate_acquire (gate_max v) (verifyClientIP q) (gate s) = Some g"
    and "rq_form_files q = [fh]" "up_size fh \<le> verify_max_bytes (cfg v)" "up_content fh = Inr content"
    and "data = read_limited (verify_max_bytes (cfg v)) content"
  shows "\<exists>es. trace (final (verify_route v q) s) = es @ trace s \<and>
    evidence_is v (verifyClientIP q) (up_size fh) (hex_encode (sha256 v data))
      (int (length data) \<le> verify_max_bytes (cfg v)) es \<and>
    (countable_cap (verify_max_bytes (cfg v)) \<longrightarrow>
       (int (length content) \<le> verify_max_bytes (cfg v) \<longleftrightarrow> int (length data) \<le> verify_max_bytes (cfg v)) \<and>
       (int (length content) \<le> verify_max_bytes (cfg v) \<longrightarrow> data = content))"
proof -
  let ?x = "int (length data) \<le> verify_max_bytes (cfg v)" and ?ip = "verifyClientIP q"
  have f: "final (verify_file v q d ip) u =
      (if ?x then final (verify_data v q d ip fh data) u else final (ctx_error v file_too_large) u)" for ip u
    using assms(4-7) by (simp add: verify_file_def Let_def)
  obtain es where es: "trace (final (verify_file v q d ?ip) (s\<lparr>gate := g\<rparr>)) = es @ trace s"
    "evidence_is v ?ip (up_size fh) (hex_encode (sha256 v data)) ?x es"
  proof (cases ?x)
    case True
    then show thesis using that data_evidence [of v q d ?ip fh data "s\<lparr>gate := g\<rparr>"] by (auto simp: f)
  next
    case False
    then show thesis using that [of "[]"] by (simp add: f world_final evidence_is_def split: option.split)
  qed
  then have "trace (final (limited_verify v q) s) = es @ trace s" using assms(1-3)
    by (auto simp: limited_verify_def final_verifyDocument world_final Let_def)
  then have "\<exists>es. trace (final (verify_route v q) s) = es @ trace s \<and>
      evidence_is v ?ip (up_size fh) (hex_encode (sha256 v data)) ?x es"
    using es(2) evidence_is_block
    by (auto simp: verify_route_def edgeBlockEvents_def edgeBlock_def world_final split: if_splits)
  then show ?thesis using read_within_cap assms(7) by metis
qed

theorem every_examined_file_leaves_evidence_witness:
  "\<exists>es. trace (final (verify_route audited verify_request) boot) = es @ trace boot \<and>
     one_evidence \<lparr>sv_base = ''http://audit'', sv_audience = ''svc:access-audit''\<rparr> ''192.0.2.1'' 3
       (hex_encode (sha256 audited ''pdf'')) es"
proof -
  have "gate_acquire 1 ''192.0.2.1'' (gate boot) = Some [''192.0.2.1'' \<mapsto> 1]"
    by (simp add: gate_acquire_def in_flight_def boot_def)
  then show ?thesis
    using every_examined_file_leaves_evidence [of audited demo_signer boot verify_request
        "[''192.0.2.1'' \<mapsto> 1]" signed_file "''pdf''" "''pdf''"]
    by (auto simp: evidence_is_def)
qed

end
