(* ===== verification/StoreViews.thy ===== *)
theory StoreViews
  imports FlowTheorems
begin

text \<open>
  What is stored, whichever backend holds it: \<open>sessions_in\<close> and \<open>flows_in\<close> are the two halves of
  \<open>store_view\<close>, in Redis computed from the commands of the trace that were not answered with an
  error.  The lemmas say which changes
  of the state change them (the commands in their key space, the maps of the memory store) and
  what each store operation does to them; the facts kept over whole handlers rest on these.
\<close>

section \<open>The two views\<close>

definition sessions_in :: "env \<Rightarrow> (event list \<Rightarrow> gotime) \<Rightarrow> bff \<Rightarrow> (string \<rightharpoonup> entry)" where
  "sessions_in v rt s = snd (store_view v rt s)"

definition flows_in :: "env \<Rightarrow> (event list \<Rightarrow> gotime) \<Rightarrow> bff \<Rightarrow> (string \<rightharpoonup> entry)" where
  "flows_in v rt s = fst (store_view v rt s)"

lemma views_memory:
  "\<not> ap_redis (app v) \<Longrightarrow> sessions_in v rt s = sessions s" "\<not> ap_redis (app v) \<Longrightarrow> flows_in v rt s = flows s"
  by (simp_all add: sessions_in_def flows_in_def store_view_def memory_view_def)

lemma views_redis:
  "ap_redis (app v) \<Longrightarrow> sessions_in v rt s = (\<lambda>k. redis_db (redis_reply v) rt (trace s) (sessKey k))"
  "ap_redis (app v) \<Longrightarrow> flows_in v rt s = (\<lambda>k. redis_db (redis_reply v) rt (trace s) (flowKey k))"
  by (simp_all add: sessions_in_def flows_in_def store_view_def redis_view_def)

text \<open>Two sessions that differ in their tokens only.\<close>

definition same_but_tokens :: "session \<Rightarrow> session \<Rightarrow> bool" where
  "same_but_tokens x y \<longleftrightarrow> ses_key y = ses_key x \<and> ses_subject y = ses_subject x \<and>
     ses_csrf y = ses_csrf x \<and> ses_capabilities y = ses_capabilities x"

section \<open>What changes them\<close>

lemma views_cong:
  "trace t = trace s \<Longrightarrow> sessions t = sessions s \<Longrightarrow> sessions_in v rt t = sessions_in v rt s"
  "trace t = trace s \<Longrightarrow> flows t = flows s \<Longrightarrow> flows_in v rt t = flows_in v rt s"
  by (cases "ap_redis (app v)"; simp add: views_memory views_redis)+

lemma views_frame [simp]:
  "sessions_in v rt (s\<lparr>rsp := r\<rparr>) = sessions_in v rt s" "flows_in v rt (s\<lparr>rsp := r\<rparr>) = flows_in v rt s"
  "sessions_in v rt (s\<lparr>cur_sid := i\<rparr>) = sessions_in v rt s" "flows_in v rt (s\<lparr>cur_sid := i\<rparr>) = flows_in v rt s"
  "sessions_in v rt (s\<lparr>cur_ses := x\<rparr>) = sessions_in v rt s" "flows_in v rt (s\<lparr>cur_ses := x\<rparr>) = flows_in v rt s"
  "sessions_in v rt (s\<lparr>answers := a\<rparr>) = sessions_in v rt s" "flows_in v rt (s\<lparr>answers := a\<rparr>) = flows_in v rt s"
  "sessions_in v rt (s\<lparr>offered := f\<rparr>) = sessions_in v rt s" "flows_in v rt (s\<lparr>offered := f\<rparr>) = flows_in v rt s"
  "sessions_in v rt (s\<lparr>sign_in := f\<rparr>) = sessions_in v rt s" "flows_in v rt (s\<lparr>sign_in := f\<rparr>) = flows_in v rt s"
  "sessions_in v rt (offered_update g s) = sessions_in v rt s" "flows_in v rt (offered_update g s) = flows_in v rt s"
  "sessions_in v rt (sign_in_update g s) = sessions_in v rt s" "flows_in v rt (sign_in_update g s) = flows_in v rt s"
  "sessions_in v rt (s\<lparr>gate := g'\<rparr>) = sessions_in v rt s" "flows_in v rt (s\<lparr>gate := g'\<rparr>) = flows_in v rt s"
  "sessions_in v rt (s\<lparr>flows := m\<rparr>) = sessions_in v rt s" "flows_in v rt (s\<lparr>sessions := m\<rparr>) = flows_in v rt s"
  "sessions_in v rt (arrive s) = sessions_in v rt s" "flows_in v rt (arrive s) = flows_in v rt s"
  by (rule views_cong; simp add: arrive_def)+

lemma views_boot [simp]: "sessions_in v rt boot = Map.empty" "flows_in v rt boot = Map.empty"
  by (cases "ap_redis (app v)"; simp add: views_memory views_redis boot_def)+

lemma db_event: "\<not> is_write e \<Longrightarrow> redis_db rp rt (e # tr) = redis_db rp rt tr"
  by (cases e) (simp_all add: is_write_def split: redis_cmd.splits)

lemma views_event [simp]:
  "\<not> is_write e \<Longrightarrow> sessions_in v rt (s\<lparr>trace := e # trace s\<rparr>) = sessions_in v rt s"
  "\<not> is_write e \<Longrightarrow> flows_in v rt (s\<lparr>trace := e # trace s\<rparr>) = flows_in v rt s"
  by (cases "ap_redis (app v)"; simp add: views_memory views_redis db_event del: redis_db.simps)+

lemma views_events:
  "list_all (\<lambda>e. \<not> is_write e) es \<Longrightarrow> sessions_in v rt (s\<lparr>trace := es @ trace s\<rparr>) = sessions_in v rt s"
  "list_all (\<lambda>e. \<not> is_write e) es \<Longrightarrow> flows_in v rt (s\<lparr>trace := es @ trace s\<rparr>) = flows_in v rt s"
proof -
  have "list_all (\<lambda>e. \<not> is_write e) es \<Longrightarrow> redis_db rp rt (es @ tr) = redis_db rp rt tr" for rp tr
    by (induction es) (simp_all add: db_event del: redis_db.simps(2))
  then show "list_all (\<lambda>e. \<not> is_write e) es \<Longrightarrow> sessions_in v rt (s\<lparr>trace := es @ trace s\<rparr>) = sessions_in v rt s"
    "list_all (\<lambda>e. \<not> is_write e) es \<Longrightarrow> flows_in v rt (s\<lparr>trace := es @ trace s\<rparr>) = flows_in v rt s"
    by (cases "ap_redis (app v)"; simp add: views_memory views_redis)+
qed

text \<open>The key spaces of the two stores and of the answer cache do not meet.\<close>

lemma answer_space [simp]:
  "answer_prefix @ k \<noteq> sessKey k'" "sessKey k' \<noteq> answer_prefix @ k"
  "answer_prefix @ k \<noteq> flowKey k'" "flowKey k' \<noteq> answer_prefix @ k"
  by (simp_all add: answer_prefix_def sessKey_def flowKey_def)

lemma views_elsewhere [simp]:
  "sessions_in v rt (s\<lparr>trace := ERedis (RSet (answer_prefix @ k) b ttl) # trace s\<rparr>) = sessions_in v rt s"
  "flows_in v rt (s\<lparr>trace := ERedis (RSet (answer_prefix @ k) b ttl) # trace s\<rparr>) = flows_in v rt s"
  "sessions_in v rt (s\<lparr>trace := ERedis (RSet (flowKey k) b ttl) # trace s\<rparr>) = sessions_in v rt s"
  "sessions_in v rt (s\<lparr>trace := ERedis (RGetDel (flowKey k)) # trace s\<rparr>) = sessions_in v rt s"
  "flows_in v rt (s\<lparr>trace := ERedis (RSet (sessKey k) b ttl) # trace s\<rparr>) = flows_in v rt s"
  "flows_in v rt (s\<lparr>trace := ERedis (RDel (sessKey k)) # trace s\<rparr>) = flows_in v rt s"
  by (cases "ap_redis (app v)"; simp add: views_memory views_redis put_entry_def)+

text \<open>A command in their key space, when it is executed.\<close>

definition executed :: "env \<Rightarrow> redis_cmd \<Rightarrow> bff \<Rightarrow> bool" where
  "executed v c s \<longleftrightarrow> ap_redis (app v) \<and> accepted (redis_reply v (ERedis c # trace s))"

lemma views_written [simp]:
  "sessions_in v rt (s\<lparr>trace := ERedis (RSet (sessKey k) b ttl) # trace s\<rparr>) = (if executed v (RSet (sessKey k) b ttl) s
     then put_entry ttl (rt (ERedis (RSet (sessKey k) b ttl) # trace s)) k b (sessions_in v rt s) else sessions_in v rt s)"
  "sessions_in v rt (s\<lparr>trace := ERedis (RDel (sessKey k)) # trace s\<rparr>) = (if executed v (RDel (sessKey k)) s
     then (sessions_in v rt s)(k := None) else sessions_in v rt s)"
  "flows_in v rt (s\<lparr>trace := ERedis (RSet (flowKey k) b ttl) # trace s\<rparr>) = (if executed v (RSet (flowKey k) b ttl) s
     then put_entry ttl (rt (ERedis (RSet (flowKey k) b ttl) # trace s)) k b (flows_in v rt s) else flows_in v rt s)"
  "flows_in v rt (s\<lparr>trace := ERedis (RGetDel (flowKey k)) # trace s\<rparr>) = (if executed v (RGetDel (flowKey k)) s
     then (flows_in v rt s)(k := None) else flows_in v rt s)"
  by (cases "ap_redis (app v)"; simp add: executed_def views_memory views_redis put_entry_def fun_eq_iff)+

lemma reliable_executes: "reliable v rt \<Longrightarrow> executed v c s \<longleftrightarrow> ap_redis (app v)"
  by (auto simp: executed_def reliable_def)

lemma views_memory_maps [simp]:
  "sessions_in v rt (s\<lparr>sessions := m\<rparr>) = (if ap_redis (app v) then sessions_in v rt s else m)"
  "flows_in v rt (s\<lparr>flows := m\<rparr>) = (if ap_redis (app v) then flows_in v rt s else m)"
  by (cases "ap_redis (app v)"; simp add: views_memory views_redis)+

section \<open>What the operations do to them\<close>

text \<open>A write leaves what was there when the server answers it with an error.\<close>

lemma PutSession_views:
  obtains m where "sessions_in v rt (final (PutSession v sid x) s) = m"
    "flows_in v rt (final (PutSession v sid x) s) = flows_in v rt s"
    "m = sessions_in v rt s \<or> (\<exists>t. m = put_entry (session_ttl (cfg v)) t sid (Doc (enc_session x)) (sessions_in v rt s))"
    "reliable v rt \<Longrightarrow> \<exists>t. m = put_entry (session_ttl (cfg v)) t sid (Doc (enc_session x)) (sessions_in v rt s)"
  by (cases "ap_redis (app v)"; force simp: PutSession_def redis_PutSession_def mem_PutSession_def redis_def now_def
      world_final views_memory reliable_executes)

lemma DeleteSession_answered:
  "sessions_in v rt (final (DeleteSession v sid) s) =
    (if ap_redis (app v) \<and> \<not> executed v (RDel (sessKey sid)) s then sessions_in v rt s
     else (sessions_in v rt s)(sid := None))"
  by (cases "ap_redis (app v)"; simp add: DeleteSession_def redis_DeleteSession_def mem_DeleteSession_def redis_def
      world_final views_memory)

lemma DeleteSession_views:
  "reliable v rt \<Longrightarrow> sessions_in v rt (final (DeleteSession v sid) s) = (sessions_in v rt s)(sid := None)"
  "flows_in v rt (final (DeleteSession v sid) s) = flows_in v rt s"
  by (cases "ap_redis (app v)"; simp add: DeleteSession_def redis_DeleteSession_def mem_DeleteSession_def redis_def
      world_final views_memory reliable_executes)+

lemma PutFlow_views:
  obtains m where "flows_in v rt (final (PutFlow v k f) s) = m"
    "sessions_in v rt (final (PutFlow v k f) s) = sessions_in v rt s"
    "m = flows_in v rt s \<or> (\<exists>t. m = put_entry (flow_ttl (cfg v)) t k (Doc (enc_flow (cal v) f)) (flows_in v rt s))"
  by (cases "ap_redis (app v)"; force simp: PutFlow_def redis_PutFlow_def mem_PutFlow_def redis_def now_def
      world_final views_memory)

lemma TakeFlow_views:
  "reliable v rt \<Longrightarrow> flows_in v rt (final (TakeFlow v k) s) = (flows_in v rt s)(k := None)"
  "flows_in v rt (final (TakeFlow v k) s) \<in> {flows_in v rt s, (flows_in v rt s)(k := None)}"
  "sessions_in v rt (final (TakeFlow v k) s) = sessions_in v rt s"
  by (cases "ap_redis (app v)"; auto simp: TakeFlow_def redis_TakeFlow_def mem_TakeFlow_def redis_def now_def
      world_final views_memory reliable_executes split: option.split)+

lemma GetSession_views:
  "sessions_in v rt (final (GetSession v sid) s) = sessions_in v rt s"
  "flows_in v rt (final (GetSession v sid) s) = flows_in v rt s"
  by (cases "ap_redis (app v)"; auto simp: GetSession_def redis_GetSession_def mem_GetSession_def redis_def now_def
      world_final split: option.split)+

text \<open>Everything but a store operation leaves both as they are.\<close>

definition views_are :: "env \<Rightarrow> (event list \<Rightarrow> gotime) \<Rightarrow> contents \<Rightarrow> bff \<Rightarrow> bool" where
  "views_are v rt c s \<longleftrightarrow> (flows_in v rt s, sessions_in v rt s) = c"

interpretation views: event_invariant "views_are v rt c" for v rt c
  by unfold_locales (simp_all add: views_are_def)

lemma verify_views:
  "sessions_in v rt (final (verify_route v' q) s) = sessions_in v rt s"
  "flows_in v rt (final (verify_route v' q) s) = flows_in v rt s"
  using keeps_final [OF views.keeps_verify_route, of v rt "(flows_in v rt s, sessions_in v rt s)" s v' q]
  by (auto simp: views_are_def)

end
