(* ===== verification/Process.thy ===== *)
theory Process
  imports SignInTheorems VerifyTheorems StoreViews
begin

text \<open>
  What one request does to the state of the process: which sessions a request behind the gate
  may change, that the trace only grows, and which session a login return stores.
\<close>

section \<open>A request and the sessions of others\<close>

text \<open>
  \<open>own_session v rt m sid x s\<close>: serving a request of the session \<open>x\<close> under \<open>sid\<close>, the store
  differs from \<open>m\<close> under that id at most, where it holds what it held, nothing, or that session
  with other tokens.
\<close>

definition own_entries :: "(string \<rightharpoonup> entry) \<Rightarrow> string \<Rightarrow> session \<Rightarrow> (string \<rightharpoonup> entry) \<Rightarrow> bool" where
  "own_entries m sid x m' \<longleftrightarrow> (\<forall>k. k \<noteq> sid \<longrightarrow> m' k = m k) \<and>
     (\<forall>b t. m' sid = Some (b, t) \<longrightarrow>
        m sid = Some (b, t) \<or> (\<exists>y. b = Doc (enc_session y) \<and> same_but_tokens x y))"

lemma own_entries_same: "own_entries m sid x m"
  by (simp add: own_entries_def)

lemma own_entries_put:
  "own_entries m sid x m' \<Longrightarrow> same_but_tokens x y \<Longrightarrow> own_entries m sid x (put_entry ttl t sid (Doc (enc_session y)) m')"
  by (auto simp: own_entries_def put_entry_def)

lemma own_entries_forget: "own_entries m sid x m' \<Longrightarrow> own_entries m sid x (m'(sid := None))"
  by (auto simp: own_entries_def)

definition own_session :: "env \<Rightarrow> (event list \<Rightarrow> gotime) \<Rightarrow> (string \<rightharpoonup> entry) \<Rightarrow> string \<Rightarrow> session \<Rightarrow> bff \<Rightarrow> bool" where
  "own_session v rt m sid x s \<longleftrightarrow> cur_sid s = sid \<and> same_but_tokens x (cur_ses s) \<and>
     own_entries m sid x (sessions_in v rt s)"

interpretation own: handler_invariant "own_session v rt m sid x" "ses_subject x" "\<lambda>_. True" for v rt m sid x
  by unfold_locales
     (simp_all add: own_session_def own_entries_put own_entries_forget views_memory(1) [of v rt, symmetric],
      simp_all add: same_but_tokens_def)

lemma own_authed:
  assumes "(m, p, h) \<in> set authed_routes"
  shows "keeps (own_session v' rt st sid x) (h v q)"
  using assms
  by (auto simp: authed_routes_def route_groups own.keeps_session_routes own.keeps_logout
      own.keeps_document_routes own.keeps_preview_routes own.keeps_signing_routes
      own.keeps_envelope_routes own.keeps_dashboard)


section \<open>A request behind the gate\<close>

text \<open>What the gate itself does: the clock, a read of the session, the event of a refusal.\<close>

definition gate_event :: "event \<Rightarrow> bool" where
  "gate_event e \<longleftrightarrow> \<not> is_call e \<and> \<not> is_sign_in e \<and> \<not> is_write e"

lemma gate_views:
  assumes "list_all gate_event es"
  shows "sessions_in v rt ((arrive s)\<lparr>trace := es @ trace s\<rparr>) = sessions_in v rt s"
    "flows_in v rt ((arrive s)\<lparr>trace := es @ trace s\<rparr>) = flows_in v rt s"
proof -
  have "list_all (\<lambda>e. \<not> is_write e) es" using assms by (simp add: gate_event_def list_all_iff)
  moreover have "trace (arrive s) = trace s" by (simp add: arrive_def)
  ultimately show "sessions_in v rt ((arrive s)\<lparr>trace := es @ trace s\<rparr>) = sessions_in v rt s"
    "flows_in v rt ((arrive s)\<lparr>trace := es @ trace s\<rparr>) = flows_in v rt s"
    using views_events [of es v rt "arrive s"] by simp_all
qed

text \<open>Either the gate lets the request through on a live session, or it answers an error.\<close>

lemma gate_cases:
  assumes "sid = readCookie q (cookie_name (cfg v))"
  obtains (passed) x where "answer (GetSession v sid) (arrive s) = Inr x"
      "serve v (\<lambda>v q. requireSession v q (h v q)) q s
        = final (h v q) ((final (GetSession v sid) (arrive s))\<lparr>cur_sid := sid, cur_ses := x\<rparr>)"
    | (stopped) es r where "serve v (\<lambda>v q. requireSession v q (h v q)) q s
        = (arrive s)\<lparr>trace := es @ trace s, rsp := r\<rparr>" "list_all gate_event es" "\<exists>e. rsp_body r = BError e"
proof (cases "\<exists>x. sid \<noteq> [] \<and> answer (GetSession v sid) (arrive s) = Inr x \<and> \<not> csrf_refused q x")
  case True
  then show thesis using requireSession_passed [OF assms(1) [symmetric]] passed by (auto simp: serve_def)
next
  case False
  obtain es where f: "final (GetSession v sid) (arrive s) = (arrive s)\<lparr>trace := es @ trace (arrive s)\<rparr>"
    "list_all (\<lambda>e. e = EClock \<or> e = ERedis (RGet (sessKey sid))) es"
    using final_GetSession by blast
  from f(1) have g: "final (GetSession v sid) (arrive s) = (arrive s)\<lparr>trace := es @ trace s\<rparr>" by (simp add: arrive_def)
  from f(2) have es: "list_all gate_event es" by (auto simp: list_all_iff gate_event_def)
  let ?t = "serve v (\<lambda>v q. requireSession v q (h v q)) q s"
  consider (none) "sid = []" | (lost) e where "sid \<noteq> []" "answer (GetSession v sid) (arrive s) = Inl e"
    | (refused) x where "sid \<noteq> []" "answer (GetSession v sid) (arrive s) = Inr x" "csrf_refused q x"
    using False by (cases "answer (GetSession v sid) (arrive s)") auto
  then have "\<exists>es r. ?t = (arrive s)\<lparr>trace := es @ trace s, rsp := r\<rparr> \<and> (\<exists>e. rsp_body r = BError e) \<and> list_all gate_event es"
  proof cases
    case none
    then have "?t = final (ctx_error v (unauthorized ''no session'')) (arrive s)"
      using requireSession_none [of q v] assms(1) by (simp add: serve_def)
    then show ?thesis by (intro exI [of _ "[]"]) (simp add: final_ctx_error arrive_def, rule exI, rule conjI, rule refl, simp)
  next
    case lost
    show ?thesis
      by (intro exI [of _ es]) (simp add: serve_def requireSession_lost [OF assms(1) [symmetric] lost] g es
          world_final clearSessionCookies_def add_cookie_def, rule exI, rule conjI, rule refl, simp)
  next
    case (refused x)
    show ?thesis
      by (intro exI [of _ "(if sec_events v then [EAuthZDenied (ses_subject x)] else []) @ es"],
          cases "sec_events v")
         (simp add: serve_def requireSession_refused [OF assms(1) [symmetric] refused] g es world_final
           final_csrfDenied gate_event_def, rule exI, rule conjI, rule refl, simp)+
  qed
  then show thesis using stopped by blast
qed

lemma guarded_sessions:
  assumes "(m, p, h) \<in> set authed_routes" "sid = readCookie q (cookie_name (cfg v))"
    and "t = serve v (\<lambda>v q. requireSession v q (h v q)) q s"
  shows "(\<forall>k. k \<noteq> sid \<longrightarrow> sessions_in v rt t k = sessions_in v rt s k) \<and>
    (\<forall>b e. sessions_in v rt t sid = Some (b, e) \<longrightarrow> sessions_in v rt s sid = Some (b, e) \<or>
      (\<exists>x y. answer (GetSession v sid) (arrive s) = Inr x \<and> b = Doc (enc_session y) \<and> same_but_tokens x y))"
  using assms(2)
proof (cases rule: gate_cases [of sid q v s h])
  case (passed x)
  have "own_session v rt (sessions_in v rt s) sid x
      (final (h v q) ((final (GetSession v sid) (arrive s))\<lparr>cur_sid := sid, cur_ses := x\<rparr>))"
    by (rule keeps_final [OF own_authed [OF assms(1)]])
       (simp add: own_session_def same_but_tokens_def GetSession_views own_entries_same)
  then show ?thesis using passed by (auto simp: own_session_def own_entries_def assms(3))
next
  case (stopped es r)
  then show ?thesis by (simp add: assms(3) gate_views)
qed

section \<open>The trace only grows\<close>

lemma guarded_trace:
  assumes "(m, p, h) \<in> set authed_routes"
  shows "\<exists>es. trace (serve v (\<lambda>v q. requireSession v q (h v q)) q s) = es @ trace s"
  using refl [of "readCookie q (cookie_name (cfg v))"]
proof (cases rule: gate_cases [where s = s and h = h])
  case (passed x)
  let ?sid = "readCookie q (cookie_name (cfg v))"
  let ?u = "(final (GetSession v ?sid) (arrive s))\<lparr>cur_sid := ?sid, cur_ses := x\<rparr>"
  obtain es where "final (GetSession v ?sid) (arrive s) = (arrive s)\<lparr>trace := es @ trace (arrive s)\<rparr>"
    using final_GetSession by blast
  then have "trace ?u = es @ trace s" by (simp add: arrive_def)
moreover have "delegated (ses_subject x) (trace ?u) ?u"
    using calls_for_start [of _ ?u] by (simp add: delegated_def)
  then have "delegated (ses_subject x) (trace ?u) (final (h v q) ?u)"
    by (rule keeps_final [OF keeps_authed [OF assms]])
  ultimately show ?thesis using passed \<open>trace ?u = es @ trace s\<close>
    by (auto simp: delegated_def calls_for_def)
next
  case (stopped es r)
  then show ?thesis by simp
qed

lemma open_trace:
  assumes "(m, p, h) \<in> set open_routes"
  shows "\<exists>es. trace (serve v h q s) = es @ trace s"
proof -
  have "no_calls (trace (arrive s)) (final (h v q) (arrive s))"
    by (rule keeps_final [OF keeps_open [OF assms] no_calls_start])
  then show ?thesis by (auto simp: no_calls_def serve_def arrive_def)
qed

lemma serve_trace:
  assumes "(m, p, h) \<in> set Init"
  shows "\<exists>es. trace (serve v h q s) = es @ trace s"
  using assms by (cases rule: Init_cases) (auto simp: open_trace guarded_trace)

section \<open>The open routes and the sessions\<close>

definition sessions_are :: "env \<Rightarrow> (event list \<Rightarrow> gotime) \<Rightarrow> (string \<rightharpoonup> entry) \<Rightarrow> bff \<Rightarrow> bool" where
  "sessions_are v rt m s \<longleftrightarrow> sessions_in v rt s = m"

interpretation stored: open_invariant "sessions_are v rt m" "\<lambda>_. True" "\<lambda>_. True" for v rt m
  by unfold_locales (simp_all add: sessions_are_def sign_in_no_write)

lemma open_sessions:
  assumes "(m, p, h) \<in> set open_routes" "h \<noteq> loginCallback"
  shows "sessions_in v rt (serve v h q s) = sessions_in v rt s"
proof -
  have "keeps (sessions_are v rt (sessions_in v rt s)) (h v q)"
    using assms
    by (auto simp: open_routes_def stored.keeps_loginStart stored.keeps_signInMethods stored.keeps_health
        sessions_are_def intro!: stored.keeps_verify_route)
  from keeps_final [OF this, of "arrive s"] show ?thesis
    by (simp add: sessions_are_def serve_def)
qed

text \<open>
  \<open>vouched v tr sub\<close>: some login return asked the Auth Service to redeem a code and was answered
  tokens whose access token names \<open>sub\<close>.
\<close>

definition vouched :: "env \<Rightarrow> event list \<Rightarrow> string \<Rightarrow> bool" where
  "vouched v tr sub \<longleftrightarrow> (\<exists>es key ac ver chk old tk. tr = es @ EExchange key ac ver chk # old \<and>
     exchange_reply v (EExchange key ac ver chk # old) = Inr tk \<and>
     sub = subject_from_token v (tk_access tk))"

lemma vouched_grows: "vouched v tr sub \<Longrightarrow> vouched v (es @ tr) sub"
  unfolding vouched_def by (metis append.assoc)

lemma subject_new_session [simp]: "ses_subject (new_session v ke csrf t tk) = subject_from_token v (tk_access tk)"
  by (simp add: new_session_def)

definition vouched_or :: "env \<Rightarrow> (event list \<Rightarrow> gotime) \<Rightarrow> (string \<rightharpoonup> entry) \<Rightarrow> string \<Rightarrow> bff \<Rightarrow> bool" where
  "vouched_or v rt m sub s \<longleftrightarrow> vouched v (trace s) sub \<and> (\<forall>sid b e. sessions_in v rt s sid = Some (b, e) \<longrightarrow>
     m sid = Some (b, e) \<or> (\<exists>x. b = Doc (enc_session x) \<and> ses_subject x = sub))"

interpretation landed: sign_in_invariant "vouched_or v rt m sub" "\<lambda>_. True" for v rt m sub
  using vouched_grows [of v _ sub "[e]" for e] by unfold_locales (simp_all add: vouched_or_def sign_in_no_write)

lemma PutSession_trace: "\<exists>es. trace (final (PutSession v sid x) s) = es @ trace s"
  by (auto simp: PutSession_def redis_PutSession_def mem_PutSession_def redis_def now_def world_final)

lemma keeps_established:
  "keeps (vouched_or v rt m (subject_from_token v (tk_access tk))) (establishSession v q ke tk)"
proof -
  let ?I = "vouched_or v rt m (subject_from_token v (tk_access tk))"
  have "?I (final (PutSession v sid (new_session v ke csrf t tk)) s)" if "?I s" for sid csrf t s
  proof -
    obtain es where "trace (final (PutSession v sid (new_session v ke csrf t tk)) s) = es @ trace s"
      using PutSession_trace by blast
    moreover obtain m' where "sessions_in v rt (final (PutSession v sid (new_session v ke csrf t tk)) s) = m'"
        "m' = sessions_in v rt s \<or> (\<exists>tm. m' =
           put_entry (session_ttl (cfg v)) tm sid (Doc (enc_session (new_session v ke csrf t tk))) (sessions_in v rt s))"
      by (rule PutSession_views)
    ultimately show ?thesis
      using that vouched_grows [of v "trace s" _ es]
      by (elim disjE exE) (simp_all add: vouched_or_def put_entry_def, fastforce+)
  qed
  then have "keeps ?I (PutSession v sid (new_session v ke csrf t tk))" for sid csrf t
    by (simp add: keeps_def final_def)
  moreover have "keeps ?I (add_cookie c)" for c
    by (auto simp: add_cookie_def vouched_or_def intro!: keeps_modify)
  ultimately show ?thesis
    by (auto simp: establishSession_def setSessionCookies_def intro!: keeps_intros landed.keeps_primitives)
qed

lemma finish_login_sessions:
  "sessions_in v rt (final (finish_login v q ac f) u) = sessions_in v rt u \<or>
   (\<exists>sub. vouched_or v rt (sessions_in v rt u) sub (final (finish_login v q ac f) u))"
proof (cases "ParseKey (key_der v) (fl_key f)")
  case (Inl e)
  then show ?thesis by (simp add: finish_login_def lift_text_def world_final)
next
  case (Inr key)
  let ?u = "u\<lparr>trace := exchange_event ac f key # trace u\<rparr>"
  show ?thesis
  proof (cases "exchange_reply v (trace ?u)")
    case (Inl e)
    then show ?thesis using Inr
      by (simp add: finish_login_def lift_text_def exchangeFlow_def exchange_event_def freshOnly_def world_final)
  next
    case tk: (Inr tk)
    let ?sub = "subject_from_token v (tk_access tk)"
    have "vouched v (trace ?u) ?sub"
      unfolding vouched_def using tk
      by (intro exI [of _ "[]"] exI [of _ key] exI [of _ ac] exI [of _ "fl_verifier f"]
          exI [of _ "\<lparr>tc_nonce = fl_nonce f, tc_acr_values = fl_acr_values f, tc_max_age = Some 0,
            tc_started = fl_started f\<rparr>"] exI [of _ "trace u"] exI [of _ tk]) (simp add: exchange_event_def)
    then have "vouched_or v rt (sessions_in v rt u) ?sub ?u" by (simp add: vouched_or_def exchange_event_def)
    moreover have "keeps (vouched_or v rt (sessions_in v rt u) ?sub) (do { r \<leftarrow> establishSession v q (fl_key f) tk;
        case r of Inl e \<Rightarrow> fail v e | Inr _ \<Rightarrow> ctx_redirect (post_login_url (cfg v)) })"
      by (intro keeps_intros keeps_established landed.keeps_primitives landed.keeps_redirect) simp_all
    ultimately show ?thesis using Inr tk keeps_final
      by (fastforce simp: finish_login_def lift_text_def exchangeFlow_def exchange_event_def freshOnly_def world_final)
  qed
qed

lemma callback_sessions:
  "sessions_in v rt (final (loginCallback v q) s) = sessions_in v rt s \<or>
   (\<exists>sub. vouched_or v rt (sessions_in v rt s) sub (final (loginCallback v q) s))"
proof (cases "callback_ready v q")
  case False
  then show ?thesis using callback_not_ready [of v q s] by auto
next
  case True
  then show ?thesis
    using finish_login_sessions [of v rt q _ _ "final (TakeFlow v (callback_key v q)) s"]
    by (simp add: callback_run final_redirect TakeFlow_views(3) split: sum.split)
qed

text \<open>What is read back from a stored session is that session.\<close>

lemma decode_session_same: "decode dec_session zero_session (Doc (enc_session x)) = Inr y \<Longrightarrow> y = x"
proof (cases "valid_session x")
  case False
  have "distinct (map fname session_fields)" by (simp add: session_fields_def)
  from dec_enc_struct [OF this] have "dec_session (enc_session x) zero_session = None"
    using False by (simp add: dec_session_def enc_session_def)
      (simp add: session_fields_def valid_session_def copy_str copy_int_out)
  then show "decode dec_session zero_session (Doc (enc_session x)) = Inr y \<Longrightarrow> y = x"
    by (simp add: decode_def)
qed simp

section \<open>Sessions the Auth Service vouched for\<close>

definition all_vouched :: "env \<Rightarrow> (event list \<Rightarrow> gotime) \<Rightarrow> bff \<Rightarrow> bool" where
  "all_vouched v rt s \<longleftrightarrow> (\<forall>sid b e. sessions_in v rt s sid = Some (b, e) \<longrightarrow>
     (\<exists>x. b = Doc (enc_session x) \<and> vouched v (trace s) (ses_subject x)))"

lemma all_vouchedD:
  "all_vouched v rt s \<Longrightarrow> sessions_in v rt s sid = Some (b, e) \<Longrightarrow>
   \<exists>x. b = Doc (enc_session x) \<and> vouched v (es @ trace s) (ses_subject x)"
  using vouched_grows unfolding all_vouched_def by blast

lemma vouched_or_all:
  assumes "all_vouched v rt s" "trace t = es @ trace s" "vouched_or v rt (sessions_in v rt s) sub t"
  shows "all_vouched v rt t"
  using assms(3) all_vouchedD [OF assms(1), of _ _ _ es]
  unfolding all_vouched_def vouched_or_def assms(2) by metis

lemma all_vouched_logs:
  assumes "all_vouched v rt s" "trace t = es @ trace s" "sessions_in v rt t = sessions_in v rt s"
  shows "all_vouched v rt t"
  using all_vouchedD [OF assms(1), of _ _ _ es] by (simp add: all_vouched_def assms)

lemma open_vouched:
  assumes "(m, p, h) \<in> set open_routes" "all_vouched v rt s"
  shows "all_vouched v rt (serve v h q s)"
proof -
  obtain es where es: "trace (serve v h q s) = es @ trace s" using open_trace [OF assms(1)] by blast
  have "sessions_in v rt (serve v h q s) = sessions_in v rt s \<or>
      (\<exists>sub. vouched_or v rt (sessions_in v rt s) sub (serve v h q s))"
    using open_sessions [OF assms(1)] callback_sessions [of v rt q "arrive s"]
    by (cases "h = loginCallback") (auto simp: serve_def)
  then show ?thesis using all_vouched_logs [OF assms(2) es] vouched_or_all [OF assms(2) es] by blast
qed

lemma found_stored:
  assumes "answer (GetSession v sid) s = Inr x" "reliable v rt"
  obtains b e where "sessions_in v rt s sid = Some (b, e)" "decode dec_session zero_session b = Inr x"
  using assms(1)
  by (auto simp: GetSession_spec [OF assms(2)] read_entry_def get_entry_def sessions_in_def split: option.splits if_splits)

lemma guarded_vouched:
  assumes "(m, p, h) \<in> set authed_routes" "all_vouched v rt s" "reliable v rt"
    and "t = serve v (\<lambda>v q. requireSession v q (h v q)) q s"
  shows "all_vouched v rt t"
proof -
  let ?sid = "readCookie q (cookie_name (cfg v))"
  obtain es where es: "trace t = es @ trace s" using guarded_trace [OF assms(1)] assms(4) by blast
  note old = all_vouchedD [OF assms(2), of _ _ _ es]
  note g = guarded_sessions [where rt = rt, OF assms(1) refl assms(4)]
  have own: "\<exists>y. b = Doc (enc_session y) \<and> vouched v (trace t) (ses_subject y)"
    if x: "answer (GetSession v ?sid) (arrive s) = Inr x" "b = Doc (enc_session y)" "same_but_tokens x y" for b x y
  proof -
    obtain b' e' where "sessions_in v rt s ?sid = Some (b', e')" "decode dec_session zero_session b' = Inr x"
      using found_stored [OF x(1) assms(3)] by auto
    then have "vouched v (trace t) (ses_subject x)" using old decode_session_same es by metis
    then show ?thesis using x by (auto simp: same_but_tokens_def)
  qed
  show ?thesis unfolding all_vouched_def
  proof (intro allI impI)
    fix sid b e assume "sessions_in v rt t sid = Some (b, e)"
    then show "\<exists>x. b = Doc (enc_session x) \<and> vouched v (trace t) (ses_subject x)"
      using g old own es by (cases "sid = ?sid") metis+
  qed
qed

section \<open>What the store and the gate hold between requests\<close>

text \<open>
  Every stored value is the encoding of a flow or of a session whose signing-bound key can be read
  back, and no verification is counted as running.
\<close>

definition key_reads :: "env \<Rightarrow> string \<Rightarrow> bool" where
  "key_reads v s \<longleftrightarrow> (\<exists>key. ParseKey (key_der v) s = Inr key)"

definition flow_entry :: "env \<Rightarrow> entry \<Rightarrow> bool" where
  "flow_entry v e \<longleftrightarrow> (\<exists>f. fst e = Doc (enc_flow (cal v) f) \<and> key_reads v (fl_key f))"

definition session_entry :: "env \<Rightarrow> entry \<Rightarrow> bool" where
  "session_entry v e \<longleftrightarrow> (\<exists>x. fst e = Doc (enc_session x) \<and> key_reads v (ses_key x))"

definition well_kept :: "env \<Rightarrow> (event list \<Rightarrow> gotime) \<Rightarrow> bff \<Rightarrow> bool" where
  "well_kept v rt s \<longleftrightarrow> gate s = Map.empty \<and> (\<forall>k e. flows_in v rt s k = Some e \<longrightarrow> flow_entry v e) \<and>
     (\<forall>k e. sessions_in v rt s k = Some e \<longrightarrow> session_entry v e)"

interpretation kept: sign_in_invariant "well_kept v rt" "\<lambda>_. True" for v rt
  by unfold_locales (simp_all add: well_kept_def sign_in_no_write)

lemma store_gate:
  "gate (final (PutFlow v k f) s) = gate s" "gate (final (PutSession v sid x) s) = gate s"
  "gate (final (TakeFlow v k) s) = gate s"
  by (auto simp: store_defs world_final split: option.split)

lemma kept_PutFlow:
  assumes "key_reads v (fl_key f)"
  shows "keeps (well_kept v rt) (PutFlow v k f)"
proof -
  have "well_kept v rt (final (PutFlow v k f) s)" if "well_kept v rt s" for s
  proof (rule PutFlow_views [of v rt k f s])
    fix m assume "flows_in v rt (final (PutFlow v k f) s) = m"
      "m = flows_in v rt s \<or> (\<exists>t. m = put_entry (flow_ttl (cfg v)) t k (Doc (enc_flow (cal v) f)) (flows_in v rt s))"
      "sessions_in v rt (final (PutFlow v k f) s) = sessions_in v rt s"
    moreover have "flow_entry v (Doc (enc_flow (cal v) f), e)" for e using assms by (auto simp: flow_entry_def)
    ultimately show ?thesis using that by (auto simp: well_kept_def store_gate put_entry_def split: if_splits)
  qed
  then show ?thesis by (simp add: keeps_def final_def)
qed

lemma kept_PutSession:
  assumes "key_reads v (ses_key x)"
  shows "keeps (well_kept v rt) (PutSession v k x)"
proof -
  have "well_kept v rt (final (PutSession v k x) s)" if "well_kept v rt s" for s
  proof (rule PutSession_views [of v rt k x s])
    fix m assume "sessions_in v rt (final (PutSession v k x) s) = m"
      "m = sessions_in v rt s \<or> (\<exists>t. m = put_entry (session_ttl (cfg v)) t k (Doc (enc_session x)) (sessions_in v rt s))"
      "flows_in v rt (final (PutSession v k x) s) = flows_in v rt s"
    moreover have "session_entry v (Doc (enc_session x), e)" for e using assms by (auto simp: session_entry_def)
    ultimately show ?thesis using that by (auto simp: well_kept_def store_gate put_entry_def split: if_splits)
  qed
  then show ?thesis by (simp add: keeps_def final_def)
qed

lemma kept_TakeFlow: "keeps (well_kept v rt) (TakeFlow v k)"
proof -
  have "well_kept v rt (final (TakeFlow v k) s)" if "well_kept v rt s" for s
    using that TakeFlow_views(2) [of v rt k s] by (auto simp: well_kept_def TakeFlow_views(3) store_gate split: if_splits)
  then show ?thesis by (simp add: keeps_def final_def)
qed

lemma kept_cookie: "keeps (well_kept v rt) (add_cookie c)"
  by (auto simp: add_cookie_def well_kept_def intro!: keeps_modify)

lemma on_ok_return: "on_ok (State_Monad.return r) f = (case r of Inl e \<Rightarrow> State_Monad.return (Inl e) | Inr x \<Rightarrow> f x)"
  by (simp add: on_ok_def split: sum.split)

lemma key_reads_marshalled:
  assumes "\<And>k der. marshal_pkcs8 (key_der v) k = Inr der \<Longrightarrow> parse_pkcs8 (key_der v) der = Inr (Some k)"
    and "MarshalKey (key_der v) key = Inr ke"
  shows "key_reads v ke"
  using ParseKey_MarshalKey [OF assms(2,1)] by (auto simp: key_reads_def)

lemma kept_park:
  assumes "\<And>k der. marshal_pkcs8 (key_der v) k = Inr der \<Longrightarrow> parse_pkcs8 (key_der v) der = Inr (Some k)"
  shows "keeps (well_kept v rt) (park_flow v q acr)"
proof -
  have "keeps (well_kept v rt) (park_tail v q acr ke ver ch)" if "key_reads v ke" for ke ver ch
    using that by (auto simp: park_tail_def bindBrowser_def
        intro!: keeps_intros kept.keeps_primitives kept_PutFlow kept_cookie)
  then have "keeps (well_kept v rt) (on_ok (State_Monad.return (lift_text (MarshalKey (key_der v) key)))
      (\<lambda>ke. on_ok (PKCE v) (\<lambda>p. park_tail v q acr ke (fst p) (snd p))))" for key
    using key_reads_marshalled [OF assms]
    by (auto simp: on_ok_return lift_text_def PKCE_def split: sum.split intro!: keeps_intros kept.keeps_ask_any)
  then show ?thesis
    unfolding park_flow_tail GenerateKey_def by (intro keeps_on_ok [OF kept.keeps_ask_any]) simp_all
qed

lemma kept_callback: "keeps (well_kept v rt) (loginCallback v q)"
proof -
  have est: "keeps (well_kept v rt) (establishSession v q ke tk)" if "key_reads v ke" for ke tk
    using that by (auto simp: establishSession_def setSessionCookies_def new_session_def applyTokens_def
        intro!: keeps_intros kept.keeps_primitives kept_PutSession kept_cookie)
  have "keeps (well_kept v rt) (finish_login v q ac f)" for ac f
  proof (cases "ParseKey (key_der v) (fl_key f)")
    case (Inl e)
    then show ?thesis by (simp add: finish_login_def lift_text_def kept.keeps_redirectWithError)
  next
    case (Inr key)
    then have "key_reads v (fl_key f)" by (simp add: key_reads_def)
    then show ?thesis using Inr
      by (auto simp: finish_login_def lift_text_def exchangeFlow_def
          intro!: keeps_intros kept.keeps_primitives kept.keeps_redirect kept.keeps_redirectWithError
            kept.keeps_ask_any est)
  qed
  then show ?thesis
    by (auto simp: loginCallback_def
        intro!: keeps_if keeps_bind keeps_case_sum kept.keeps_redirectWithError kept_TakeFlow)
qed

lemma verify_route_changes:
  assumes "gate_inv (gate_max v) (gate s)"
  shows "same_but_rsp_trace s (final (verify_route v q) s)"
proof -
  have "same_but_rsp_trace s (final (verifyDocument v q) s)"
  proof (cases "ap_verify (app v) = None \<or> gate_acquire (gate_max v) (verifyClientIP q) (gate s) = None")
    case True
    then show ?thesis
      by (auto simp: final_verifyDocument final_ctx_error intro: same_rsp same_refl split: option.split)
  next
    case False
    then obtain c g' where c: "ap_verify (app v) = Some c"
      and g: "gate_acquire (gate_max v) (verifyClientIP q) (gate s) = Some g'" by auto
    obtain r es where "final (verify_file v q c (verifyClientIP q)) (s\<lparr>gate := g'\<rparr>) = s\<lparr>gate := g', rsp := r, trace := es\<rparr>"
      using keeps_final [OF keeps_verify_file [where v = v and q = q and c = c and ip = "verifyClientIP q"] same_refl [of "s\<lparr>gate := g'\<rparr>"]]
      unfolding same_but_rsp_trace_def by (elim exE) simp
    then have "final (verifyDocument v q) s = s\<lparr>rsp := r, trace := es\<rparr>"
      using c gate_release_acquire [OF assms g] by (simp add: final_verifyDocument g)
    then show ?thesis unfolding same_but_rsp_trace_def by blast
  qed
  then show ?thesis
    by (auto simp: verify_route_def edgeBlockEvents_def edgeBlock_def limited_verify_def set_status_def
        set_body_def world_final intro: same_rsp same_trace same_refl)
qed

lemma kept_verify: "well_kept v rt s \<Longrightarrow> well_kept v rt (final (verify_route v q) s)"
  using verify_route_changes [of v s q]
  by (auto simp: well_kept_def gate_inv_def verify_views) (auto simp: same_but_rsp_trace_def)

lemma kept_open:
  assumes "\<And>k der. marshal_pkcs8 (key_der v) k = Inr der \<Longrightarrow> parse_pkcs8 (key_der v) der = Inr (Some k)"
    and "(m, p, h) \<in> set open_routes" "well_kept v rt s"
  shows "well_kept v rt (serve v h q s)"
proof -
  have a: "well_kept v rt (arrive s)" using assms(3) by (simp add: well_kept_def) (simp add: arrive_def)
  have "keeps (well_kept v rt) (loginStart v q)"
    by (auto simp: loginStart_def intro!: keeps_intros kept.keeps_primitives kept_park [OF assms(1)])
  moreover have "keeps (well_kept v rt) (modify (sign_in_update f))" for f
    by (rule keeps_modify) (simp add: well_kept_def)
  then have "keeps (well_kept v rt) (signInMethods v)"
    by (auto simp: signInMethods_def offered_sign_in_def OfferedFlows_Get_def SignInMethods_Flows_def
        case_prod_beta intro!: keeps_intros kept.keeps_ask_any kept.keeps_primitives)
  moreover have "keeps (well_kept v rt) healthz" "keeps (well_kept v rt) (readyz v)"
    by (auto simp: healthz_def readyz_def notReady_def Ping_def redis_Ping_def mem_Ping_def
        intro!: keeps_intros kept.keeps_primitives)
  ultimately show ?thesis using assms(2) keeps_final [where I = "well_kept v rt", OF _ a] kept_callback kept_verify [OF a]
    by (auto simp: open_routes_def serve_def)
qed

definition aside :: "env \<Rightarrow> (event list \<Rightarrow> gotime) \<Rightarrow> (string \<rightharpoonup> nat) \<Rightarrow> (string \<rightharpoonup> entry) \<Rightarrow> string \<Rightarrow> bff \<Rightarrow> bool" where
  "aside v rt g fm sub s \<longleftrightarrow> gate s = g \<and> flows_in v rt s = fm \<and> ses_subject (cur_ses s) = sub"

interpretation aside: handler_invariant "aside v rt g fm sub" sub "\<lambda>_. True" for v rt g fm sub
  by unfold_locales (simp_all add: aside_def)

lemma guarded_aside:
  assumes "(m, p, h) \<in> set authed_routes"
  shows "gate (serve v (\<lambda>v q. requireSession v q (h v q)) q s) = gate s \<and>
    flows_in v rt (serve v (\<lambda>v q. requireSession v q (h v q)) q s) = flows_in v rt s"
  using refl [of "readCookie q (cookie_name (cfg v))"]
proof (cases rule: gate_cases [where s = s and h = h])
  case (passed x)
  let ?sid = "readCookie q (cookie_name (cfg v))"
  have k: "keeps (aside v rt g fm sub) (h v q)" for g fm sub
    using assms
    by (auto simp: authed_routes_def route_groups aside.keeps_session_routes aside.keeps_logout
        aside.keeps_document_routes aside.keeps_preview_routes aside.keeps_signing_routes
        aside.keeps_envelope_routes aside.keeps_dashboard)
  have "gate (final (GetSession v ?sid) (arrive s)) = gate s"
    using final_GetSession [of v ?sid "arrive s"] by (auto simp: arrive_def)
  then have "aside v rt (gate s) (flows_in v rt s) (ses_subject x)
      ((final (GetSession v ?sid) (arrive s))\<lparr>cur_sid := ?sid, cur_ses := x\<rparr>)"
    by (simp add: aside_def GetSession_views)
  from keeps_final [OF k this] show ?thesis using passed by (simp add: aside_def)
next
  case (stopped es r)
  then show ?thesis by (simp add: gate_views) (simp add: arrive_def)
qed

lemma kept_guarded:
  assumes "(m, p, h) \<in> set authed_routes" "well_kept v rt s" "reliable v rt"
    and "t = serve v (\<lambda>v q. requireSession v q (h v q)) q s"
  shows "well_kept v rt t"
proof -
  let ?sid = "readCookie q (cookie_name (cfg v))"
  note g = guarded_sessions [where rt = rt, OF assms(1) refl assms(4)]
  have own: "session_entry v (b, e)"
    if x: "answer (GetSession v ?sid) (arrive s) = Inr x" "b = Doc (enc_session y)" "same_but_tokens x y" for b e x y
  proof -
    obtain b' e' where b': "sessions_in v rt s ?sid = Some (b', e')" "decode dec_session zero_session b' = Inr x"
      using found_stored [OF x(1) assms(3)] by auto
    then obtain x' where "b' = Doc (enc_session x')" "key_reads v (ses_key x')"
      using assms(2) by (force simp: well_kept_def session_entry_def)
    then have "key_reads v (ses_key x)" using decode_session_same b'(2) by blast
    then show ?thesis using x by (auto simp: same_but_tokens_def session_entry_def)
  qed
  have "session_entry v e" if "sessions_in v rt t k = Some e" for k e
    using that g own assms(2) unfolding well_kept_def by (cases "k = ?sid"; cases e) metis+
  then show ?thesis using assms(2) guarded_aside [OF assms(1)] by (simp add: well_kept_def assms(4))
qed

lemma reach_kept:
  assumes "\<And>k der. marshal_pkcs8 (key_der v) k = Inr der \<Longrightarrow> parse_pkcs8 (key_der v) der = Inr (Some k)"
    and "reliable v rt" "reach v s"
  shows "well_kept v rt s"
  using assms(3)
proof (rule reach_invariant)
  show "well_kept v rt boot" by (simp add: well_kept_def) (simp add: boot_def)
next
  fix m p h q s assume route: "(m, p, h) \<in> set Init" and s: "well_kept v rt s"
  from route show "well_kept v rt (serve v h q s)"
    by (cases rule: Init_cases) (auto intro: kept_open [OF assms(1) _ s] kept_guarded [OF _ s assms(2)])
qed

end
