(* ===== verification/Concurrent.thy ===== *)
theory Concurrent
  imports Process
begin

text \<open>
  Requests that run side by side.  A request behind the session gate reads its session once, at
  the gate; until its handler has run, other requests may be served.  The transition system \<open>run_step\<close>
  lets requests come apart at that point, the refresh handler also between the tokens it was
  answered and the session it stores, and the login return between the flow it takes, the
  tokens its code is redeemed for and the session it stores.  Between two of these points a
  request makes at most one access to a store other requests change.
\<close>

section \<open>Requests in flight\<close>

text \<open>
  \<open>Passed\<close>: the gate let the request through.  \<open>Renewed\<close>: the refresh handler holds new tokens.
  \<open>Took\<close>: the login return holds the flow it took.  \<open>Redeemed\<close>: it holds the tokens of its code.
\<close>

datatype pending = Passed handler request string session | Renewed tokens string session
  | Took request flow | Redeemed request flow tokens

text \<open>A handler runs on a response and a session of its own.\<close>

definition own_context :: "string \<Rightarrow> session \<Rightarrow> bff \<Rightarrow> bff" where
  "own_context sid x s = s\<lparr>cur_sid := sid, cur_ses := x, rsp := no_response\<rparr>"

definition stored_and_answered :: "env \<Rightarrow> tokens \<Rightarrow> unit act" where
  "stored_and_answered v tk = do {
     r \<leftarrow> renew v tk; case r of Inl e \<Rightarrow> fail v e | Inr _ \<Rightarrow> ctx_json ok_json }"

lemma refresh_phases:
  "refresh v = do {
     x \<leftarrow> gets cur_ses;
     case parse_key v x of
       Inl e \<Rightarrow> fail v e
     | Inr key \<Rightarrow> do {
         r \<leftarrow> Refresh v key (ses_refresh_token x);
         case r of
           Inl e \<Rightarrow> ctx_error v (unauthorized ''refresh rejected'')
         | Inr tk \<Rightarrow> stored_and_answered v tk } }"
  unfolding refresh_def stored_and_answered_def by (rule refl)

definition signed_in_and_answered :: "env \<Rightarrow> request \<Rightarrow> flow \<Rightarrow> tokens \<Rightarrow> unit act" where
  "signed_in_and_answered v q f tk = do {
     r \<leftarrow> establishSession v q (fl_key f) tk;
     case r of Inl e \<Rightarrow> fail v e | Inr _ \<Rightarrow> ctx_redirect (post_login_url (cfg v)) }"

definition code_of :: "request \<Rightarrow> string" where
  "code_of q = opt_text (rq_query q ''code'')"

lemma finish_login_phases:
  "finish_login v q ac f = (case lift_text (ParseKey (key_der v) (fl_key f)) of
     Inl e \<Rightarrow> redirectWithError v ''bad_state''
   | Inr key \<Rightarrow> do {
       r \<leftarrow> exchangeFlow v key ac f;
       case r of
         Inl e \<Rightarrow> redirectWithError v ''login_failed''
       | Inr tk \<Rightarrow> signed_in_and_answered v q f tk })"
  unfolding finish_login_def signed_in_and_answered_def by (rule refl)

text \<open>A request arrives: it is served whole, or up to the point where it comes apart.\<close>

inductive arrives :: "env \<Rightarrow> bff \<times> pending list \<Rightarrow> bff \<times> pending list \<Rightarrow> bool" for v where
  whole: "(m, p, h) \<in> set Init \<Longrightarrow> rq_method q = m \<Longrightarrow> arrives v (s, ps) (serve v h q s, ps)"
| enter: "(m, p, h) \<in> set authed_routes \<Longrightarrow> rq_method q = m \<Longrightarrow>
    readCookie q (cookie_name (cfg v)) = sid \<Longrightarrow> sid \<noteq> [] \<Longrightarrow>
    answer (GetSession v sid) s = Inr x \<Longrightarrow> \<not> csrf_refused q x \<Longrightarrow>
    arrives v (s, ps) (final (GetSession v sid) s, Passed h q sid x # ps)"
| take: "rq_method q = ''GET'' \<Longrightarrow> callback_ready v q \<Longrightarrow>
    answer (TakeFlow v (callback_key v q)) s = Inr f \<Longrightarrow>
    arrives v (s, ps) (final (TakeFlow v (callback_key v q)) s, Took q f # ps)"

text \<open>A request in flight goes on.\<close>

inductive continues :: "env \<Rightarrow> bff \<times> pending list \<Rightarrow> bff \<times> pending list \<Rightarrow> bool" for v where
  finish: "continues v (s, ps @ Passed h q sid x # qs) (final (h v q) (own_context sid x s), ps @ qs)"
| redeem: "parse_key v x = Inr key \<Longrightarrow> answer (Refresh v key (ses_refresh_token x)) s = Inr tk \<Longrightarrow>
    continues v (s, ps @ Passed (\<lambda>v q. refresh v) q sid x # qs)
      (final (Refresh v key (ses_refresh_token x)) s, ps @ Renewed tk sid x # qs)"
| store: "continues v (s, ps @ Renewed tk sid x # qs)
    (final (stored_and_answered v tk) (own_context sid x s), ps @ qs)"
| exchange: "ParseKey (key_der v) (fl_key f) = Inr key \<Longrightarrow>
    answer (exchangeFlow v key (code_of q) f) s = Inr tk \<Longrightarrow>
    continues v (s, ps @ Took q f # qs)
      (final (exchangeFlow v key (code_of q) f) s, ps @ Redeemed q f tk # qs)"
| refused: "ParseKey (key_der v) (fl_key f) = Inl err \<or>
    (\<exists>key e. ParseKey (key_der v) (fl_key f) = Inr key \<and> answer (exchangeFlow v key (code_of q) f) s = Inl e) \<Longrightarrow>
    continues v (s, ps @ Took q f # qs) (final (finish_login v q (code_of q) f) (arrive s), ps @ qs)"
| land: "continues v (s, ps @ Redeemed q f tk # qs)
    (final (signed_in_and_answered v q f tk) (arrive s), ps @ qs)"

definition run_step :: "env \<Rightarrow> bff \<times> pending list \<Rightarrow> bff \<times> pending list \<Rightarrow> bool" where
  "run_step v c d \<longleftrightarrow> arrives v c d \<or> continues v c d"

lemma run_stepI: "arrives v c d \<Longrightarrow> run_step v c d" "continues v c d \<Longrightarrow> run_step v c d"
  by (simp_all add: run_step_def)

inductive run_reach :: "env \<Rightarrow> bff \<times> pending list \<Rightarrow> bool" for v where
  start: "run_reach v (boot, [])"
| step: "run_reach v c \<Longrightarrow> run_step v c d \<Longrightarrow> run_reach v d"

lemma reach_runs: "reach v s \<Longrightarrow> run_reach v (s, [])"
proof (induction rule: reach.induct)
  case (served s t)
  then show ?case by (auto elim!: stepE intro: run_reach.step run_stepI arrives.whole)
qed (rule run_reach.start)

text \<open>An invariant of the two kinds of step is one of every configuration reached.\<close>

lemma run_invariant:
  assumes "run_reach v c" "P (boot, [])"
    and "\<And>c d. arrives v c d \<Longrightarrow> P c \<Longrightarrow> P d" "\<And>c d. continues v c d \<Longrightarrow> P c \<Longrightarrow> P d"
  shows "P c"
  using assms(1)
proof (induction rule: run_reach.induct)
  case start
  then show ?case by (rule assms(2))
next
  case (step c d)
  then show ?case using assms(3,4) unfolding run_step_def by blast
qed

text \<open>What storing the renewed session leaves, in either backend.\<close>

lemma final_renew:
  "final (renew v tk) u = (let y = applyTokens (clock v (EClock # trace u)) tk (cur_ses u)
     in final (PutSession v (cur_sid u) y) (u\<lparr>trace := EClock # trace u, cur_ses := y\<rparr>))"
  by (simp add: renew_def now_def on_ok_def world_final Let_def split: sum.split)

lemma final_stored_and_answered: "\<exists>r. final (stored_and_answered v tk) u = (final (renew v tk) u)\<lparr>rsp := r\<rparr>"
  using answers_only_fail answers_only_json
  unfolding stored_and_answered_def final_bind answers_only_def by (cases "answer (renew v tk) u") auto

lemma stored_and_answered_keeps:
  assumes "reliable v rt"
  shows "\<exists>t e es. sessions_in v rt (final (stored_and_answered v tk) (own_context sid x s)) sid
      = Some (Doc (enc_session (applyTokens t tk x)), e) \<and>
    trace (final (stored_and_answered v tk) (own_context sid x s)) = es @ trace s"
proof -
  let ?y = "applyTokens (clock v (EClock # trace s)) tk x"
  let ?u = "(own_context sid x s)\<lparr>trace := EClock # trace s, cur_ses := ?y\<rparr>"
  obtain r where r: "final (stored_and_answered v tk) (own_context sid x s) = (final (PutSession v sid ?y) ?u)\<lparr>rsp := r\<rparr>"
    using final_stored_and_answered [of v tk "own_context sid x s"]
    by (auto simp: final_renew Let_def own_context_def)
  obtain m where "sessions_in v rt (final (PutSession v sid ?y) ?u)
      = put_entry (session_ttl (cfg v)) m sid (Doc (enc_session ?y)) (sessions_in v rt ?u)"
    by (rule PutSession_views [of v rt sid ?y ?u]) (use assms in blast)
  moreover obtain es where "trace (final (PutSession v sid ?y) ?u) = es @ trace ?u" using PutSession_trace by blast
  ultimately show ?thesis
    by (intro exI [of _ "clock v (EClock # trace s)"] exI [of _ "m + session_ttl (cfg v)"] exI [of _ "es @ [EClock]"])
       (simp add: r put_entry_def)
qed

section \<open>Whom the sessions belong to, whatever the order\<close>

fun of_table :: "pending \<Rightarrow> bool" where
  "of_table (Passed h q sid x) \<longleftrightarrow> (\<exists>m p. (m, p, h) \<in> set authed_routes)"
| "of_table _ \<longleftrightarrow> True"

text \<open>What a request in flight holds of a person is vouched for.\<close>

fun pending_vouched :: "env \<Rightarrow> event list \<Rightarrow> pending \<Rightarrow> bool" where
  "pending_vouched v tr (Passed h q sid x) \<longleftrightarrow> vouched v tr (ses_subject x)"
| "pending_vouched v tr (Renewed tk sid x) \<longleftrightarrow> vouched v tr (ses_subject x)"
| "pending_vouched v tr (Took q f) \<longleftrightarrow> True"
| "pending_vouched v tr (Redeemed q f tk) \<longleftrightarrow> vouched v tr (subject_from_token v (tk_access tk))"

lemma pending_vouched_grows: "pending_vouched v tr p \<Longrightarrow> pending_vouched v (es @ tr) p"
  by (cases p) (auto intro: vouched_grows)

definition run_vouched :: "env \<Rightarrow> (event list \<Rightarrow> gotime) \<Rightarrow> bff \<times> pending list \<Rightarrow> bool" where
  "run_vouched v rt c \<longleftrightarrow> all_vouched v rt (fst c) \<and> list_all of_table (snd c) \<and>
     (\<forall>p \<in> set (snd c). pending_vouched v (trace (fst c)) p)"

lemma trace_of_delegated: "delegated sub old s \<Longrightarrow> \<exists>es. trace s = es @ old"
  by (auto simp: delegated_def calls_for_def)

text \<open>A computation that keeps to its own session keeps every session vouched for.\<close>

lemma vouched_after:
  assumes "\<And>m. keeps (own_session v rt m sid x) h" "\<And>old. keeps (delegated (ses_subject x) old) h"
    and "all_vouched v rt s" "vouched v (trace s) (ses_subject x)"
    and "t = final h (own_context sid x s)"
  shows "all_vouched v rt t \<and> (\<exists>es. trace t = es @ trace s)"
proof -
  let ?u = "own_context sid x s"
  have "own_session v rt (sessions_in v rt s) sid x ?u"
    by (simp add: own_session_def own_context_def same_but_tokens_def own_entries_same)
  from keeps_final [OF assms(1) this] have own: "own_session v rt (sessions_in v rt s) sid x t" by (simp add: assms(5))
  have "delegated (ses_subject x) (trace s) ?u"
    using calls_for_start [of _ s] by (simp add: delegated_def calls_for_def own_context_def)
  from keeps_final [OF assms(2) this] obtain es where es: "trace t = es @ trace s"
    using trace_of_delegated assms(5) by blast
  have "\<exists>y. b = Doc (enc_session y) \<and> vouched v (trace t) (ses_subject y)" if b: "sessions_in v rt t k = Some (b, e)" for k b e
  proof (cases "sessions_in v rt s k = Some (b, e)")
    case True
    then show ?thesis using all_vouchedD [OF assms(3), of _ _ _ es] es by simp
  next
    case False
    then obtain y where "b = Doc (enc_session y)" "same_but_tokens x y"
      using b own unfolding own_session_def own_entries_def by metis
    then show ?thesis using vouched_grows [OF assms(4), of es] es by (auto simp: same_but_tokens_def)
  qed
  then show ?thesis using es by (auto simp: all_vouched_def)
qed

lemma run_vouchedI:
  assumes "all_vouched v rt t" "\<exists>es. trace t = es @ trace s" "list_all of_table qs"
    and "\<forall>p \<in> set qs. pending_vouched v (trace s) p \<or> pending_vouched v (trace t) p"
  shows "run_vouched v rt (t, qs)"
  using assms pending_vouched_grows by (fastforce simp: run_vouched_def)

lemma found_vouched:
  assumes "all_vouched v rt s" "answer (GetSession v sid) s = Inr x" "reliable v rt"
  shows "vouched v (trace s) (ses_subject x)"
proof -
  obtain b e where "sessions_in v rt s sid = Some (b, e)" "decode dec_session zero_session b = Inr x"
    by (rule found_stored [OF assms(2,3)])
  then show ?thesis using assms(1) decode_session_same unfolding all_vouched_def by metis
qed

lemma whole_vouched:
  assumes "(m, p, h) \<in> set Init" "all_vouched v rt s" "reliable v rt"
  shows "all_vouched v rt (serve v h q s)"
  using assms(1)
  by (cases rule: Init_cases) (auto intro: open_vouched [OF _ assms(2)] guarded_vouched [OF _ assms(2,3)])

lemma exchange_vouches:
  assumes "answer (exchangeFlow v key ac f) s = Inr tk"
  shows "vouched v (trace (final (exchangeFlow v key ac f) s)) (subject_from_token v (tk_access tk))"
  using assms unfolding vouched_def exchangeFlow_def
  by (intro exI [of _ "[]"] exI [of _ key] exI [of _ ac] exI [of _ "fl_verifier f"]
      exI [of _ "\<lparr>tc_nonce = fl_nonce f, tc_acr_values = fl_acr_values f, tc_max_age = freshOnly,
        tc_started = fl_started f\<rparr>"] exI [of _ "trace s"] exI [of _ tk]) (simp add: world_final)

text \<open>A login return that is refused its tokens stores nothing.\<close>

lemma finish_login_refused:
  assumes "ParseKey (key_der v) (fl_key f) = Inl err \<or>
    (\<exists>key e. ParseKey (key_der v) (fl_key f) = Inr key \<and> answer (exchangeFlow v key ac f) s = Inl e)"
  shows "\<exists>es. trace (final (finish_login v q ac f) (arrive s)) = es @ trace s \<and>
    sessions_in v rt (final (finish_login v q ac f) (arrive s)) = sessions_in v rt s"
proof -
  have t: "trace (arrive s) = trace s" by (simp add: arrive_def)
  have "\<exists>es r. final (finish_login v q ac f) (arrive s) = (arrive s)\<lparr>trace := es @ trace (arrive s), rsp := r\<rparr> \<and>
      list_all (\<lambda>e. \<not> is_write e) es"
  proof (cases "ParseKey (key_der v) (fl_key f)")
    case (Inl e)
    then show ?thesis
      by (intro exI [of _ "[]"]) (simp add: finish_login_phases lift_text_def world_final, rule exI, rule refl)
  next
    case (Inr key)
    then obtain e where "answer (exchangeFlow v key ac f) s = Inl e" using assms by auto
    then have "exchange_reply v (exchange_event ac f key # trace s) = Inl e"
      by (simp add: exchangeFlow_def exchange_event_def freshOnly_def world_final)
    then show ?thesis using Inr t
      by (intro exI [of _ "[exchange_event ac f key]"])
         (simp add: finish_login_phases lift_text_def exchangeFlow_def exchange_event_def freshOnly_def world_final,
          rule exI, rule refl)
  qed
  then show ?thesis using views_events(1) [of _ v rt "arrive s"] t by auto
qed

lemma keeps_signed_in:
  "keeps (vouched_or v rt m (subject_from_token v (tk_access tk))) (signed_in_and_answered v q f tk)"
  unfolding signed_in_and_answered_def
  by (intro keeps_intros keeps_established landed.keeps_primitives landed.keeps_redirect) simp_all

lemma signed_in_trace: "\<exists>es. trace (final (signed_in_and_answered v q f tk) (arrive s)) = es @ trace s"
proof -
  have "keeps (no_calls old) (PutSession v sid x)" for old sid x
    by (rule keepsI, cases "ap_redis (app v)")
       (auto simp: PutSession_def redis_PutSession_def mem_PutSession_def redis_def now_def wp_simps no_calls_def
         intro: exI [of _ "ERedis c # es" for c es] exI [of _ "EClock # es" for es])
  then have "keeps (no_calls (trace s)) (signed_in_and_answered v q f tk)"
    by (auto simp: signed_in_and_answered_def establishSession_def setSessionCookies_def
        intro!: keeps_intros no_calls.keeps_primitives no_calls.keeps_redirect no_calls.keeps_open_cookie)
  from keeps_final [OF this, of "arrive s"] show ?thesis
    using no_calls_start [of s] by (auto simp: no_calls_def arrive_def)
qed

lemma arrives_vouched:
  assumes "arrives v c d" "run_vouched v rt c" "reliable v rt"
  shows "run_vouched v rt d"
  using assms(1,2)
proof (induction rule: arrives.induct)
  case (whole m p h q s ps)
  then show ?case
    using whole_vouched [OF whole(1) _ assms(3)] serve_trace [OF whole(1)]
    by (intro run_vouchedI [where s = s]) (auto simp: run_vouched_def)
next
  case (enter m p h q sid s x ps)
  let ?t = "final (GetSession v sid) s"
  obtain es where es: "?t = s\<lparr>trace := es @ trace s\<rparr>" using final_GetSession by blast
  have "all_vouched v rt ?t"
    by (rule all_vouched_logs [where s = s and es = es]) (use enter(7) in \<open>simp_all add: run_vouched_def GetSession_views, simp_all add: es\<close>)
  moreover have "vouched v (trace s) (ses_subject x)"
    using found_vouched [OF _ enter(5) assms(3)] enter by (simp add: run_vouched_def)
  ultimately show ?case using enter es by (intro run_vouchedI [where s = s]) (auto simp: run_vouched_def)
next
  case (take q s f ps)
  let ?t = "final (TakeFlow v (callback_key v q)) s"
  obtain es where es: "trace ?t = es @ trace s" using TakeFlow_trace by blast
  have "all_vouched v rt ?t"
    by (rule all_vouched_logs [where s = s and es = es]) (use take(4) in \<open>simp_all add: run_vouched_def es TakeFlow_views(3)\<close>)
  then show ?case using take es by (intro run_vouchedI [where s = s]) (auto simp: run_vouched_def)
qed

lemma continues_vouched:
  assumes "continues v c d" "run_vouched v rt c" "reliable v rt"
  shows "run_vouched v rt d"
  using assms(1,2)
proof (induction rule: continues.induct)
  case (finish s ps h q sid x qs)
  then obtain m p where "(m, p, h) \<in> set authed_routes" by (auto simp: run_vouched_def)
  from vouched_after [where v = v and rt = rt and s = s and x = x and sid = sid and h = "h v q",
      OF own_authed [OF this] keeps_authed [OF this]]
  show ?case using finish by (intro run_vouchedI [where s = s]) (auto simp: run_vouched_def)
next
  case (redeem x key s tk ps q sid qs)
  let ?t = "final (Refresh v key (ses_refresh_token x)) s"
  have es: "?t = s\<lparr>trace := [ERefresh key (ses_refresh_token x)] @ trace s\<rparr>" by (simp add: Refresh_def world_final)
  have "all_vouched v rt ?t"
    by (rule all_vouched_logs [where s = s and es = "[ERefresh key (ses_refresh_token x)]"]) (use redeem(3) in \<open>simp_all add: run_vouched_def es\<close>)
  then show ?case using redeem es by (intro run_vouchedI [where s = s]) (auto simp: run_vouched_def)
next
  case (store s ps tk sid x qs)
  have "keeps (own_session v rt m sid x) (stored_and_answered v tk)" for m
    by (auto simp: stored_and_answered_def intro!: keeps_intros own.keeps_renew own.keeps_primitives)
  moreover have "keeps (delegated (ses_subject x) old) (stored_and_answered v tk)" for old
    by (auto simp: stored_and_answered_def intro!: keeps_intros delegated.keeps_renew delegated.keeps_primitives)
  ultimately show ?case using store vouched_after [where sid = sid and x = x and h = "stored_and_answered v tk" and v = v and rt = rt and s = s]
    by (intro run_vouchedI [where s = s]) (auto simp: run_vouched_def)
next
  case (exchange f key q s tk ps qs)
  let ?t = "final (exchangeFlow v key (code_of q) f) s"
  obtain e where e: "?t = s\<lparr>trace := [e] @ trace s\<rparr>" "\<not> is_write e" by (simp add: exchangeFlow_def world_final)
  have "all_vouched v rt ?t"
    by (rule all_vouched_logs [where s = s and es = "[e]"]) (use exchange(3) in \<open>simp_all add: run_vouched_def e\<close>)
  moreover have "pending_vouched v (trace ?t) (Redeemed q f tk)"
    using exchange_vouches [OF exchange(2)] by simp
  ultimately show ?case using exchange(3) e pending_vouched_grows [of v "trace s" _ "[e]"]
    by (auto simp: run_vouched_def)
next
  case (refused f err q s ps qs)
  let ?t = "final (finish_login v q (code_of q) f) (arrive s)"
  obtain es where es: "trace ?t = es @ trace s" "sessions_in v rt ?t = sessions_in v rt s"
    using finish_login_refused [OF refused(1)] by blast
  have "all_vouched v rt ?t"
    by (rule all_vouched_logs [OF _ es]) (use refused(2) in \<open>simp add: run_vouched_def\<close>)
  then show ?case using refused(2) es by (intro run_vouchedI [where s = s]) (auto simp: run_vouched_def)
next
  case (land s ps q f tk qs)
  let ?t = "final (signed_in_and_answered v q f tk) (arrive s)" and ?sub = "subject_from_token v (tk_access tk)"
  obtain es where es: "trace ?t = es @ trace s" using signed_in_trace by blast
  have "trace (arrive s) = trace s" by (simp add: arrive_def)
  then have "vouched_or v rt (sessions_in v rt s) ?sub (arrive s)"
    using land by (simp add: run_vouched_def vouched_or_def)
  then have "vouched_or v rt (sessions_in v rt s) ?sub ?t" by (rule keeps_final [OF keeps_signed_in])
  then have "all_vouched v rt ?t" using land vouched_or_all [OF _ es] by (simp add: run_vouched_def)
  then show ?case using land es by (intro run_vouchedI [where s = s]) (auto simp: run_vouched_def)
qed

lemma run_reach_vouched:
  assumes "run_reach v c" "reliable v rt"
  shows "run_vouched v rt c"
  using assms(1)
proof (rule run_invariant)
  show "run_vouched v rt (boot, [])" by (simp add: run_vouched_def all_vouched_def)
next
  show "arrives v c d \<Longrightarrow> run_vouched v rt c \<Longrightarrow> run_vouched v rt d" for c d
    by (rule arrives_vouched [OF _ _ assms(2)])
  show "continues v c d \<Longrightarrow> run_vouched v rt c \<Longrightarrow> run_vouched v rt d" for c d
    by (rule continues_vouched [OF _ _ assms(2)])
qed

end
