(* ===== verification/Redemptions.thy ===== *)
theory Redemptions
  imports Concurrent
begin

text \<open>
  What a start of a sign-in is worth: the verifiers the PKCE library handed out, against the codes
  redeemed with them, the flows parked with them and the flows a login return has in hand,
  counted over requests that overlap in any order.
\<close>

section \<open>Counting\<close>

definition redeems :: "string \<Rightarrow> event \<Rightarrow> bool" where
  "redeems w e \<longleftrightarrow> (case e of EExchange _ _ ver _ \<Rightarrow> ver = w | _ \<Rightarrow> False)"

text \<open>How many codes were redeemed with the verifier \<open>w\<close>, and how often it was handed out.\<close>

definition redeemed :: "string \<Rightarrow> event list \<Rightarrow> nat" where
  "redeemed w tr = length (filter (redeems w) tr)"

fun handed_out :: "env \<Rightarrow> string \<Rightarrow> event list \<Rightarrow> nat" where
  "handed_out v w [] = 0"
| "handed_out v w (e # tr) =
     (if e = EPkce \<and> (\<exists>ch. pkce v (e # tr) = Inr (w, ch)) then 1 else 0) + handed_out v w tr"

text \<open>A parked flow that a login return would read with the verifier \<open>w\<close>.\<close>

definition waits :: "env \<Rightarrow> string \<Rightarrow> (string \<rightharpoonup> entry) \<Rightarrow> string set" where
  "waits v w m = {k. \<exists>b e f. m k = Some (b, e) \<and> decode (dec_flow (cal v)) zero_flow b = Inr f \<and> fl_verifier f = w}"

fun holds :: "string \<Rightarrow> pending \<Rightarrow> bool" where
  "holds w (Took q f) \<longleftrightarrow> fl_verifier f = w"
| "holds w _ \<longleftrightarrow> False"

definition in_hand :: "string \<Rightarrow> pending list \<Rightarrow> nat" where
  "in_hand w ps = length (filter (holds w) ps)"

text \<open>\<open>covered v rt w n s\<close>: with \<open>n\<close> flows in hand, everything is covered by what was handed out.\<close>

definition covered :: "env \<Rightarrow> (event list \<Rightarrow> gotime) \<Rightarrow> string \<Rightarrow> nat \<Rightarrow> bff \<Rightarrow> bool" where
  "covered v rt w n s \<longleftrightarrow> finite (dom (flows_in v rt s)) \<and>
     redeemed w (trace s) + card (waits v w (flows_in v rt s)) + n \<le> handed_out v w (trace s)"

lemma redeemed_Cons: "redeemed w (e # tr) = (if redeems w e then 1 else 0) + redeemed w tr"
  by (simp add: redeemed_def)

lemma plain_event:
  "\<not> is_sign_in e \<Longrightarrow> redeemed w (e # tr) = redeemed w tr \<and> handed_out v w (e # tr) = handed_out v w tr"
  by (cases e) (simp_all add: redeemed_Cons redeems_def)

lemma covered_event:
  "\<not> is_sign_in e \<Longrightarrow> flows_in v rt (s\<lparr>trace := e # trace s\<rparr>) = flows_in v rt s \<Longrightarrow>
    covered v rt w n (s\<lparr>trace := e # trace s\<rparr>) = covered v rt w n s"
  by (simp add: covered_def plain_event del: handed_out.simps)

lemma covered_plain:
  "\<not> is_sign_in e \<Longrightarrow> \<not> is_write e \<Longrightarrow> covered v rt w n (s\<lparr>trace := e # trace s\<rparr>) = covered v rt w n s"
  by (rule covered_event) simp_all

lemma covered_grows:
  "list_all gate_event es \<Longrightarrow> covered v rt w n (s\<lparr>trace := es @ trace s\<rparr>) = covered v rt w n s"
proof (induction es)
  case (Cons e es)
  then show ?case using covered_plain [of e v rt w n "s\<lparr>trace := es @ trace s\<rparr>"] by (simp add: gate_event_def)
qed simp

lemma covered_less: "covered v rt w (Suc n) s \<Longrightarrow> covered v rt w n s"
  by (simp add: covered_def)

lemma finite_waits: "finite (dom m) \<Longrightarrow> finite (waits v w m)"
  by (rule finite_subset [of _ "dom m"]) (auto simp: waits_def)

lemma covered_rest [simp]:
  "covered v rt w n (s\<lparr>rsp := r\<rparr>) = covered v rt w n s" "covered v rt w n (s\<lparr>cur_ses := x\<rparr>) = covered v rt w n s"
  "covered v rt w n (s\<lparr>cur_sid := i\<rparr>) = covered v rt w n s" "covered v rt w n (s\<lparr>sessions := m\<rparr>) = covered v rt w n s"
  "covered v rt w n (s\<lparr>answers := a\<rparr>) = covered v rt w n s" "covered v rt w n (s\<lparr>offered := f\<rparr>) = covered v rt w n s"
  "covered v rt w n (arrive s) = covered v rt w n s" "covered v rt w n (sign_in_update o1 s) = covered v rt w n s" "covered v rt w n (s\<lparr>gate := g\<rparr>) = covered v rt w n s"
  by (simp_all add: covered_def) (simp_all add: arrive_def)

section \<open>Requests behind the gate\<close>

definition covered_for :: "env \<Rightarrow> (event list \<Rightarrow> gotime) \<Rightarrow> string \<Rightarrow> nat \<Rightarrow> string \<Rightarrow> bff \<Rightarrow> bool" where
  "covered_for v rt w n sub s \<longleftrightarrow> covered v rt w n s \<and> ses_subject (cur_ses s) = sub"

interpretation covered: handler_invariant "covered_for v rt w n sub" sub "\<lambda>_. True" for v rt w n sub
  by unfold_locales (simp_all add: covered_for_def covered_plain covered_event)

interpretation counts: event_invariant "covered v rt w n" for v rt w n
  by unfold_locales (simp_all add: covered_plain)

lemma covered_authed:
  assumes "(m, p, h) \<in> set authed_routes"
  shows "keeps (covered_for v rt w n sub) (h v q)"
  using assms
  by (auto simp: authed_routes_def route_groups covered.keeps_session_routes covered.keeps_logout
      covered.keeps_document_routes covered.keeps_preview_routes covered.keeps_signing_routes
      covered.keeps_envelope_routes covered.keeps_dashboard)

lemma covered_finish:
  assumes "keeps (covered_for v rt w n (ses_subject x)) h" "covered v rt w n s"
  shows "covered v rt w n (final h (own_context sid x s))"
proof -
  have "covered_for v rt w n (ses_subject x) (own_context sid x s)"
    using assms(2) by (simp add: covered_for_def own_context_def)
  from keeps_final [OF assms(1) this] show ?thesis by (simp add: covered_for_def)
qed

lemma covered_GetSession: "covered v rt w n s \<Longrightarrow> covered v rt w n (final (GetSession v sid) s)"
  by (rule keeps_final)
     (auto simp: GetSession_def mem_GetSession_def redis_GetSession_def
       intro!: keeps_intros counts.keeps_primitives)

lemma covered_guarded:
  assumes "(m, p, h) \<in> set authed_routes" "covered v rt w n s"
  shows "covered v rt w n (serve v (\<lambda>v q. requireSession v q (h v q)) q s)"
  using refl [of "readCookie q (cookie_name (cfg v))"]
proof (cases rule: gate_cases [where s = s and h = h])
  case (passed x)
  let ?sid = "readCookie q (cookie_name (cfg v))"
  have "covered_for v rt w n (ses_subject x)
      ((final (GetSession v ?sid) (arrive s))\<lparr>cur_sid := ?sid, cur_ses := x\<rparr>)"
    using covered_GetSession assms(2) by (simp add: covered_for_def arrive_def)
  from keeps_final [OF covered_authed [OF assms(1)] this] show ?thesis
    using passed by (simp add: covered_for_def)
next
  case (stopped es r)
  have "covered v rt w n ((arrive s)\<lparr>trace := es @ trace (arrive s)\<rparr>)"
    unfolding covered_grows [OF stopped(2)] using assms(2) by (simp add: arrive_def)
  moreover have "trace (arrive s) = trace s" by (simp add: arrive_def)
  ultimately show ?thesis by (simp only: stopped(1) covered_rest)
qed

section \<open>Parking a flow, and taking it\<close>

lemma flow_verifier_read:
  assumes "decode (dec_flow (cal v)) zero_flow (Doc (enc_flow (cal v) f)) = Inr g"
  shows "fl_verifier g = fl_verifier f"
proof -
  have "distinct (map fname (flow_fields (cal v)))" by (simp add: flow_fields_def)
  from dec_enc_struct [OF this] show ?thesis
    using assms
    by (simp add: decode_def dec_flow_def enc_flow_def)
       (simp add: flow_fields_def zero_flow_def copy_str copy_str_omit,
        auto simp: copy_fields.simps time_omit_def set_time_def split: if_splits option.splits)
qed

lemma waits_put:
  "waits v w (put_entry ttl t k (Doc (enc_flow (cal v) f)) m)
     \<subseteq> (if fl_verifier f = w then insert k (waits v w m) else waits v w m)"
  by (auto simp: waits_def put_entry_def dest: flow_verifier_read split: if_splits)

text \<open>A store operation leaves the counts of the trace as they are.\<close>

lemma plain_events:
  "list_all (\<lambda>e. \<not> is_sign_in e) es \<Longrightarrow> redeemed w (es @ tr) = redeemed w tr \<and> handed_out v w (es @ tr) = handed_out v w tr"
  by (induction es) (simp_all add: plain_event del: handed_out.simps(2))

lemma store_trace:
  "\<exists>es. trace (final (PutFlow v k f) s) = es @ trace s \<and> list_all (\<lambda>e. \<not> is_sign_in e) es"
  "\<exists>es. trace (final (TakeFlow v k) s) = es @ trace s \<and> list_all (\<lambda>e. \<not> is_sign_in e) es"
  "\<exists>es. trace (final (PutSession v sid x) s) = es @ trace s \<and> list_all (\<lambda>e. \<not> is_sign_in e) es"
  by (auto simp: store_defs world_final split: option.split)

lemma covered_after:
  assumes "\<exists>es. trace t = es @ trace s \<and> list_all (\<lambda>e. \<not> is_sign_in e) es"
  shows "covered v rt w n t \<longleftrightarrow> finite (dom (flows_in v rt t)) \<and>
    redeemed w (trace s) + card (waits v w (flows_in v rt t)) + n \<le> handed_out v w (trace s)"
  using assms plain_events by (auto simp: covered_def)

lemma covered_put_flow:
  assumes "covered v rt w (if fl_verifier f = w then Suc n else n) s"
  shows "covered v rt w n (final (PutFlow v k f) s)"
proof (rule PutFlow_views [of v rt k f s])
  fix p
  let ?m = "flows_in v rt s"
  assume p: "flows_in v rt (final (PutFlow v k f) s) = p"
    "p = ?m \<or> (\<exists>t. p = put_entry (flow_ttl (cfg v)) t k (Doc (enc_flow (cal v) f)) ?m)"
  have fin: "finite (dom ?m)" using assms by (simp add: covered_def)
  note fw = finite_waits [OF fin, of v w]
  have "waits v w p \<subseteq> (if fl_verifier f = w then insert k (waits v w ?m) else waits v w ?m)"
    using p(2) by (elim disjE exE) (force, hypsubst, rule waits_put)
  then have "card (waits v w p) \<le> card (if fl_verifier f = w then insert k (waits v w ?m) else waits v w ?m)"
    using fw by (intro card_mono) simp
  also have "\<dots> \<le> card (waits v w ?m) + (if fl_verifier f = w then 1 else 0)"
    using fw by (simp add: card_insert_if)
  finally show ?thesis using assms fin
    using p(2) unfolding covered_after [OF store_trace(1)] p(1)
    by (cases "fl_verifier f = w") (auto simp: covered_def put_entry_def)
qed

lemma covered_PutSession: "keeps (covered v rt w n) (PutSession v sid x)"
proof -
  have "covered v rt w n (final (PutSession v sid x) s)" if "covered v rt w n s" for s
    by (rule PutSession_views [of v rt sid x s])
       (use that in \<open>unfold covered_after [OF store_trace(3)], simp add: covered_def\<close>)
  then show ?thesis by (simp add: keeps_def final_def)
qed

lemma covered_take:
  assumes "covered v rt w n s" "reliable v rt"
  shows "case answer (TakeFlow v k) s of
     Inl e \<Rightarrow> covered v rt w n (final (TakeFlow v k) s)
   | Inr f \<Rightarrow> covered v rt w (if fl_verifier f = w then Suc n else n) (final (TakeFlow v k) s)"
proof -
  let ?m = "flows_in v rt s"
  have fin: "finite (dom ?m)" using assms by (simp add: covered_def)
  note fw = finite_waits [OF fin, of v w]
  have w: "waits v w (?m(k := None)) = waits v w ?m - {k}" by (auto simp: waits_def)
  have after: "covered v rt w i (final (TakeFlow v k) s) \<longleftrightarrow>
      redeemed w (trace s) + card (waits v w ?m - {k}) + i \<le> handed_out v w (trace s)" for i
    using fin by (simp add: covered_after [OF store_trace(2)] TakeFlow_views(1) [OF assms(2)] w)
  have less: "card (waits v w ?m - {k}) \<le> card (waits v w ?m)" by (rule card_Diff1_le)
  show ?thesis
  proof (cases "answer (TakeFlow v k) s")
    case (Inl e)
    moreover have "covered v rt w n (final (TakeFlow v k) s)"
      using less assms(1) unfolding after by (simp add: covered_def)
    ultimately show ?thesis by simp
  next
    case (Inr f)
    then obtain b e where "?m k = Some (b, e)" "decode (dec_flow (cal v)) zero_flow b = Inr f"
      by (auto simp: TakeFlow_spec [OF assms(2)] read_entry_def get_entry_def flows_in_def split: option.splits if_splits)
    then have "fl_verifier f = w \<Longrightarrow> k \<in> waits v w ?m" by (auto simp: waits_def)
    then have "fl_verifier f = w \<Longrightarrow> card (waits v w ?m) = Suc (card (waits v w ?m - {k}))"
      by (rule card.remove [OF fw])
    then have "covered v rt w (if fl_verifier f = w then Suc n else n) (final (TakeFlow v k) s)"
      using less assms(1) unfolding after by (auto simp: covered_def)
    then show ?thesis by (simp only: Inr sum.case)
  qed
qed

section \<open>The requests of a sign-in\<close>

text \<open>The login return: redeeming spends what it has in hand.\<close>

lemma covered_exchange:
  assumes "covered v rt w (if fl_verifier f = w then Suc n else n) s"
  shows "covered v rt w n (final (exchangeFlow v key ac f) s)"
  using assms
  by (auto simp: exchangeFlow_def world_final covered_def redeemed_Cons redeems_def split: if_splits)

lemma covered_signed_in: "keeps (covered v rt w n) (signed_in_and_answered v q f tk)"
proof -
  have "keeps (covered v rt w n) (add_cookie c)" for c
    by (auto simp: add_cookie_def intro!: keeps_modify)
  moreover have "keeps (covered v rt w n) (ctx_redirect u)" for u
    by (auto simp: ctx_redirect_def set_status_def set_body_def intro!: keeps_intros keeps_modify)
  ultimately show ?thesis
    by (auto simp: signed_in_and_answered_def establishSession_def setSessionCookies_def
        intro!: keeps_intros counts.keeps_primitives covered_PutSession)
qed

lemma covered_finish_login:
  assumes "covered v rt w (if fl_verifier f = w then Suc n else n) s"
  shows "covered v rt w n (final (finish_login v q ac f) s)"
proof (cases "ParseKey (key_der v) (fl_key f)")
  case (Inl e)
  then show ?thesis using assms covered_less
    by (auto simp: finish_login_phases lift_text_def world_final split: if_splits)
next
  case (Inr key)
  note spent = covered_exchange [OF assms, of key ac]
  show ?thesis
    using Inr keeps_final [OF covered_signed_in spent] spent
    by (simp add: finish_login_phases lift_text_def final_bind final_redirect split: sum.split)
qed

lemma covered_callback:
  assumes "covered v rt w n s" "reliable v rt"
  shows "covered v rt w n (final (loginCallback v q) s)"
proof (cases "callback_ready v q")
  case False
  then obtain r where "final (loginCallback v q) s = s\<lparr>rsp := r\<rparr>" using callback_not_ready by blast
  then show ?thesis using assms by simp
next
  case True
  note took = covered_take [OF assms, of "callback_key v q"]
  show ?thesis
  proof (cases "answer (TakeFlow v (callback_key v q)) s")
    case (Inl e)
    then show ?thesis using took by (simp add: callback_run [OF True] final_redirect)
  next
    case (Inr f)
    then have "covered v rt w (if fl_verifier f = w then Suc n else n) (final (TakeFlow v (callback_key v q)) s)"
      using took by (simp only: sum.case)
    from covered_finish_login [OF this] show ?thesis by (simp add: callback_run [OF True] Inr)
  qed
qed

text \<open>The start: the pair is drawn first, and parked last.\<close>

lemma covered_on_ok:
  assumes "keeps I m" "\<And>s. I s \<Longrightarrow> J s" "I s" "\<And>x s. I s \<Longrightarrow> J (final (f x) s)"
  shows "J (final (on_ok m f) s)"
  using keeps_final [OF assms(1,3)] assms(2,4) by (simp add: on_ok_def final_bind final_return split: sum.split)

lemma covered_park_tail:
  assumes "covered v rt w (if ver = w then Suc n else n) s"
  shows "covered v rt w n (final (park_tail v q acr ke ver ch) s)"
proof -
  let ?n = "if ver = w then Suc n else n"
  have cookie: "keeps (covered v rt w i) (add_cookie c)" for i c
    by (auto simp: add_cookie_def intro!: keeps_modify)
  have bind: "keeps (covered v rt w i) (bindBrowser v q ttl)" for i ttl
    by (auto simp: bindBrowser_def intro!: keeps_intros counts.keeps_primitives cookie)
  have less: "covered v rt w ?n u \<Longrightarrow> covered v rt w n u" for u
    using covered_less by (simp split: if_splits)
  note chain = covered_on_ok [where I = "covered v rt w ?n" and J = "covered v rt w n", OF _ less]
  have park: "covered v rt w n (final (do { t \<leftarrow> now v; on_ok (PutFlow v k (f t)) (\<lambda>_. State_Monad.return (Inr r)) }) u)"
    if "covered v rt w ?n u" "\<And>t. fl_verifier (f t) = ver" for k f u and r :: json
  proof -
    have "covered v rt w ?n (final (now v) u)" by (rule keeps_final [OF counts.keeps_primitives(1) that(1)])
    then have "covered v rt w n (final (PutFlow v k (f t)) (final (now v) u))" for t
      using that(2) covered_put_flow by simp
    then show ?thesis by (simp add: final_bind on_ok_def final_return split: sum.split)
  qed
  show ?thesis unfolding park_tail_def
    by (intro chain counts.keeps_primitives bind park assms(1)) simp_all
qed

lemma covered_PKCE:
  assumes "covered v rt w n s"
  shows "case answer (PKCE v) s of
     Inl e \<Rightarrow> covered v rt w n (final (PKCE v) s)
   | Inr p \<Rightarrow> covered v rt w (if fst p = w then Suc n else n) (final (PKCE v) s)"
  using assms
  by (auto simp: PKCE_def world_final covered_def redeemed_Cons redeems_def split: sum.split)

lemma covered_start:
  assumes "covered v rt w n s"
  shows "covered v rt w n (final (loginStart v q) s)"
proof -
  have pair: "covered v rt w n (final (on_ok (PKCE v) (\<lambda>p. park_tail v q acr ke (fst p) (snd p))) u)"
    if "covered v rt w n u" for acr ke u
    using covered_PKCE [OF that] covered_park_tail
    by (auto simp: on_ok_def final_bind final_return split: sum.splits)
  have "covered v rt w n (final (park_flow v q acr) u)" if "covered v rt w n u" for acr u
  proof -
    have "covered v rt w n (final (GenerateKey v) u)"
      using that by (simp add: GenerateKey_def world_final covered_def redeemed_Cons redeems_def)
    then show ?thesis unfolding park_flow_tail
      using pair by (auto simp: on_ok_def final_bind final_return split: sum.split)
  qed
  then show ?thesis using assms
    by (auto simp: loginStart_def final_bind final_ctx_error fail_def final_ctx_json split: sum.split)
qed

lemma covered_open:
  assumes "(m, p, h) \<in> set open_routes" "covered v rt w n s" "reliable v rt"
  shows "covered v rt w n (serve v h q s)"
proof -
  have a: "covered v rt w n (arrive s)" using assms(2) by simp
  have "keeps (covered v rt w n) (modify (sign_in_update f))" for f
    by (rule keeps_modify) simp
  then have "keeps (covered v rt w n) (signInMethods v)"
    by (auto simp: signInMethods_def offered_sign_in_def OfferedFlows_Get_def SignInMethods_Flows_def
        case_prod_beta intro!: keeps_intros counts.keeps_ask counts.keeps_primitives)
  moreover have "keeps (covered v rt w n) healthz" "keeps (covered v rt w n) (readyz v)"
    by (auto simp: healthz_def readyz_def notReady_def Ping_def redis_Ping_def mem_Ping_def
        intro!: keeps_intros counts.keeps_primitives)
  moreover have "keeps (covered v rt w n) (verify_route v q)"
    by (rule counts.keeps_verify_route) simp
  ultimately show ?thesis
    using assms(1) keeps_final [where I = "covered v rt w n", OF _ a] covered_start [OF a]
      covered_callback [OF a assms(3)]
    by (auto simp: open_routes_def serve_def)
qed

section \<open>Over requests that overlap\<close>

definition run_covered :: "env \<Rightarrow> (event list \<Rightarrow> gotime) \<Rightarrow> string \<Rightarrow> bff \<times> pending list \<Rightarrow> bool" where
  "run_covered v rt w c \<longleftrightarrow> covered v rt w (in_hand w (snd c)) (fst c) \<and> list_all of_table (snd c)"

lemma in_hand_simps [simp]:
  "in_hand w [] = 0" "in_hand w (p # ps) = (if holds w p then 1 else 0) + in_hand w ps"
  "in_hand w (ps @ qs) = in_hand w ps + in_hand w qs"
  by (simp_all add: in_hand_def)

lemma arrives_covered:
  assumes "arrives v c d" "run_covered v rt w c" "reliable v rt"
  shows "run_covered v rt w d"
  using assms(1,2)
proof (induction rule: arrives.induct)
  case (whole m p h q s ps)
  then show ?case
    by (cases rule: Init_cases [OF whole(1)])
       (auto simp: run_covered_def intro: covered_open [OF _ _ assms(3)] covered_guarded)
next
  case (enter m p h q sid s x ps)
  then show ?case by (auto simp: run_covered_def intro: covered_GetSession)
next
  case (take q s f ps)
  then show ?case using covered_take [of v rt w "in_hand w ps" s "callback_key v q"] assms(3)
    by (auto simp: run_covered_def split: if_splits)
qed

lemma continues_covered:
  assumes "continues v c d" "run_covered v rt w c" "reliable v rt"
  shows "run_covered v rt w d"
  using assms(1,2)
proof (induction rule: continues.induct)
  case (finish s ps h q sid x qs)
  then show ?case using covered_finish [OF covered_authed] by (fastforce simp: run_covered_def)
next
  case (redeem x key s tk ps q sid qs)
  then show ?case by (simp add: run_covered_def Refresh_def world_final covered_plain)
next
  case (store s ps tk sid x qs)
  have "keeps (covered_for v rt w n (ses_subject x)) (stored_and_answered v tk)" for n
    by (auto simp: stored_and_answered_def intro!: keeps_intros covered.keeps_renew covered.keeps_primitives)
  from covered_finish [OF this] show ?case using store by (auto simp: run_covered_def)
next
  case (exchange f key q s tk ps qs)
  then show ?case by (auto simp: run_covered_def intro!: covered_exchange split: if_splits)
next
  case (refused f err q s ps qs)
  then show ?case
    by (auto simp: run_covered_def arrive_def intro!: covered_finish_login split: if_splits)
next
  case (land s ps q f tk qs)
  then show ?case
    by (auto simp: run_covered_def arrive_def intro!: keeps_final [OF covered_signed_in])
qed

lemma run_reach_covered:
  assumes "run_reach v c" "reliable v rt"
  shows "run_covered v rt w c"
  using assms(1)
proof (rule run_invariant)
  show "run_covered v rt w (boot, [])" by (simp add: run_covered_def covered_def redeemed_def waits_def) (simp add: boot_def)
next
  show "arrives v c d \<Longrightarrow> run_covered v rt w c \<Longrightarrow> run_covered v rt w d" for c d
    by (rule arrives_covered [OF _ _ assms(2)])
  show "continues v c d \<Longrightarrow> run_covered v rt w c \<Longrightarrow> run_covered v rt w d" for c d
    by (rule continues_covered [OF _ _ assms(2)])
qed

end
