(* ===== verification/CallBounds.thy ===== *)
theory CallBounds
  imports Router
begin

text \<open>
  How often one request reaches outside the process.  \<open>asks\<close> are the events that wait for somebody
  else (a service, the Auth Service, Redis, the access-record client); \<open>spends n m\<close> says that the
  computation \<open>m\<close> causes at most \<open>n\<close> of them, whatever is answered.  The rules of \<open>spends\<close> follow
  the monad's operators, so a handler's bound is the sum along its calls.
\<close>

named_theorems spends_intros \<open>bounds, one rule per operator or operation\<close>

section \<open>Counting what leaves the process\<close>

definition asks :: "event \<Rightarrow> bool" where
  "asks e \<longleftrightarrow> (case e of EObo _ \<Rightarrow> True | ESvc _ \<Rightarrow> True | EDiscovery _ \<Rightarrow> True
     | EExchange _ _ _ _ \<Rightarrow> True | ERefresh _ _ \<Rightarrow> True | EIdentity _ _ \<Rightarrow> True | ERevoke _ _ \<Rightarrow> True
     | ERedis _ \<Rightarrow> True | EAuditRead _ _ \<Rightarrow> True | _ \<Rightarrow> False)"

definition asked_count :: "event list \<Rightarrow> nat" where
  "asked_count tr = length (filter asks tr)"

lemma asked_count_simps [simp]:
  "asked_count [] = 0" "asked_count (e # tr) = (if asks e then 1 else 0) + asked_count tr"
  "asked_count (es @ tr) = asked_count es + asked_count tr"
  by (simp_all add: asked_count_def)

definition spends :: "nat \<Rightarrow> 'a act \<Rightarrow> bool" where
  "spends n m \<longleftrightarrow> (\<forall>s. asked_count (trace (final m s)) \<le> asked_count (trace s) + n)"

lemma spendsD: "spends n m \<Longrightarrow> asked_count (trace (final m s)) \<le> asked_count (trace s) + n"
  by (simp add: spends_def)

lemma spends_mono: "spends a m \<Longrightarrow> a \<le> b \<Longrightarrow> spends b m"
  unfolding spends_def by (meson add_left_mono le_trans)

section \<open>The operators\<close>

lemma spends_return [spends_intros]: "spends 0 (State_Monad.return a)"
  by (simp add: spends_def final_return)

lemma spends_skip [spends_intros]: "spends 0 skip"
  by (simp add: spends_def final_skip)

lemma spends_gets [spends_intros]: "spends 0 (gets f)"
  by (simp add: spends_def final_gets)

lemma spends_modify: "(\<And>s. trace (f s) = trace s) \<Longrightarrow> spends 0 (modify f)"
  by (simp add: spends_def final_modify)

lemma spends_bind [spends_intros]:
  assumes "spends a m" "\<And>x. spends b (f x)"
  shows "spends (a + b) (State_Monad.bind m f)"
  unfolding spends_def final_bind
proof
  fix s
  have "asked_count (trace (final (f (answer m s)) (final m s))) \<le> asked_count (trace (final m s)) + b"
    by (rule spendsD [OF assms(2)])
  also have "\<dots> \<le> asked_count (trace s) + (a + b)" using spendsD [OF assms(1), of s] by simp
  finally show "asked_count (trace (final (f (answer m s)) (final m s))) \<le> asked_count (trace s) + (a + b)" .
qed

lemma spends_max: "spends a m \<Longrightarrow> spends (max a b) m" "spends b m \<Longrightarrow> spends (max a b) m"
  by (auto intro: spends_mono)

lemma spends_if [spends_intros]: "spends a m \<Longrightarrow> spends b n \<Longrightarrow> spends (max a b) (if c then m else n)"
  by (simp add: spends_max)

lemma spends_case_sum [spends_intros]:
  "(\<And>e. spends a (f e)) \<Longrightarrow> (\<And>x. spends b (g x)) \<Longrightarrow> spends (max a b) (case r of Inl e \<Rightarrow> f e | Inr x \<Rightarrow> g x)"
  by (cases r) (simp_all add: spends_max)

lemma spends_case_option [spends_intros]:
  "spends a m \<Longrightarrow> (\<And>x. spends b (g x)) \<Longrightarrow> spends (max a b) (case r of None \<Rightarrow> m | Some x \<Rightarrow> g x)"
  by (cases r) (simp_all add: spends_max)

lemma spends_case_prod [spends_intros]:
  "(\<And>x y. spends a (g x y)) \<Longrightarrow> spends a (case p of (x, y) \<Rightarrow> g x y)"
  by (cases p) simp

lemma spends_Let [spends_intros]: "(\<And>x. spends a (f x)) \<Longrightarrow> spends a (let x = e in f x)"
  by simp

lemma spends_on_ok [spends_intros]:
  assumes "spends a m" "\<And>x. spends b (f x)"
  shows "spends (a + b) (on_ok m f)"
  unfolding on_ok_def
  by (rule spends_mono, rule spends_bind [OF assms(1)], rule spends_case_sum [OF spends_return assms(2)]) simp

lemma spends_for_each:
  assumes "\<And>i x. spends a (f i x)"
  shows "spends (length xs * a) (for_each i xs f)"
proof (induction xs arbitrary: i)
  case (Cons x xs)
  have "spends (a + (length xs * a + 0)) (for_each i (x # xs) f)"
    unfolding for_each.simps by (intro spends_bind assms Cons spends_return)
  then show ?case by simp
qed (simp add: spends_return)

lemma spends_ask: "spends (if asks e then 1 else 0) (ask e f)"
  by (simp add: spends_def final_ask)

lemma spends_emit: "spends (if asks e then 1 else 0) (emit e)"
  by (simp add: spends_def final_emit)

lemma asks_simps [simp]:
  "asks (EObo c)" "asks (ESvc x)" "asks (EDiscovery u)" "asks (EExchange k a b y)" "asks (ERefresh k a)"
  "asks (EIdentity k a)" "asks (ERevoke k a)" "asks (ERedis r)" "asks (EAuditRead a b)"
  "\<not> asks EClock" "\<not> asks (ERandom n)" "\<not> asks EKeyGen" "\<not> asks EPkce" "\<not> asks (EEdgeBlock a b)"
  "\<not> asks (EAuthZDenied a)"
  by (simp_all add: asks_def)

lemma spends_events [spends_intros]:
  "spends 1 (ask (EObo c) (r1 :: _ \<Rightarrow> 'a))" "spends 1 (ask (ESvc x) (r2 :: _ \<Rightarrow> 'b))"
  "spends 1 (ask (EDiscovery u) (r3 :: _ \<Rightarrow> 'c))" "spends 1 (ask (EExchange k a b y) (r4 :: _ \<Rightarrow> 'd))"
  "spends 1 (ask (ERefresh k a) (r5 :: _ \<Rightarrow> 'e))" "spends 1 (ask (EIdentity k a) (r6 :: _ \<Rightarrow> 'f))"
  "spends 1 (ask (ERevoke k a) (r7 :: _ \<Rightarrow> 'g))" "spends 1 (emit (EAuditRead a b))" "spends 1 (emit (ESvc x))"
  "spends 0 (ask EKeyGen (r8 :: _ \<Rightarrow> 'h))" "spends 0 (ask EPkce (r9 :: _ \<Rightarrow> 'i))"
  "spends 0 (emit (EEdgeBlock a b))" "spends 0 (emit (EAuthZDenied a))"
  using spends_ask [of "EObo c" r1] spends_ask [of "ESvc x" r2] spends_ask [of "EDiscovery u" r3]
    spends_ask [of "EExchange k a b y" r4] spends_ask [of "ERefresh k a" r5] spends_ask [of "EIdentity k a" r6]
    spends_ask [of "ERevoke k a" r7] spends_ask [of EKeyGen r8] spends_ask [of EPkce r9]
    spends_emit [of "EAuditRead a b"] spends_emit [of "ESvc x"] spends_emit [of "EEdgeBlock a b"] spends_emit [of "EAuthZDenied a"]
  by simp_all

lemma spends_primitives [spends_intros]:
  "spends 0 (now v)" "spends 0 (RandomToken v n)" "spends 1 (redis v c)" "spends 0 (set_status st)"
  "spends 0 (set_body bd)" "spends 0 (set_header k x)" "spends 0 (add_cookie ck)" "spends 0 (ctx_json j)"
  "spends 0 (ctx_raw p)" "spends 0 (ctx_error v e)" "spends 0 (fail v g)" "spends 0 (relayErr v g)"
  "spends 0 (ctx_redirect z)" "spends 0 (redirectWithError v mk)"
  by (simp_all add: spends_def relayErr_def Let_def prim_defs final_simps split: option.split)

section \<open>The stores and the tokens\<close>

lemma spends_le: "spends a m \<Longrightarrow> a = b \<Longrightarrow> spends b m"
  by simp

lemma spends_cookies [spends_intros]:
  "spends 0 (setSessionCookies q n sid c)" "spends 0 (clearSessionCookies q n)" "spends 0 (bindBrowser v q ttl)"
  unfolding setSessionCookies_def clearSessionCookies_def bindBrowser_def
  by (rule spends_le, (rule spends_intros)+, simp)+

lemma spends_updates [spends_intros]:
  "spends 0 (modify (\<lambda>s. s\<lparr>flows := F s\<rparr>))" "spends 0 (modify (\<lambda>s. s\<lparr>sessions := F s\<rparr>))"
  "spends 0 (modify (\<lambda>s. s\<lparr>answers := F s\<rparr>))" "spends 0 (modify (\<lambda>s. s\<lparr>gate := G s\<rparr>))"
  "spends 0 (modify (\<lambda>s. s\<lparr>cur_ses := X s\<rparr>))" "spends 0 (modify (\<lambda>s. s\<lparr>cur_sid := i, cur_ses := x\<rparr>))"
  "spends 0 (modify (offered_update f))" "spends 0 (modify (sign_in_update f))"
  by (simp_all add: spends_modify)

lemma spends_store [spends_intros]:
  "spends 1 (PutFlow v k f)" "spends 1 (TakeFlow v k)" "spends 1 (PutSession v sid x)"
  "spends 1 (GetSession v sid)" "spends 1 (DeleteSession v sid)" "spends 1 (Ping v)"
  unfolding PutFlow_def TakeFlow_def PutSession_def GetSession_def DeleteSession_def Ping_def
    mem_PutFlow_def mem_TakeFlow_def mem_PutSession_def mem_GetSession_def mem_DeleteSession_def mem_Ping_def
    redis_PutFlow_def redis_TakeFlow_def redis_PutSession_def redis_GetSession_def redis_DeleteSession_def
    redis_Ping_def
  by (rule spends_le, (rule spends_intros)+, simp)+

lemma spends_answers [spends_intros]: "spends 1 (answer_Get v key)" "spends 1 (answer_Set v ttl key b)"
  unfolding answer_Get_def answer_Set_def by (rule spends_le, (rule spends_intros)+, simp)+

lemma spends_Refresh [spends_intros]: "spends 1 (Refresh v key rt)"
  unfolding Refresh_def by (rule spends_intros)

lemma spends_renew [spends_intros]: "spends 1 (renew v tk)"
  unfolding renew_def by (rule spends_le, (rule spends_intros)+, simp)

text \<open>A token costs nothing, or its renewal and the storing of the session.\<close>

lemma spends_freshToken [spends_intros]: "spends 2 (freshToken v)"
  unfolding freshToken_def by (rule spends_le, (rule spends_intros)+, simp)

lemma spends_onBehalf [spends_intros]: "spends 2 (onBehalf v)"
  unfolding onBehalf_def by (rule spends_le, (rule spends_intros)+, simp)

lemma spends_with_delegation [spends_intros]:
  assumes "\<And>obo. spends a (h obo)"
  shows "spends (2 + a) (with_delegation v h)"
  unfolding with_delegation_def by (rule spends_le, (rule spends_intros assms)+, simp)

lemma spends_ready [spends_intros]:
  assumes "\<And>c. spends a (h c)"
  shows "spends a (documentsReady v h)" "spends a (envelopeReady v h)" "spends a (signingReady v h)"
    "spends a (previewReady v h)"
  unfolding documentsReady_def envelopeReady_def signingReady_def previewReady_def
  by (rule spends_le, (rule spends_intros assms)+, simp)+

lemma spends_or_relay [spends_intros]:
  assumes "spends a m" "\<And>x. spends b (h x)"
  shows "spends (a + b) (or_relay v m h)"
  unfolding or_relay_def by (rule spends_le, (rule spends_intros assms)+, simp)

section \<open>The clients\<close>

lemma spends_outbound [spends_intros]:
  "spends 1 (doOnBehalf v svc aud sc m u obo b ct)" "spends 1 (doJSONOnBehalf v svc aud sc m u obo b ct out)"
  "spends 1 (doJSONOnBehalfSlow v svc aud sc m u obo b ct out)" "spends 1 (doRawOnBehalf v svc aud sc u obo)"
  unfolding outbound_defs by (rule spends_le, (rule spends_intros)+, simp)+

lemma spends_document_client [spends_intros]:
  "spends 1 (ListChains v c obo l a)" "spends 1 (GetChain v c obo i)" "spends 1 (ListHistory v c obo l a)"
  "spends 1 (DeleteHistory v c obo i)" "spends 1 (Upload v c obo ct b)" "spends 1 (Bundle v c obo ids)"
  "spends 1 (Rebundle v c obo i es)" "spends 1 (Documents_List v c obo l a)" "spends 1 (Metadata v c obo i)"
  "spends 1 (Content v c obo i)" "spends 1 (ExtractObject v c obo i n)" "spends 1 (Delete v c obo i)"
  unfolding document_client_defs by (rule spends_le, (rule spends_intros)+, simp)+

lemma spends_preview_client [spends_intros]:
  "spends 1 (Manifest v c obo i)" "spends 1 (Page v c obo i k)" "spends 1 (PreviewText v c obo i)"
  "spends 1 (InnerManifest v c obo i nm)" "spends 1 (InnerPage v c obo i nm k)" "spends 1 (InnerText v c obo i nm)"
  unfolding Manifest_def Page_def PreviewText_def InnerManifest_def InnerPage_def InnerText_def preview_get_def
  by (rule spends_le, (rule spends_intros)+, simp)+

lemma spends_envelope_client [spends_intros]:
  "spends 1 (Create v c obo inp)" "spends 1 (Envelope_List v c obo l a)" "spends 1 (FindForDocument v c obo i)"
  "spends 1 (SigningTasks v c obo l a)" "spends 1 (Envelope_Get v c obo i)" "spends 1 (AttachDocument v c obo i d)"
  "spends 1 (AddSlot v c obo i si)" "spends 1 (Send v c obo i)" "spends 1 (Cancel v c obo i)"
  "spends 1 (Reopen v c obo i)" "spends 1 (DeclineSlot v c obo i j)" "spends 1 (SlotEligible v c obo i j)"
  "spends 1 (SetSlotJob v c obo i j k)" "spends 1 (CaptureSignerName v c obo i j n)"
  unfolding envelope_client_defs by (rule spends_le, (rule spends_intros)+, simp)+

lemma spends_signflow_client [spends_intros]:
  "spends 1 (BeginSigning v c obo inp)" "spends 1 (Status v c obo i w)" "spends 1 (SubmitClientSignature v c obo i ss)"
  "spends 1 (Abandon v c obo i)" "spends 1 (ChainFree v c obo e w)" "spends 1 (Validate_signature v c obo i)"
  "spends 1 (ValidateDocument v c obo i)" "spends 1 (ArchiveTimestamp v c obo i ac)"
  unfolding signflow_client_defs by (rule spends_le, (rule spends_intros)+, simp)+

lemma spends_service_clients [spends_intros]:
  "spends 1 (Offer_Flows v sv)" "spends 1 (SignInMethods_Flows v u)" "spends 1 (Verify_Validate v sv n data)"
  unfolding Offer_Flows_def SignInMethods_Flows_def Verify_Validate_def svc_request_def Let_def case_prod_beta
  by (rule spends_le, (rule spends_intros)+, simp)+

lemma spends_offers [spends_intros]: "spends 1 (offered_flows v sv)" "spends 1 (offered_sign_in v)"
  unfolding offered_flows_def offered_sign_in_def OfferedFlows_Get_def
  by (rule spends_le, (rule spends_intros)+, simp)+

section \<open>The handlers\<close>

lemma spends_relays [spends_intros]:
  "spends 0 (relay_file r)" "spends 0 (relay_page r)" "spends 0 (relayJSON r)" "spends 0 (relay_header r n)"
  unfolding relay_file_def relay_page_def relayJSON_def relay_header_def
  by (rule spends_le, (rule spends_intros)+, simp)+

lemma spends_records [spends_intros]:
  "spends 1 (documentRead v u d)" "spends 1 (DocumentDownloaded v u d)" "spends 1 (DocumentPreviewed v u d)"
  unfolding DocumentDownloaded_def DocumentPreviewed_def documentRead_def
  by (rule spends_le, (rule spends_intros)+, simp)+

lemma spends_session_routes:
  "spends 4 (me v)" "spends 2 (refresh v)" "spends 2 (logout v q)"
  unfolding me_def refresh_def logout_def offeredOnly_def revoke_session_def Identity_def
  by (rule spends_le, (rule spends_intros)+, simp)+

lemma spends_document_routes:
  "spends 5 (dashboard v)" "spends 3 (listHistory v q)" "spends 3 (deleteHistory v q)" "spends 3 (uploadDocument v q)"
  "spends 3 (listDocuments v q)" "spends 3 (getDocument v q)" "spends 3 (getDocumentChain v q)"
  "spends 4 (downloadDocument v q)" "spends 3 (deleteDocument v q)" "spends 3 (archiveTimestamp v q)"
  "spends 3 (bundleDocuments v q)" "spends 3 (rebundleDocument v q)" "spends 3 (extractDataObject v q)"
  unfolding dashboard_def listHistory_def deleteHistory_def uploadDocument_def listDocuments_def getDocument_def
    getDocumentChain_def downloadDocument_def deleteDocument_def archiveTimestamp_def bundleDocuments_def
    rebundleDocument_def extractDataObject_def
  by (rule spends_le, (rule spends_intros)+, simp)+

lemma spends_preview_routes:
  "spends 4 (previewManifest v q)" "spends 3 (previewPage v q)" "spends 3 (previewText v q)"
  "spends 4 (previewInnerManifest v q)" "spends 3 (previewInnerPage v q)" "spends 3 (previewInnerText v q)"
  unfolding previewManifest_def previewPage_def previewText_def previewInnerManifest_def previewInnerPage_def
    previewInnerText_def
  by (rule spends_le, (rule spends_intros)+, simp)+

lemma spends_answer_with [spends_intros]:
  assumes "spends 1 fetch"
  shows "spends 3 (answer_with v q key fetch)"
  unfolding answer_with_def serveCachedAnswer_def storeAnswer_def
  by (rule spends_le, (rule spends_intros assms)+, simp)

lemma spends_signing_routes:
  "spends 5 (validateDocument v q)" "spends 5 (signatureValidation v q)" "spends 3 (signingStatus v q)"
  "spends 3 (clientSignature v q)" "spends 3 (abandonSigning v q)" "spends 3 (chainFree v q)"
  unfolding validateDocument_def signatureValidation_def signingStatus_def clientSignature_def abandonSigning_def
    chainFree_def
  by (rule spends_le, (rule spends_intros)+, simp)+

lemma spends_envelope_routes:
  "spends 4 (createEnvelope v q)" "spends 3 (listEnvelopes v q)" "spends 3 (listSigningTasks v q)"
  "spends 3 (attachEnvelopeDocument v q)" "spends 3 (addEnvelopeSlot v q)" "spends 3 (sendEnvelope v q)"
  "spends 3 (cancelEnvelope v q)" "spends 3 (reopenEnvelope v q)" "spends 3 (declineEnvelopeSlot v q)"
  "spends 5 (signEnvelopeSlot v q)"
  unfolding createEnvelope_def one_document_def create_with_def listEnvelopes_def listSigningTasks_def
    attachEnvelopeDocument_def addEnvelopeSlot_def sendEnvelope_def cancelEnvelope_def reopenEnvelope_def
    declineEnvelopeSlot_def transition_handler_def signEnvelopeSlot_def start_signing_def
  by (rule spends_le, (rule spends_intros)+, simp)+

definition view_path :: string where "view_path = ''/envelopes/{id}''"

lemmas within_five = spends_session_routes [THEN spends_mono [where b = 5], simplified]
  spends_document_routes [THEN spends_mono [where b = 5], simplified]
  spends_preview_routes [THEN spends_mono [where b = 5], simplified]
  spends_signing_routes [THEN spends_mono [where b = 5], simplified]
  spends_envelope_routes [THEN spends_mono [where b = 5], simplified]

lemma spends_authed:
  assumes "(m, p, h) \<in> set authed_routes" "(m, p) \<noteq> (''GET'', view_path)"
  shows "spends 5 (h v q)"
  using assms(1) unfolding authed_routes_def route_groups
  by (simp only: append.simps list.set insert_iff empty_iff prod.inject;
      elim disjE conjE; use assms(2) in \<open>simp add: within_five view_path_def\<close>)

lemma spends_case_list [spends_intros]:
  "spends a m \<Longrightarrow> (\<And>x xs. spends b (g x xs)) \<Longrightarrow> spends (max a b) (case r of [] \<Rightarrow> m | x # xs \<Rightarrow> g x xs)"
  by (cases r) (simp_all add: spends_max)

lemma spends_recordVerify [spends_intros]: "spends 1 (recordVerify v q ip n sha w d)"
  unfolding recordVerify_def Record_def by (rule spends_le, (rule spends_intros)+, simp)

lemma spends_verify: "spends 2 (verify_route v q)"
  unfolding verify_route_def edgeBlockEvents_def edgeBlock_def limited_verify_def verifyDocument_def
    verify_file_def verify_data_def verify_admitted_def release_gate_def
  by (rule spends_le, (rule spends_intros)+, simp)

lemma spends_open:
  assumes "(m, p, h) \<in> set open_routes"
  shows "spends 3 (h v q)"
proof -
  have "spends 1 (loginStart v q)"
    unfolding loginStart_def park_flow_def GenerateKey_def PKCE_def
    by (rule spends_le, (rule spends_intros)+, simp)
  moreover have "spends 3 (loginCallback v q)"
    unfolding loginCallback_def finish_login_def exchangeFlow_def establishSession_def
    by (rule spends_le, (rule spends_intros)+, simp)
  moreover have "spends 1 (signInMethods v)"
    unfolding signInMethods_def by (rule spends_le, (rule spends_intros)+, simp)
  moreover have "spends 0 healthz" "spends 1 (readyz v)"
    unfolding healthz_def readyz_def notReady_def by (rule spends_le, (rule spends_intros)+, simp)+
  moreover have "spends 3 (verify_route v q)" by (rule spends_mono [OF spends_verify]) simp
  ultimately show ?thesis
    using assms by (auto simp: open_routes_def intro: spends_mono)
qed

section \<open>The composed view\<close>

text \<open>
  The envelope view asks once for the envelope, then once for each slot with a job and once for
  each document; a signer's name is captured for one slot at most.
\<close>

definition rows :: "detail \<Rightarrow> nat" where
  "rows d = length (case dt_slots d of None \<Rightarrow> [] | Some ss \<Rightarrow> ss)
     + length (case dt_documents d of None \<Rightarrow> [] | Some ds \<Rightarrow> ds)"

lemma spends_capture_first:
  assumes "\<And>x. spends a (f x)"
  shows "spends a (capture_first f xs)"
proof (induction xs)
  case (Cons x xs)
  have "spends (max (a + 0) (a + 0)) (capture_first f (x # xs))"
    unfolding capture_first.simps by (intro spends_if spends_bind spends_return Cons assms)
  then show ?case by simp
qed (auto intro: spends_mono [OF spends_return])

lemma spends_capture [spends_intros]: "spends 4 (capture_first (capture_slot v c obo i) xs)"
  by (rule spends_capture_first)
     (unfold capture_slot_def viewerName_def Identity_def, rule spends_le, (rule spends_intros)+, simp)

lemma spends_compose [spends_intros]:
  "spends (length (case dt_slots d of None \<Rightarrow> [] | Some ss \<Rightarrow> ss)) (compose_slots v obo d)"
proof -
  have "spends 1 (compose_slot v obo owner x)" for owner x
    unfolding compose_slot_def Let_def by (rule spends_le, (rule spends_intros)+, simp)
  from spends_for_each [OF this] show ?thesis by (auto simp: compose_slots_def intro: spends_le)
qed

lemma spends_names [spends_intros]:
  "spends (length (case ds of None \<Rightarrow> [] | Some xs \<Rightarrow> xs)) (resolve_names v obo ds)"
proof -
  have "spends 1 (resolve_name v c obo x)" for c x
    unfolding resolve_name_def by (rule spends_le, (rule spends_intros)+, simp)
  from spends_for_each [OF this]
  have "spends (length (case ds of None \<Rightarrow> [] | Some xs \<Rightarrow> xs) * 1 + 0)
      (do { xs \<leftarrow> for_each 0 (case ds of None \<Rightarrow> [] | Some xs \<Rightarrow> xs) (\<lambda>i. resolve_name v c obo);
            State_Monad.return (Some xs) })" for c
    by (rule spends_bind) (rule spends_return)
  then show ?thesis
    by (auto simp: resolve_names_def intro: spends_mono [OF spends_return] split: option.split)
qed

text \<open>What a run of the view adds to the trace, whoever it is for.\<close>

definition grown :: "event list \<Rightarrow> bff \<Rightarrow> bool" where
  "grown old s \<longleftrightarrow> (\<exists>es. trace s = es @ old)"

interpretation grown: call_invariant "grown old" sub for sub old
  by unfold_locales (auto simp: grown_def)

lemma grown_start: "grown (trace s) s"
  by (simp add: grown_def)

text \<open>
  The envelope service showed \<open>d\<close> in this run, and asking it is part of the events that follow \<open>old\<close>.
\<close>

definition shown :: "env \<Rightarrow> request \<Rightarrow> event list \<Rightarrow> event list \<Rightarrow> detail \<Rightarrow> bool" where
  "shown v q old tr d \<longleftrightarrow> (\<exists>c obo u. ap_envelope (app v) = Some c \<and> ob_token obo \<noteq> [] \<and>
     answer (Envelope_Get v c obo (rq_param q ''id'')) u = Inr d \<and>
     grown old u \<and> (\<exists>es. tr = es @ trace (final (Envelope_Get v c obo (rq_param q ''id'')) u)))"

definition within :: "env \<Rightarrow> request \<Rightarrow> nat \<Rightarrow> event list \<Rightarrow> bff \<Rightarrow> bool" where
  "within v q k old t \<longleftrightarrow> asked_count (trace t) \<le> asked_count old + k \<or>
     (\<exists>d. shown v q old (trace t) d \<and> asked_count (trace t) \<le> asked_count old + (k + 4 + rows d))"

definition views :: "env \<Rightarrow> request \<Rightarrow> nat \<Rightarrow> 'a act \<Rightarrow> bool" where
  "views v q k m \<longleftrightarrow> (\<forall>j old s. grown old s \<longrightarrow> asked_count (trace s) \<le> asked_count old + j \<longrightarrow>
     within v q (j + k) old (final m s))"

lemma views_spends:
  assumes "spends a m" "a \<le> k"
  shows "views v q k m"
  unfolding views_def within_def
proof (intro allI impI disjI1)
  fix j old and s :: bff assume "asked_count (trace s) \<le> asked_count old + j"
  then show "asked_count (trace (final m s)) \<le> asked_count old + (j + k)"
    using spendsD [OF assms(1), of s] assms(2) by simp
qed

lemma views_bind:
  assumes "spends a m" "\<And>old. keeps (grown old) m" "\<And>x. views v q b (f x)"
  shows "views v q (a + b) (State_Monad.bind m f)"
  unfolding views_def
proof (intro allI impI)
  fix j old s assume s: "grown old s" "asked_count (trace s) \<le> asked_count old + j"
  have "grown old (final m s)" by (rule keeps_final [OF assms(2) s(1)])
  moreover have "asked_count (trace (final m s)) \<le> asked_count old + (j + a)"
    using spendsD [OF assms(1), of s] s(2) by simp
  ultimately have "within v q (j + a + b) old (final (f (answer m s)) (final m s))"
    using assms(3) unfolding views_def by blast
  then show "within v q (j + (a + b)) old (final (State_Monad.bind m f) s)" by (simp add: final_bind add.assoc)
qed

lemma views_if: "(b \<Longrightarrow> views v q k m) \<Longrightarrow> (\<not> b \<Longrightarrow> views v q k n) \<Longrightarrow> views v q k (if b then m else n)"
  by simp

lemma views_case_sum:
  "(\<And>e. views v q k (f e)) \<Longrightarrow> (\<And>x. views v q k (g x)) \<Longrightarrow> views v q k (case r of Inl e \<Rightarrow> f e | Inr x \<Rightarrow> g x)"
  by (cases r) simp_all

lemma views_case_option:
  "(r = None \<Longrightarrow> views v q k m) \<Longrightarrow> (\<And>x. r = Some x \<Longrightarrow> views v q k (g x))
   \<Longrightarrow> views v q k (case r of None \<Rightarrow> m | Some x \<Rightarrow> g x)"
  by (cases r) simp_all

lemma grown_ask: "keeps (grown old) (ask e f)"
  by (auto simp: grown_def wp_simps intro!: keepsI)

lemma grown_freshToken: "keeps (grown old) (freshToken v)"
  by (auto simp: freshToken_def Refresh_def renew_def PutSession_def redis_PutSession_def mem_PutSession_def
      redis_def now_def intro!: keeps_intros grown_ask keeps_modify) (simp_all add: grown_def)

lemma grown_view:
  "keeps (grown old) (compose_slots v obo d)" "keeps (grown old) (capture_first (capture_slot v c obo i) xs)"
  "keeps (grown old) (resolve_names v obo ds)" "keeps (grown old) (Envelope_Get v c obo i)"
proof -
  have "keeps (grown old) (capture_slot v c obo i x)" for x
    by (auto simp: capture_slot_def viewerName_def Identity_def
        intro!: keeps_intros grown_ask grown_freshToken grown.keeps_envelope_client [OF refl])
  then show "keeps (grown old) (capture_first (capture_slot v c obo i) xs)"
    by (induction xs) (auto intro!: keeps_intros)
qed (auto simp: compose_slots_def compose_slot_def Let_def resolve_names_def resolve_name_def
      intro!: keeps_intros grown.keeps_envelope_client [OF refl] grown.keeps_signflow_client [OF refl]
        grown.keeps_document_client [OF refl])

lemma grown_ctx: "keeps (grown old) (ctx_json j)" "keeps (grown old) (ctx_error v e)"
  by (auto simp: ctx_json_def ctx_error_def set_status_def set_body_def set_header_def grown_def
      intro!: keeps_intros keeps_modify)

lemma views_envelope:
  assumes "ap_envelope (app v) = Some c"
  shows "views v q 1 (or_relay v (Envelope_Get v c obo (rq_param q ''id'')) (\<lambda>d. do {
       seeded \<leftarrow> compose_slots v obo d;
       slots \<leftarrow> capture_first (capture_slot v c obo (rq_param q ''id'')) seeded;
       docs \<leftarrow> resolve_names v obo (dt_documents d);
       ctx_json (enc_composed_detail (dt_envelope d) slots docs) }))"
    (is "views v q 1 (or_relay v ?get ?rest)")
  unfolding views_def
proof (intro allI impI)
  fix j old s assume s: "grown old s" "asked_count (trace s) \<le> asked_count old + j"
  let ?u = "final ?get s"
  have u: "asked_count (trace ?u) \<le> asked_count old + (j + 1)"
    using spendsD [OF spends_envelope_client(5), of v c obo "rq_param q ''id''" s] s(2) by simp
  show "within v q (j + 1) old (final (or_relay v ?get ?rest) s)"
  proof (cases "answer ?get s")
    case (Inl e)
    then show ?thesis
      using u spendsD [OF spends_primitives(12), of v e ?u] by (simp add: within_def or_relay_def final_bind)
  next
    case (Inr d)
    have t: "ob_token obo \<noteq> []"
      using Inr by (auto simp: Envelope_Get_def env_get_def answer_def no_token_no_call)
    have "spends (4 + rows d) (?rest d)"
      by (rule spends_mono, (rule spends_intros)+) (simp add: rows_def)
    from spendsD [OF this, of ?u] u
    have "asked_count (trace (final (?rest d) ?u)) \<le> asked_count old + (j + 1 + 4 + rows d)" by simp
    moreover have "grown (trace ?u) (final (?rest d) ?u)"
      by (rule keeps_final [where I = "grown (trace ?u)", OF _ grown_start]) (intro keeps_bind grown_view grown_ctx)
    moreover have "final (or_relay v ?get ?rest) s = final (?rest d) ?u"
      using Inr by (simp add: or_relay_def final_bind [of ?get])
    ultimately show ?thesis
      using Inr assms s(1) t unfolding within_def shown_def grown_def by metis
  qed
qed

lemma views_view: "views v q 3 (getEnvelope v q)"
proof -
  have "views v q (2 + 1) (with_delegation v h)" if "\<And>obo. views v q 1 (h obo)" for h
    unfolding with_delegation_def
  proof (rule views_bind [OF spends_onBehalf])
    show "keeps (grown old) (onBehalf v)" for old
      by (auto simp: onBehalf_def intro!: keeps_intros grown_freshToken grown_ctx keeps_gets)
    show "views v q 1 (case r of None \<Rightarrow> skip | Some obo \<Rightarrow> h obo)" for r
      by (rule views_case_option, rule views_spends [OF spends_skip], simp, rule that)
  qed
  then have delegation: "views v q 3 (with_delegation v h)" if "\<And>obo. views v q 1 (h obo)" for h
    using that by (simp add: eval_nat_numeral)
  show ?thesis
    unfolding getEnvelope_def envelopeReady_def
  proof (rule views_case_option)
    show "views v q 3 (ctx_error v e)" for e by (rule views_spends [OF spends_primitives(10)]) simp
  qed (rule delegation, rule views_envelope)
qed

section \<open>Through the gate\<close>

lemma spends_requireSession:
  assumes "spends a h"
  shows "spends (1 + a) (requireSession v q h)"
  unfolding requireSession_def csrfDenied_def Let_def
  by (rule spends_mono, (rule spends_intros assms)+, simp)

lemma spends_serve:
  assumes "spends a (h v q)"
  shows "asked_count (trace (serve v h q s)) \<le> asked_count (trace s) + a"
  using spendsD [OF assms, of "arrive s"] by (simp add: serve_def arrive_def)

lemma views_requireSession:
  assumes "views v q k h"
  shows "views v q (1 + k) (requireSession v q h)"
proof -
  have g: "keeps (grown old) (GetSession v sid)" "keeps (grown old) (modify (\<lambda>s. s\<lparr>cur_sid := i, cur_ses := x\<rparr>))"
    for sid i x old
    by (auto simp: GetSession_def mem_GetSession_def redis_GetSession_def grown_def
        intro!: keeps_intros grown.keeps_reads keeps_modify)
  have pass: "views v q k (do { modify (\<lambda>s. s\<lparr>cur_sid := i, cur_ses := x\<rparr>); h })" for i x
    using views_bind [OF spends_updates(6) g(2) assms] by simp
  have refuse: "views v q k (ctx_error v e)" "views v q k (do { csrfDenied v x; ctx_error v e })"
    "views v q k (do { clearSessionCookies q n; ctx_error v e })" "views v q (1 + k) (ctx_error v e)" for e x n
    by (rule views_spends, (unfold csrfDenied_def)?, (rule spends_intros)+, simp)+
  show ?thesis
    unfolding requireSession_def Let_def
    by (intro views_if views_bind [OF spends_store(4) g(1)] views_case_sum pass refuse)
qed

lemma views_serve:
  assumes "views v q k (h v q)"
  shows "within v q k (trace s) (serve v h q s)"
proof -
  have "grown (trace s) (arrive s)" "asked_count (trace (arrive s)) \<le> asked_count (trace s) + 0"
    by (simp_all add: arrive_def grown_def)
  then show ?thesis using assms unfolding views_def serve_def by fastforce
qed

text \<open>The one route of the view.\<close>

lemma view_route:
  assumes "(''GET'', view_path, g) \<in> set authed_routes"
  shows "g = getEnvelope"
  using assms by (simp add: authed_routes_def route_groups view_path_def)

end
