(* ===== verification/Answers.thy ===== *)
theory Answers
  imports Samples
begin

text \<open>
  What a finished request answers.  \<open>success_of\<close> is the contract of the route table: which body
  and status a route answers when it did what it was asked.  \<open>concludes v p A m\<close> says that the
  computation \<open>m\<close>, started before anything was answered, ends with exactly one of the two: a
  success that \<open>A\<close> admits, reached with no refusal of a service among the calls it depends on, or
  an error under a status that is no success.  The rules follow the monad's operators; a call to a
  service is \<open>honest\<close> when it reports a refusal as a failure, and when the failure it reports
  carries no 2xx status, which is why relaying it cannot read as a success.
\<close>

named_theorems quiet \<open>operations that answer nothing\<close>
named_theorems honest_clients \<open>calls whose failure carries no success status\<close>

section \<open>The contract of the table\<close>

datatype success = Composed int | File | Relay | Rendered | NoContent | Landing | Readiness

fun admits :: "success \<Rightarrow> body \<Rightarrow> int \<Rightarrow> bool" where
  "admits (Composed c) b st = ((\<exists>j. b = BJson j) \<and> st = c)"
| "admits File b st = ((\<exists>p. b = BRaw p) \<and> st = 200)"
| "admits Relay b st = ((\<exists>p. b = BRaw p) \<and> ok_status st)"
| "admits Rendered b st = (((\<exists>j. b = BJson j) \<or> (\<exists>p. b = BRaw p)) \<and> st = 200)"
| "admits NoContent b st = (b = BEmpty \<and> st = 204)"
| "admits Landing b st = ((\<exists>u. b = BRedirect u) \<and> st = 302)"
| "admits Readiness b st = ((\<exists>j. b = BJson j) \<and> (st = 200 \<or> st = 503))"

definition creations :: "string list" where
  "creations = [''/documents'', ''/documents/bundle'', ''/envelopes'', ''/envelopes/{id}/documents'',
     ''/envelopes/{id}/slots'', ''/envelopes/{id}/slots/{slot}/sign'']"

definition success_of :: "string \<Rightarrow> string \<Rightarrow> success" where
  "success_of m p =
     (if m = ''POST'' \<and> p \<in> set creations then Composed 201
      else if p = ''/signings/{jobId}/abandon'' then NoContent
      else if p = ''/login/callback'' then Landing
      else if p = ''/readyz'' then Readiness
      else if p \<in> set [''/documents/{id}/validate'', ''/signatures/{sigId}/validation''] then Rendered
      else if p \<in> set [''/documents/{id}/download'', ''/documents/{id}/data-objects/{name}'',
        ''/documents/{id}/preview/pages/{n}'', ''/documents/{id}/data-objects/{name}/preview/pages/{n}''] then File
      else if p \<in> set [''/documents/{id}/preview'', ''/documents/{id}/preview/text'',
        ''/documents/{id}/data-objects/{name}/preview'', ''/documents/{id}/data-objects/{name}/preview/text''] then Relay
      else Composed 200)"

definition limit_refused :: web_error where
  "limit_refused = Framework (Text ''rate limit exceeded'')"

definition conclusion :: "env \<Rightarrow> (body \<Rightarrow> int \<Rightarrow> bool) \<Rightarrow> response \<Rightarrow> bool" where
  "conclusion v A r = (case rsp_body r of
     BError e \<Rightarrow> \<not> ok_status (rsp_status r) \<and>
       (rsp_status r = error_status v e \<or> e = limit_refused \<and> rsp_status r = 429)
   | b \<Rightarrow> A b (rsp_status r))"

text \<open>
  What the framework and the outbound library are relied on for: the status they give to a
  problem code or to an error of their own is no success, and an error of the library is not
  one of the clients' \<open>HTTPError\<close> values.
\<close>

definition failures_are_failures :: "env \<Rightarrow> bool" where
  "failures_are_failures v \<longleftrightarrow> (\<forall>c. \<not> ok_status (code_status v c)) \<and>
     (\<forall>g. \<not> ok_status (framework_status v g)) \<and>
     (\<forall>tr e. obo_reply v tr = Inl e \<longrightarrow> as_http_error e = None)"

section \<open>Refusals\<close>

text \<open>
  A call at the head of the trace that the service did not answer, or answered outside 2xx.
\<close>

definition refusing :: "gerr + http_resp \<Rightarrow> bool" where
  "refusing r \<longleftrightarrow> (case r of Inl _ \<Rightarrow> True | Inr x \<Rightarrow> \<not> ok_status (hr_status x))"

definition refused :: "env \<Rightarrow> event \<Rightarrow> event list \<Rightarrow> bool" where
  "refused v e tr \<longleftrightarrow> (case e of EObo _ \<Rightarrow> refusing (obo_reply v (e # tr))
     | ESvc _ \<Rightarrow> refusing (svc_reply v (e # tr)) | _ \<Rightarrow> False)"

text \<open>
  The calls a route makes without depending on them: on \<open>GET /envelopes/{id}\<close> the state of the
  slots' jobs, the names of the documents and the signer's name it captures (all but the envelope
  itself); on the start of a signing the note of the job at the slot; everywhere the calls of the
  backend for itself, except the one that validates a file.
\<close>

definition best_effort :: "string \<Rightarrow> event \<Rightarrow> bool" where
  "best_effort p e = (case e of
     EObo c \<Rightarrow> p = ''/envelopes/{id}'' \<and> oc_scope c \<noteq> scopeEnvRead \<or>
       p = ''/envelopes/{id}/slots/{slot}/sign'' \<and> oc_scope c = scopeEnvTransition
   | ESvc c \<Rightarrow> \<not> (sc_method c = ''POST'' \<and> sc_scope c = scopeVerifyRead) | _ \<Rightarrow> True)"

text \<open>No call of the new events was refused, the best-effort ones apart.\<close>

fun heeded :: "env \<Rightarrow> string \<Rightarrow> event list \<Rightarrow> event list \<Rightarrow> bool" where
  "heeded v p [] old = True"
| "heeded v p (e # es) old = (heeded v p es old \<and> (refused v e (es @ old) \<longrightarrow> best_effort p e))"

definition attended :: "env \<Rightarrow> string \<Rightarrow> event list \<Rightarrow> bff \<Rightarrow> bool" where
  "attended v p old s \<longleftrightarrow> (\<exists>es. trace s = es @ old \<and> heeded v p es old)"

lemma attended_start: "attended v p (trace s) s"
  by (auto simp: attended_def)

lemma attended_frame: "trace t = trace s \<Longrightarrow> attended v p old t = attended v p old s"
  by (simp add: attended_def)

lemma attended_event:
  assumes "attended v p old s" "refused v e (trace s) \<longrightarrow> best_effort p e"
  shows "attended v p old (s\<lparr>trace := e # trace s\<rparr>)"
proof -
  obtain es where "trace s = es @ old" "heeded v p es old" using assms(1) by (auto simp: attended_def)
  then show ?thesis using assms(2) by (auto simp: attended_def intro: exI [of _ "e # es"])
qed

definition is_error :: "body \<Rightarrow> bool" where
  "is_error b \<longleftrightarrow> (case b of BError _ \<Rightarrow> True | _ \<Rightarrow> False)"

lemma is_error_simps [simp]:
  "is_error (BError e)" "\<not> is_error BEmpty" "\<not> is_error (BJson j)" "\<not> is_error (BRaw x)"
  "\<not> is_error (BRedirect u)"
  by (simp_all add: is_error_def)

section \<open>Answering nothing\<close>

definition unanswered :: "bff \<Rightarrow> bool" where
  "unanswered s \<longleftrightarrow> rsp_status (rsp s) = 200 \<and> rsp_body (rsp s) = BEmpty"

definition going_well :: "env \<Rightarrow> string \<Rightarrow> event list \<Rightarrow> bff \<Rightarrow> bool" where
  "going_well v p old s \<longleftrightarrow> unanswered s \<and> attended v p old s"

lemma unanswered_frame: "rsp t = rsp s \<Longrightarrow> unanswered t = unanswered s"
  by (simp add: unanswered_def)

interpretation silent: call_invariant unanswered sub for sub
  by unfold_locales (simp_all add: unanswered_def)

named_theorems silent_calls \<open>clients, which answer nothing\<close>

lemmas silent_clients [silent_calls] = silent.keeps_document_client [OF refl]
  silent.keeps_preview_client [OF refl] silent.keeps_envelope_client [OF refl]
  silent.keeps_signflow_client [OF refl]

lemma quiet_modify:
  "(\<And>s. rsp (f s) = rsp s \<and> trace (f s) = trace s) \<Longrightarrow> keeps (going_well w p old) (modify f)"
  by (rule keeps_modify) (simp add: going_well_def unanswered_def attended_def)

lemma quiet_ask:
  assumes "best_effort p e"
  shows "keeps (going_well w p old) (ask e f)" "keeps (going_well w p old) (emit e)"
  using attended_event assms
  by (auto intro!: keepsI simp: wp_simps going_well_def unanswered_def)

lemma best_effort_simps [simp]:
  "best_effort p EClock" "best_effort p (ERandom n)" "best_effort p EKeyGen" "best_effort p EPkce"
  "best_effort p (EDiscovery u)" "best_effort p (EExchange k a b y)" "best_effort p (ERefresh k a)"
  "best_effort p (EIdentity k a)" "best_effort p (ERevoke k a)" "best_effort p (ERedis r)"
  "best_effort p (EEdgeBlock a b)" "best_effort p (EAuthZDenied a)" "best_effort p (EAuditRead a b)"
  "best_effort p (ESvc c) = (\<not> (sc_method c = ''POST'' \<and> sc_scope c = scopeVerifyRead))"
  by (simp_all add: best_effort_def)

lemma quiet_reads [quiet]:
  "keeps (going_well w p old) (now v)" "keeps (going_well w p old) (RandomToken v n)"
  "keeps (going_well w p old) (redis v c)"
  by (simp_all add: now_def RandomToken_def redis_def quiet_ask)

lemma quiet_header [quiet]:
  "keeps (going_well w p old) (set_header k x)" "keeps (going_well w p old) (add_cookie c)"
  by (auto simp: set_header_def add_cookie_def going_well_def unanswered_def attended_def intro!: keeps_modify)

lemma quiet_store [quiet]:
  "keeps (going_well w p old) (PutFlow v k f)" "keeps (going_well w p old) (TakeFlow v k)"
  "keeps (going_well w p old) (PutSession v sid x)" "keeps (going_well w p old) (GetSession v sid)"
  "keeps (going_well w p old) (DeleteSession v sid)" "keeps (going_well w p old) (Ping v)"
  "keeps (going_well w p old) (answer_Get v key)" "keeps (going_well w p old) (answer_Set v ttl key b)"
  by (auto simp: store_defs answer_Get_def answer_Set_def quiet
      intro!: keeps_intros quiet_modify quiet_ask)

lemma quiet_tokens [quiet]:
  "keeps (going_well w p old) (Refresh v key rt)" "keeps (going_well w p old) (renew v tk)"
  "keeps (going_well w p old) (freshToken v)"
  by (auto simp: Refresh_def renew_def freshToken_def quiet intro!: keeps_intros quiet_modify quiet_ask)

lemma quiet_cookies [quiet]:
  "keeps (going_well w p old) (setSessionCookies q n sid c)" "keeps (going_well w p old) (clearSessionCookies q n)"
  "keeps (going_well w p old) (bindBrowser v q ttl)"
  by (auto simp: setSessionCookies_def clearSessionCookies_def bindBrowser_def quiet intro!: keeps_intros)

lemma quiet_offers [quiet]:
  "keeps (going_well w p old) (offered_flows v sv)" "keeps (going_well w p old) (offered_sign_in v)"
  by (auto simp: offered_flows_def offered_sign_in_def OfferedFlows_Get_def Offer_Flows_def
      SignInMethods_Flows_def svc_request_def quiet case_prod_beta scopeVerifyRead_def scopeSignerRead_def
      intro!: keeps_intros quiet_modify quiet_ask)

section \<open>Concluding\<close>

definition concluded :: "env \<Rightarrow> string \<Rightarrow> (body \<Rightarrow> int \<Rightarrow> bool) \<Rightarrow> event list \<Rightarrow> bff \<Rightarrow> bool" where
  "concluded v p A old t \<longleftrightarrow> conclusion v A (rsp t) \<and> (is_error (rsp_body (rsp t)) \<or> attended v p old t)"

definition concludes :: "env \<Rightarrow> string \<Rightarrow> (body \<Rightarrow> int \<Rightarrow> bool) \<Rightarrow> unit act \<Rightarrow> bool" where
  "concludes v p A m \<longleftrightarrow> (\<forall>old s. going_well v p old s \<longrightarrow> concluded v p A old (final m s))"

definition failing :: "env \<Rightarrow> web_error \<Rightarrow> bool" where
  "failing v e \<longleftrightarrow> \<not> ok_status (error_status v e)"

lemma concludesD: "concludes v p A m \<Longrightarrow> going_well v p old s \<Longrightarrow> concluded v p A old (final m s)"
  by (simp add: concludes_def)

lemma concludes_bind:
  "(\<And>old. keeps (going_well v p old) m) \<Longrightarrow> (\<And>x. concludes v p A (f x)) \<Longrightarrow> concludes v p A (State_Monad.bind m f)"
  by (simp add: concludes_def final_bind keeps_final)

lemma concludes_if: "(b \<Longrightarrow> concludes v p A m) \<Longrightarrow> (\<not> b \<Longrightarrow> concludes v p A n) \<Longrightarrow> concludes v p A (if b then m else n)"
  by simp

lemma concludes_case_sum:
  "(\<And>e. r = Inl e \<Longrightarrow> concludes v p A (f e)) \<Longrightarrow> (\<And>x. r = Inr x \<Longrightarrow> concludes v p A (g x))
   \<Longrightarrow> concludes v p A (case r of Inl e \<Rightarrow> f e | Inr x \<Rightarrow> g x)"
  by (cases r) simp_all

lemma concludes_case_option:
  "(r = None \<Longrightarrow> concludes v p A m) \<Longrightarrow> (\<And>x. r = Some x \<Longrightarrow> concludes v p A (g x))
   \<Longrightarrow> concludes v p A (case r of None \<Rightarrow> m | Some x \<Rightarrow> g x)"
  by (cases r) simp_all

lemma concludes_case_prod: "(\<And>x y. concludes v p A (g x y)) \<Longrightarrow> concludes v p A (case xy of (x, y) \<Rightarrow> g x y)"
  by (cases xy) simp

lemma concluded_error: "failing v e \<Longrightarrow> concluded v p A old (final (ctx_error v e) s)"
  by (simp add: concluded_def failing_def conclusion_def final_ctx_error)

lemma concludes_error: "failing v e \<Longrightarrow> concludes v p A (ctx_error v e)"
  by (simp add: concludes_def concluded_error)

lemma concludes_fail: "failures_are_failures v \<Longrightarrow> concludes v p A (fail v e)"
  by (simp add: fail_def concludes_error failing_def error_status_def failures_are_failures_def)

lemma concludes_json: "A (BJson j) 200 \<Longrightarrow> concludes v p A (ctx_json j)"
  by (simp add: concludes_def going_well_def attended_def concluded_def unanswered_def conclusion_def final_ctx_json)

lemma final_status: "final (set_status c) s = s\<lparr>rsp := (rsp s)\<lparr>rsp_status := c\<rparr>\<rparr>"
  "final (set_body b) s = s\<lparr>rsp := (rsp s)\<lparr>rsp_body := b\<rparr>\<rparr>"
  by (simp_all add: set_status_def set_body_def final_simps)

lemma concludes_status_json: "A (BJson j) c \<Longrightarrow> concludes v p A (do { set_status c; ctx_json j })"
  by (simp add: concludes_def going_well_def attended_def concluded_def conclusion_def final_ctx_json final_bind final_status)

lemma concludes_status_raw: "A (BRaw b) c \<Longrightarrow> concludes v p A (do { set_status c; ctx_raw b })"
  by (simp add: concludes_def going_well_def attended_def concluded_def conclusion_def ctx_raw_def final_bind final_status)

lemma concludes_raw: "A (BRaw b) 200 \<Longrightarrow> concludes v p A (ctx_raw b)"
  by (simp add: concludes_def going_well_def attended_def concluded_def unanswered_def conclusion_def ctx_raw_def final_status)

lemma concludes_empty: "A BEmpty c \<Longrightarrow> concludes v p A (set_status c)"
  by (simp add: concludes_def going_well_def attended_def concluded_def unanswered_def conclusion_def final_status)

lemma concludes_redirect:
  "A (BRedirect u) 302 \<Longrightarrow> concludes v p A (ctx_redirect u)"
  by (simp add: concludes_def going_well_def attended_def concluded_def conclusion_def ctx_redirect_def final_bind final_status)

lemma concludes_redirectWithError:
  "(\<And>u. A (BRedirect u) 302) \<Longrightarrow> concludes v p A (redirectWithError v mk)"
  by (simp add: redirectWithError_def concludes_redirect)

text \<open>What follows an answer must leave it alone.\<close>

lemma concludes_then:
  assumes "concludes v p A m" "\<And>x s. rsp (final (f x) s) = rsp s"
    "\<And>x s old. attended v p old s \<Longrightarrow> attended v p old (final (f x) s)"
  shows "concludes v p A (State_Monad.bind m f)"
  using assms(1,3) by (simp add: concludes_def concluded_def final_bind assms(2)) blast

section \<open>Honest calls\<close>

definition plain_error :: "gerr \<Rightarrow> bool" where
  "plain_error e \<longleftrightarrow> (\<forall>svc st b. as_http_error e = Some (svc, st, b) \<longrightarrow> \<not> ok_status st)"

text \<open>A failure has a plain error, and a success had no refusal.\<close>

definition honest :: "env \<Rightarrow> (gerr + 'a) act \<Rightarrow> bool" where
  "honest v m \<longleftrightarrow> (\<forall>s. (\<forall>e. answer m s = Inl e \<longrightarrow> plain_error e) \<and>
     (\<forall>x p old. answer m s = Inr x \<longrightarrow> attended v p old s \<longrightarrow> attended v p old (final m s)))"

lemma plain_simps [simp]:
  "plain_error (Wrap svc e) = plain_error e" "plain_error (Text x)" "plain_error (missing_token svc)"
  "plain_error (HTTPError svc st b) \<longleftrightarrow> \<not> ok_status st"
  by (simp_all add: plain_error_def missing_token_def)

lemma honest_return: "(\<And>e. r = Inl e \<Longrightarrow> plain_error e) \<Longrightarrow> honest v (State_Monad.return r)"
  by (simp add: honest_def final_simps)

lemma honest_on_ok: "honest v m \<Longrightarrow> (\<And>x. honest v (f x)) \<Longrightarrow> honest v (on_ok m f)"
  by (auto simp: honest_def on_ok_def final_simps split: sum.splits)

lemma read_json_plain:
  assumes "\<And>b e. out b = Inl e \<Longrightarrow> plain_error e" "read_json svc out r = Inl e"
  shows "plain_error e"
  using assms by (auto simp: read_json_def split: if_splits sum.splits)

lemma read_json_ok: "read_json svc out r = Inr x \<Longrightarrow> ok_status (hr_status r)"
  by (auto simp: read_json_def split: if_splits sum.splits)

text \<open>One call, whose answer is read by \<open>out\<close>.\<close>

lemma honest_call:
  assumes "failures_are_failures v"
    and "\<And>r e. out r = Inl e \<Longrightarrow> plain_error e" "\<And>r x. out r = Inr x \<Longrightarrow> ok_status (hr_status r)"
  shows "honest v (if ob_token obo = [] then State_Monad.return (Inl (missing_token svc))
    else do { r \<leftarrow> ask (EObo c) (obo_reply v);
              State_Monad.return (case r of Inl e \<Rightarrow> Inl (Wrap svc e) | Inr r \<Rightarrow> out r) })"
proof -
  have plain: "plain_error e" if "obo_reply v tr = Inl e" for tr e
    using assms(1) that by (auto simp: failures_are_failures_def plain_error_def)
  have "attended v p old (s\<lparr>trace := EObo c # trace s\<rparr>)"
    if "obo_reply v (EObo c # trace s) = Inr r" "ok_status (hr_status r)" "attended v p old s" for s r p old
    using that by (intro attended_event) (simp_all add: refused_def refusing_def)
  then show ?thesis
    using plain assms(2,3) by (auto simp: honest_def world_final split: sum.splits)
qed

lemma honest_outbound:
  assumes "failures_are_failures v" "\<And>b e. out b = Inl e \<Longrightarrow> plain_error e"
  shows "honest v (doJSONOnBehalf v svc aud sc m u obo b ct out)"
    and "honest v (doJSONOnBehalfSlow v svc aud sc m u obo b ct out)"
    and "honest v (doRawOnBehalf v svc aud sc u obo)"
proof -
  note call = honest_call [OF assms(1)]
  show "honest v (doJSONOnBehalfSlow v svc aud sc m u obo b ct out)"
    unfolding doJSONOnBehalfSlow_def
    by (rule call) (rule read_json_plain [OF assms(2)], assumption+, rule read_json_ok)
  have json: "doJSONOnBehalf v svc aud sc m u obo b ct out = (if ob_token obo = [] then State_Monad.return (Inl (missing_token svc))
    else do { r \<leftarrow> ask (EObo \<lparr>oc_timeout = None, oc_audience = aud, oc_scope = sc,
                oc_sub = ob_sub obo, oc_token = ob_token obo, oc_method = m, oc_url = u,
                oc_content_type = ct, oc_body = b\<rparr>) (obo_reply v);
              State_Monad.return (case r of Inl e \<Rightarrow> Inl (Wrap svc e) | Inr r \<Rightarrow> read_json svc out r) })"
    by (auto simp: doJSONOnBehalf_def doOnBehalf_def on_ok_def intro!: state.expand ext split: prod.split sum.split)
  show "honest v (doJSONOnBehalf v svc aud sc m u obo b ct out)"
    unfolding json by (rule call) (rule read_json_plain [OF assms(2)], assumption+, rule read_json_ok)
  have raw: "doRawOnBehalf v svc aud sc u obo = (if ob_token obo = [] then State_Monad.return (Inl (missing_token svc))
    else do { r \<leftarrow> ask (EObo \<lparr>oc_timeout = None, oc_audience = aud, oc_scope = sc,
                oc_sub = ob_sub obo, oc_token = ob_token obo, oc_method = ''GET'', oc_url = u,
                oc_content_type = [], oc_body = no_body\<rparr>) (obo_reply v);
              State_Monad.return (case r of Inl e \<Rightarrow> Inl (Wrap svc e) | Inr r \<Rightarrow>
                if ok_status (hr_status r) then Inr r else Inl (HTTPError svc (hr_status r) (hr_body r))) })"
    by (auto simp: doRawOnBehalf_def doOnBehalf_def on_ok_def intro!: state.expand ext split: prod.split sum.split)
  show "honest v (doRawOnBehalf v svc aud sc u obo)"
    unfolding raw by (rule call) (auto split: if_splits)
qed

lemma out_plain:
  "out_json dec zero b = Inl e \<Longrightarrow> plain_error e" "out_none b = Inl e \<Longrightarrow> plain_error e"
  "out_validation v b = Inl e \<Longrightarrow> plain_error e"
  by (auto simp: out_json_def out_none_def out_validation_def decode_def
      split: if_splits payload.splits option.splits)

lemma honest_document_client [honest_clients]:
  assumes "failures_are_failures v"
  shows "honest v (ListChains v c obo l a)" "honest v (GetChain v c obo i)" "honest v (ListHistory v c obo l a)"
    "honest v (DeleteHistory v c obo i)" "honest v (Upload v c obo ct b)" "honest v (Bundle v c obo ids)"
    "honest v (Rebundle v c obo i es)" "honest v (Documents_List v c obo l a)" "honest v (Metadata v c obo i)"
    "honest v (Content v c obo i)" "honest v (ExtractObject v c obo i n)" "honest v (Delete v c obo i)"
  unfolding document_client_defs
  by (intro honest_outbound [OF assms] out_plain; assumption)+

lemma honest_preview_client [honest_clients]:
  assumes "failures_are_failures v"
  shows "honest v (Manifest v c obo i)" "honest v (Page v c obo i k)" "honest v (PreviewText v c obo i)"
    "honest v (InnerManifest v c obo i nm)" "honest v (InnerPage v c obo i nm k)" "honest v (InnerText v c obo i nm)"
  unfolding Manifest_def Page_def PreviewText_def InnerManifest_def InnerPage_def InnerText_def preview_get_def
  by (rule honest_outbound(3) [OF assms out_plain(2)], assumption)+

lemma honest_envelope_client [honest_clients]:
  assumes "failures_are_failures v"
  shows "honest v (Create v c obo inp)" "honest v (Envelope_List v c obo l a)" "honest v (FindForDocument v c obo i)"
    "honest v (SigningTasks v c obo l a)" "honest v (Envelope_Get v c obo i)" "honest v (AttachDocument v c obo i d)"
    "honest v (AddSlot v c obo i si)" "honest v (Send v c obo i)" "honest v (Cancel v c obo i)"
    "honest v (Reopen v c obo i)" "honest v (DeclineSlot v c obo i j)" "honest v (SlotEligible v c obo i j)"
  unfolding envelope_client_defs
  by ((intro honest_on_ok honest_outbound [OF assms] out_plain honest_return; (assumption | simp))+)

lemma honest_signflow_client [honest_clients]:
  assumes "failures_are_failures v"
  shows "honest v (BeginSigning v c obo inp)" "honest v (Status v c obo i w)" "honest v (SubmitClientSignature v c obo i ss)"
    "honest v (Abandon v c obo i)" "honest v (ChainFree v c obo e w)" "honest v (Validate_signature v c obo i)"
    "honest v (ValidateDocument v c obo i)" "honest v (ArchiveTimestamp v c obo i ac)"
  unfolding signflow_client_defs
  by ((intro honest_on_ok honest_outbound [OF assms] out_plain honest_return; (assumption | simp))+)

lemma concluded_relayErr: "plain_error e \<Longrightarrow> concluded v p A old (final (relayErr v e) s)"
  by (auto simp: relayErr_def plain_error_def Let_def failing_def error_status_def ok_status_def
      intro!: concluded_error split: option.split)

lemma concluded_or_relay:
  assumes "keeps unanswered m" "honest v m" "going_well v p old s"
    and "\<And>x. answer m s = Inr x \<Longrightarrow> concludes v p A (h x)"
  shows "concluded v p A old (final (or_relay v m h) s)"
proof (cases "answer m s")
  case (Inl e)
  then have "plain_error e" using assms(2) by (auto simp: honest_def)
  then show ?thesis by (simp add: or_relay_def final_bind Inl concluded_relayErr)
next
  case (Inr x)
  then have "going_well v p old (final m s)"
    using assms(1-3) keeps_final [OF assms(1)] by (auto simp: going_well_def honest_def)
  from concludesD [OF assms(4) [OF Inr] this] show ?thesis by (simp add: or_relay_def final_bind Inr)
qed

lemma concludes_or_relay:
  assumes "keeps unanswered m" "honest v m" "\<And>x. concludes v p A (h x)"
  shows "concludes v p A (or_relay v m h)"
  using concluded_or_relay [OF assms(1,2)] assms(3) by (simp add: concludes_def)

text \<open>A person whose token cannot be renewed has been answered; otherwise nothing was.\<close>

lemma concludes_with_delegation:
  assumes "failures_are_failures v" "\<And>obo. concludes v p A (h obo)"
  shows "concludes v p A (with_delegation v h)"
proof -
  have refused: "failing v refresh_failed"
    using assms(1) by (simp add: failing_def error_status_def refresh_failed_def unauthorized_def
        failures_are_failures_def)
  have "concluded v p A old (final (with_delegation v h) s)" if "going_well v p old s" for old s
  proof -
    have u: "going_well v p old (final (freshToken v) s)" by (rule keeps_final [OF quiet_tokens(3) that])
    show ?thesis
      using concluded_error [OF refused] concludesD [OF assms(2) u]
      by (cases "answer (freshToken v) s") (simp_all add: with_delegation_def onBehalf_def final_simps)
  qed
  then show ?thesis by (simp add: concludes_def)
qed

lemma concludes_ready:
  assumes "\<And>c. concludes v p A (h c)"
  shows "concludes v p A (documentsReady v h)" "concludes v p A (envelopeReady v h)"
    "concludes v p A (signingReady v h)" "concludes v p A (previewReady v h)"
  unfolding documentsReady_def envelopeReady_def signingReady_def previewReady_def
  by (rule concludes_case_option; auto intro!: concludes_error assms
      simp: failing_def error_status_def not_configured_def problem_def ok_status_def)+

section \<open>The handlers\<close>

lemmas concludes_rules = concludes_status_json concludes_status_raw concludes_redirectWithError
  concludes_redirect concludes_fail concludes_error concludes_json concludes_raw concludes_empty
  concludes_or_relay concludes_with_delegation concludes_ready concludes_bind concludes_if
  concludes_case_sum concludes_case_option concludes_case_prod

text \<open>The problems of the handlers, none of which names a success.\<close>

lemma failing_problems:
  assumes "failures_are_failures v"
  shows "failing v (Framework g)" "failing v Panic" "failing v (unauthorized d)" "failing v csrf_problem"
    "failing v refresh_failed" "failing v invalid_methods" "failing v (ParamInvalid n k g)"
    "failing v cert_required" "failing v envelope_required" "failing v (certificate_problem f)"
    "failing v not_eligible" "failing v verify_unavailable" "failing v too_many" "failing v one_file_required"
    "failing v file_too_large" "failing v (unreadable g)" "failing v (not_admitted d')"
    "failing v upstream_unavailable" "failing v unreadable_report"
  using assms
  by (simp_all add: failing_def error_status_def failures_are_failures_def ok_status_def unauthorized_def
      csrf_problem_def refresh_failed_def invalid_methods_def cert_required_def envelope_required_def
      certificate_problem_def not_eligible_def problem_def verify_unavailable_def too_many_def
      one_file_required_def file_too_large_def unreadable_def not_admitted_def upstream_unavailable_def
      unreadable_report_def public_problem_def split: docgate_error.split)

lemma failing_problem_code: "\<not> ok_status n \<Longrightarrow> failing v (Problem c (Some n) t d p)"
  by (simp add: failing_def error_status_def)

lemma quiet_more [quiet]:
  "keeps (going_well w p old) (gets f)" "keeps (going_well w p old) (State_Monad.return a)" "keeps (going_well w p old) skip"
  "keeps (going_well w p old) (relay_header r nm)" "keeps (going_well w p old) (documentRead v u d)"
  "keeps (going_well w p old) (DocumentDownloaded v u d)" "keeps (going_well w p old) (DocumentPreviewed v u d)"
  "keeps (going_well w p old) (offeredOnly v fs)" "keeps (going_well w p old) (revoke_session v x)"
  "keeps (going_well w p old) (recordVerify v q ip n sha vd vs)" "keeps (going_well w p old) (storeAnswer v key j)"
  "keeps (going_well w p old) (csrfDenied v x)" "keeps (going_well w p old) (GenerateKey v)" "keeps (going_well w p old) (PKCE v)"
  "keeps (going_well w p old) (Identity v key tok)"
  by (auto simp: relay_header_def DocumentDownloaded_def DocumentPreviewed_def documentRead_def
      offeredOnly_def revoke_session_def recordVerify_def Record_def storeAnswer_def csrfDenied_def
      GenerateKey_def PKCE_def Identity_def case_prod_beta quiet scopeVerifyRead_def evidence_call_def scopeVerifyAudit_def intro!: keeps_intros quiet_ask)

lemma concludes_session_routes:
  assumes "failures_are_failures v"
  shows "concludes v p (admits (Composed 200)) (me v)" "concludes v p (admits (Composed 200)) (refresh v)"
    "concludes v p (admits (Composed 200)) (logout v q)"
  unfolding me_def refresh_def logout_def
  by ((rule concludes_rules | (simp add: quiet keeps_intros failing_problems failing_problem_code ok_status_def assms; fail))+)

lemma concludes_document_routes:
  assumes "failures_are_failures v"
  shows "concludes v p (admits (Composed 200)) (listHistory v q)"
    "concludes v p (admits (Composed 200)) (deleteHistory v q)" "concludes v p (admits (Composed 200)) (listDocuments v q)"
    "concludes v p (admits (Composed 200)) (getDocument v q)" "concludes v p (admits (Composed 200)) (getDocumentChain v q)"
    "concludes v p (admits File) (downloadDocument v q)" "concludes v p (admits (Composed 200)) (deleteDocument v q)"
    "concludes v p (admits (Composed 200)) (archiveTimestamp v q)" "concludes v p (admits (Composed 201)) (bundleDocuments v q)"
    "concludes v p (admits (Composed 200)) (rebundleDocument v q)" "concludes v p (admits File) (extractDataObject v q)"
    "concludes v p (admits (Composed 200)) (dashboard v)"
  unfolding listHistory_def deleteHistory_def listDocuments_def getDocument_def getDocumentChain_def
    downloadDocument_def deleteDocument_def archiveTimestamp_def bundleDocuments_def rebundleDocument_def
    extractDataObject_def dashboard_def relay_file_def Let_def
  by ((rule concludes_rules | (simp add: quiet keeps_intros honest_clients silent_calls failing_problems assms; fail))+)

lemma concludes_upload:
  assumes "failures_are_failures v"
  shows "concludes v p (admits (Composed 201)) (uploadDocument v q)"
  unfolding uploadDocument_def Let_def encodeUpload_def
  by ((rule concludes_rules | (simp add: quiet keeps_intros honest_clients silent_calls failing_problems assms; fail))+)

text \<open>A preview is relayed under the status its service answered, which is a success.\<close>

lemma preview_ok: "answer (doRawOnBehalf v svc aud sc u obo) s = Inr r \<Longrightarrow> ok_status (hr_status r)"
  by (auto simp: doRawOnBehalf_def on_ok_def final_simps split: sum.splits if_splits)

lemma concludes_relayed:
  assumes "failures_are_failures v" "\<And>r old. keeps (going_well v p old) (before r)"
  shows "concludes v p (admits Relay) (or_relay v (preview_get v c obo u) (\<lambda>r. do { before r; relayJSON r }))"
proof -
  let ?m = "preview_get v c obo u" and ?h = "\<lambda>r. do { before r; relayJSON r }"
  have silent: "keeps unanswered ?m" by (simp add: preview_get_def silent.keeps_outbound [OF refl])
  have honest: "honest v ?m"
    unfolding preview_get_def by (rule honest_outbound(3) [OF assms(1) out_plain(2)])
  have h: "concludes v p (admits Relay) (?h r)" if "ok_status (hr_status r)" for r
    unfolding relayJSON_def by ((rule concludes_rules | (simp add: quiet assms that; fail))+)
  have "concluded v p (admits Relay) old (final (or_relay v ?m ?h) s)" if "going_well v p old s" for old s
    by (rule concluded_or_relay [OF silent honest that h], rule preview_ok) (simp add: preview_get_def)
  then show ?thesis by (simp add: concludes_def)
qed

lemma concludes_relayed_plain:
  assumes "failures_are_failures v"
  shows "concludes v p (admits Relay) (or_relay v (preview_get v c obo u) relayJSON)"
  using concludes_relayed [OF assms, where before = "\<lambda>_. skip"] by (simp add: quiet skip_def)

lemma concludes_preview_routes:
  assumes "failures_are_failures v"
  shows "concludes v p (admits Relay) (previewManifest v q)" "concludes v p (admits File) (previewPage v q)"
    "concludes v p (admits Relay) (previewText v q)" "concludes v p (admits Relay) (previewInnerManifest v q)"
    "concludes v p (admits File) (previewInnerPage v q)" "concludes v p (admits Relay) (previewInnerText v q)"
proof -
  show "concludes v p (admits File) (previewPage v q)" "concludes v p (admits File) (previewInnerPage v q)"
    unfolding previewPage_def previewInnerPage_def relay_page_def
    by ((rule concludes_rules | (simp add: quiet keeps_intros honest_clients silent_calls failing_problems assms; fail))+)
qed (auto simp: previewManifest_def previewText_def previewInnerManifest_def previewInnerText_def
    Manifest_def PreviewText_def InnerManifest_def InnerText_def quiet assms
    intro!: concludes_ready concludes_with_delegation concludes_relayed concludes_relayed_plain)

text \<open>A remembered answer is rendered as it was stored; otherwise the service is asked.\<close>

lemma concludes_answer_with:
  assumes "keeps unanswered fetch" "honest v fetch"
  shows "concludes v p (admits Rendered) (answer_with v q key fetch)"
proof -
  let ?serve = "serveCachedAnswer v q key"
  have cached: "(answer ?serve s \<longrightarrow> concluded v p (admits Rendered) old (final ?serve s)) \<and>
      (\<not> answer ?serve s \<longrightarrow> going_well v p old (final ?serve s))" if u: "going_well v p old s" for old s
  proof -
    have "going_well v p old (final (answer_Get v key) s)" by (rule keeps_final [where I = "going_well v p old", OF _ u]) (simp add: quiet)
    then show ?thesis
      using u by (simp add: serveCachedAnswer_def final_simps ctx_raw_def set_header_def final_status
          concluded_def conclusion_def going_well_def unanswered_def attended_def split: option.split)
  qed
  have asked: "concludes v p (admits Rendered) (or_relay v fetch (\<lambda>out. do {
      storeAnswer v key (enc_validation v out); ctx_json (enc_validation v out) }))"
    by ((rule concludes_rules | (simp add: quiet assms; fail))+)
  show ?thesis
    unfolding concludes_def answer_with_def
    using cached concludesD [OF asked] by (simp add: final_bind final_skip)
qed

lemma concludes_signing_routes:
  assumes "failures_are_failures v"
  shows "concludes v p (admits Rendered) (validateDocument v q)" "concludes v p (admits Rendered) (signatureValidation v q)"
    "concludes v p (admits (Composed 200)) (signingStatus v q)" "concludes v p (admits (Composed 200)) (clientSignature v q)"
    "concludes v p (admits NoContent) (abandonSigning v q)" "concludes v p (admits (Composed 200)) (chainFree v q)"
  unfolding validateDocument_def signatureValidation_def signingStatus_def clientSignature_def
    abandonSigning_def chainFree_def
  by ((rule concludes_answer_with concludes_rules | (simp add: quiet keeps_intros honest_clients silent_calls failing_problems assms; fail))+)

text \<open>An invitation that is refused is an invalid parameter.\<close>

lemma refused_identity: "inviteIdentity v n cd co = Inl e \<Longrightarrow> failing v e"
  by (auto simp: inviteIdentity_def failing_def error_status_def ok_status_def split: if_splits sum.splits)

lemma refused_slots: "slot_inputs v i ss = Inl e \<Longrightarrow> failing v e"
  by (induction v i ss rule: slot_inputs.induct) (auto split: sum.splits dest: refused_identity)

text \<open>The best-effort calls of the view and of a signing's start.\<close>

abbreviation view_route :: string where "view_route \<equiv> ''/envelopes/{id}''"
abbreviation sign_route :: string where "sign_route \<equiv> ''/envelopes/{id}/slots/{slot}/sign''"

lemma quiet_outbound:
  assumes "p = view_route \<and> sc \<noteq> scopeEnvRead \<or> p = sign_route \<and> sc = scopeEnvTransition"
  shows "keeps (going_well w p old) (doJSONOnBehalf v svc aud sc m u obo b ct out)"
    and "keeps (going_well w p old) (doJSONOnBehalfSlow v svc aud sc m u obo b ct out)"
  using assms by (auto simp: doJSONOnBehalf_def doOnBehalf_def doJSONOnBehalfSlow_def best_effort_def
      intro!: keeps_intros quiet_ask)

lemma quiet_best_effort [quiet]:
  "keeps (going_well w view_route old) (Status v c obo i n)"
  "keeps (going_well w view_route old) (Metadata v c obo i)"
  "keeps (going_well w view_route old) (CaptureSignerName v c obo i j nm)"
  "keeps (going_well w sign_route old) (SetSlotJob v c obo i j k)"
  unfolding signflow_client_defs envelope_client_defs document_client_defs
  by (intro quiet_outbound; simp add: scopeSigRead_def scopeEnvRead_def scopeDocRead_def scopeEnvTransition_def)+

lemma quiet_view [quiet]:
  "keeps (going_well w view_route old) (compose_slots v obo d)"
  "keeps (going_well w view_route old) (capture_first (capture_slot v c obo i) xs)"
  "keeps (going_well w view_route old) (resolve_names v obo ds)"
proof -
  have "keeps (going_well w view_route old) (capture_slot v c obo i x)" for x
    by (auto simp: capture_slot_def viewerName_def quiet intro!: keeps_intros)
  then show "keeps (going_well w view_route old) (capture_first (capture_slot v c obo i) xs)"
    by (induction xs) (auto intro!: keeps_intros)
qed (auto simp: compose_slots_def compose_slot_def resolve_names_def resolve_name_def Let_def quiet
    intro!: keeps_intros)

lemma concludes_envelope_routes:
  assumes "failures_are_failures v"
  shows "concludes v p (admits (Composed 201)) (createEnvelope v q)" "concludes v p (admits (Composed 200)) (listEnvelopes v q)"
    "concludes v p (admits (Composed 200)) (listSigningTasks v q)" "concludes v view_route (admits (Composed 200)) (getEnvelope v q)"
    "concludes v p (admits (Composed 201)) (attachEnvelopeDocument v q)" "concludes v p (admits (Composed 201)) (addEnvelopeSlot v q)"
    "concludes v p (admits (Composed 200)) (sendEnvelope v q)" "concludes v p (admits (Composed 200)) (cancelEnvelope v q)"
    "concludes v p (admits (Composed 200)) (reopenEnvelope v q)" "concludes v p (admits (Composed 200)) (declineEnvelopeSlot v q)"
    "concludes v sign_route (admits (Composed 201)) (signEnvelopeSlot v q)"
  unfolding createEnvelope_def one_document_def create_with_def listEnvelopes_def listSigningTasks_def
    getEnvelope_def attachEnvelopeDocument_def addEnvelopeSlot_def sendEnvelope_def cancelEnvelope_def
    reopenEnvelope_def declineEnvelopeSlot_def transition_handler_def signEnvelopeSlot_def start_signing_def
  by ((rule concludes_rules | (simp add: quiet keeps_intros honest_clients silent_calls failing_problems refused_identity refused_slots assms; fail))+)

section \<open>The routes without a session\<close>

lemma rejected_fails: "\<not> ok_status (vr_status r) \<Longrightarrow> failing v (rejected_upstream v r)"
  by (auto simp: rejected_upstream_def failing_def error_status_def public_problem_def
      upstream_unavailable_def ok_status_def split: option.split)

text \<open>A file whose validation is refused is answered as an error; otherwise the report is composed.\<close>

lemma concludes_admitted:
  assumes "failures_are_failures v"
  shows "concludes v p (admits (Composed 200)) (verify_admitted v q c ip fh d sha)"
proof -
  have "concluded v p (admits (Composed 200)) old (final (verify_admitted v q c ip fh d sha) s)"
    if u: "going_well v p old s" for old s
  proof -
    let ?m = "Verify_Validate v c (up_filename fh) d"
    obtain cl where t: "final ?m s = s\<lparr>trace := ESvc cl # trace s\<rparr>"
      and a: "answer ?m s = (case svc_reply v (ESvc cl # trace s) of Inl e \<Rightarrow> Inl (Wrap ''verify'' e)
        | Inr x \<Rightarrow> Inr \<lparr>vr_status = hr_status x, vr_report = hr_body x,
            vr_session = hr_header x ''X-Validation-Session''\<rparr>)"
      by (rule that) (simp_all add: Verify_Validate_def svc_request_def Let_def case_prod_beta world_final)
    have r: "\<exists>x. svc_reply v (ESvc cl # trace s) = Inr x \<and> hr_status x = vr_status res"
      if "answer ?m s = Inr res" for res
      using that unfolding a by (auto split: sum.splits)
    have well: "going_well v p old (final ?m s)" if "answer ?m s = Inr res" "ok_status (vr_status res)" for res
      using u r [OF that(1)] that(2)
      by (auto simp: t going_well_def unanswered_def refused_def refusing_def intro!: attended_event)
    have composed: "concludes v p (admits (Composed 200)) (do {
        t \<leftarrow> now v; recordVerify v q ip n sha vd w; ctx_json (f t) })" for n vd w f
      by ((rule concludes_rules | (simp add: quiet; fail))+)
    have unreadable: "concluded v p (admits (Composed 200)) old (final (do { recordVerify v q ip n sha vd w;
        ctx_error v e }) z)" if "failing v e" for n vd w e z
      by (simp add: final_bind concluded_error that)
    show ?thesis
      using well concludesD [OF composed] unreadable
      by (auto simp: verify_admitted_def final_bind failing_problems rejected_fails assms
          simp del: t split: sum.split)
  qed
  then show ?thesis by (simp add: concludes_def)
qed

lemma concludes_verify_file:
  assumes "failures_are_failures v"
  shows "concludes v p (admits (Composed 200)) (verify_file v q c ip)"
  using concludes_admitted [OF assms]
  by (auto simp: verify_file_def verify_data_def Let_def failing_problems quiet assms split: list.split
      intro!: concludes_error concludes_bind concludes_case_sum concludes_case_option)

lemma concludes_verify:
  assumes "failures_are_failures v"
  shows "concludes v p (admits (Composed 200)) (verify_route v q)"
proof -
  have g: "keeps (going_well v p old) (modify (\<lambda>s. s\<lparr>gate := g\<rparr>))" for g old by (rule quiet_modify) simp
  have form: "concludes v p (admits (Composed 200)) (do { verify_file v q c ip; release_gate ip })" for c ip
    by (rule concludes_then [OF concludes_verify_file [OF assms]])
       (simp_all add: release_gate_def final_modify attended_def)
  have doc: "concludes v p (admits (Composed 200)) (verifyDocument v q)"
    unfolding verifyDocument_def
    by ((rule form concludes_rules | (simp add: quiet g failing_problems assms; fail))+)
  have limited: "concludes v p (admits (Composed 200)) (limited_verify v q)"
    using concludesD [OF doc]
    by (auto simp: limited_verify_def concludes_def final_simps final_status concluded_def conclusion_def
        limit_refused_def ok_status_def)
  have after: "rsp (final (do { st \<leftarrow> gets (\<lambda>s. rsp_status (rsp s)); if st \<noteq> 429 then skip else edgeBlock v q }) s) = rsp s"
    "attended v p old s \<Longrightarrow>
      attended v p old (final (do { st \<leftarrow> gets (\<lambda>s. rsp_status (rsp s)); if st \<noteq> 429 then skip else edgeBlock v q }) s)"
    for s old
    by (simp_all add: final_simps edgeBlock_def final_emit attended_event)
  show ?thesis
    unfolding verify_route_def edgeBlockEvents_def by (intro concludes_then [OF limited] after)
qed

lemma concludes_login:
  assumes "failures_are_failures v"
  shows "concludes v p (admits (Composed 200)) (loginStart v q)" "concludes v p (admits Landing) (loginCallback v q)"
    "concludes v p (admits (Composed 200)) (signInMethods v)"
proof -
  have park: "keeps (going_well v p old) (park_flow v q acr)" for acr p old
    by (auto simp: park_flow_def quiet case_prod_beta intro!: keeps_intros quiet_ask)
  show "concludes v p (admits (Composed 200)) (loginStart v q)"
    unfolding loginStart_def
    by ((rule concludes_rules | (simp add: quiet park failing_problems assms; fail))+)
  have landed: "keeps (going_well v p old) (establishSession v q k tk)"
    "keeps (going_well v p old) (exchangeFlow v key ac f)" for k tk key ac f p old
    by (auto simp: establishSession_def exchangeFlow_def quiet intro!: keeps_intros quiet_ask)
  show "concludes v p (admits Landing) (loginCallback v q)"
    unfolding loginCallback_def finish_login_def
    by ((rule concludes_rules | (simp add: quiet landed failing_problems assms; fail))+)
  show "concludes v p (admits (Composed 200)) (signInMethods v)"
    unfolding signInMethods_def
    by ((rule concludes_rules | (simp add: quiet failing_problem_code ok_status_def assms; fail))+)
qed

lemma concludes_health:
  "concludes v p (admits (Composed 200)) healthz" "concludes v p (admits Readiness) (readyz v)"
  unfolding healthz_def readyz_def notReady_def
  by ((rule concludes_rules | (simp add: quiet; fail))+)

section \<open>Through the table\<close>

lemma success_of_routes:
  "success_of ''GET'' ''/healthz'' = Composed 200"
  "success_of ''GET'' ''/readyz'' = Readiness"
  "success_of ''POST'' ''/login/start'' = Composed 200"
  "success_of ''GET'' ''/login/callback'' = Landing"
  "success_of ''GET'' ''/sign-in-methods'' = Composed 200"
  "success_of ''POST'' ''/verify'' = Composed 200"
  "success_of ''GET'' ''/me'' = Composed 200"
  "success_of ''POST'' ''/session/refresh'' = Composed 200"
  "success_of ''POST'' ''/logout'' = Composed 200"
  "success_of ''GET'' ''/dashboard'' = Composed 200"
  "success_of ''GET'' ''/history'' = Composed 200"
  "success_of ''DELETE'' ''/history/{chainRoot}'' = Composed 200"
  "success_of ''POST'' ''/documents'' = Composed 201"
  "success_of ''GET'' ''/documents'' = Composed 200"
  "success_of ''GET'' ''/documents/{id}'' = Composed 200"
  "success_of ''GET'' ''/documents/{id}/chain'' = Composed 200"
  "success_of ''GET'' ''/documents/{id}/download'' = File"
  "success_of ''DELETE'' ''/documents/{id}'' = Composed 200"
  "success_of ''POST'' ''/documents/{id}/archive-timestamp'' = Composed 200"
  "success_of ''POST'' ''/documents/{id}/validate'' = Rendered"
  "success_of ''POST'' ''/documents/bundle'' = Composed 201"
  "success_of ''POST'' ''/documents/{id}/rebundle'' = Composed 200"
  "success_of ''GET'' ''/documents/{id}/data-objects/{name}'' = File"
  "success_of ''GET'' ''/documents/{id}/preview'' = Relay"
  "success_of ''GET'' ''/documents/{id}/preview/pages/{n}'' = File"
  "success_of ''GET'' ''/documents/{id}/preview/text'' = Relay"
  "success_of ''GET'' ''/documents/{id}/data-objects/{name}/preview'' = Relay"
  "success_of ''GET'' ''/documents/{id}/data-objects/{name}/preview/pages/{n}'' = File"
  "success_of ''GET'' ''/documents/{id}/data-objects/{name}/preview/text'' = Relay"
  "success_of ''GET'' ''/signings/{jobId}/status'' = Composed 200"
  "success_of ''POST'' ''/signings/{jobId}/client-signature'' = Composed 200"
  "success_of ''POST'' ''/signings/{jobId}/abandon'' = NoContent"
  "success_of ''GET'' ''/signatures/{sigId}/validation'' = Rendered"
  "success_of ''GET'' ''/chain-free'' = Composed 200"
  "success_of ''POST'' ''/envelopes'' = Composed 201"
  "success_of ''GET'' ''/envelopes'' = Composed 200"
  "success_of ''GET'' ''/signing-tasks'' = Composed 200"
  "success_of ''GET'' ''/envelopes/{id}'' = Composed 200"
  "success_of ''POST'' ''/envelopes/{id}/documents'' = Composed 201"
  "success_of ''POST'' ''/envelopes/{id}/slots'' = Composed 201"
  "success_of ''POST'' ''/envelopes/{id}/send'' = Composed 200"
  "success_of ''POST'' ''/envelopes/{id}/cancel'' = Composed 200"
  "success_of ''POST'' ''/envelopes/{id}/reopen'' = Composed 200"
  "success_of ''POST'' ''/envelopes/{id}/slots/{slot}/decline'' = Composed 200"
  "success_of ''POST'' ''/envelopes/{id}/slots/{slot}/sign'' = Composed 201"
  by code_simp+

lemma concludes_open:
  assumes "failures_are_failures v" "(m, p, h) \<in> set open_routes"
  shows "concludes v p (admits (success_of m p)) (h v q)"
  using assms(2) unfolding open_routes_def
  by (simp only: list.set insert_iff empty_iff prod.inject; elim disjE conjE;
      simp add: success_of_routes concludes_login concludes_health concludes_verify assms(1))

lemma concludes_authed:
  assumes "failures_are_failures v" "(m, p, h) \<in> set authed_routes"
  shows "concludes v p (admits (success_of m p)) (h v q)"
  by (insert assms(2), unfold authed_routes_def route_groups, simp only: append.simps list.set insert_iff empty_iff
        prod.inject; elim disjE conjE; (simp only: success_of_routes)?;
      (rule concludes_session_routes concludes_document_routes concludes_upload concludes_preview_routes
        concludes_signing_routes concludes_envelope_routes, rule assms(1))?)

lemma concludes_requireSession:
  assumes "failures_are_failures v" "concludes v p A h"
  shows "concludes v p A (requireSession v q h)"
proof -
  have resolved: "keeps (going_well v p old) (modify (\<lambda>s. s\<lparr>cur_sid := i, cur_ses := x\<rparr>))" for i x old
    by (rule quiet_modify) simp
  show ?thesis
    unfolding requireSession_def Let_def
    by ((rule assms(2) concludes_rules | (simp add: quiet resolved failing_problems assms; fail))+)
qed

lemma arrive_well: "going_well v p (trace s) (arrive s)"
  by (simp add: going_well_def unanswered_def attended_def arrive_def no_response_def)

text \<open>
  C20. Every request is answered, the status tells what became of it, and a refusal is never
  answered as a success.  With the framework's problems failing as documented, a route answers the
  body and status the table lists for it (a composed document under 200 or 201, a file under 200, a
  preview under its service's success, 204 without a body, a redirect) or a problem under the status
  of that problem, which is never a success.  And when it answers no problem, every service it
  called for the person, and the service that validates an uploaded file, answered that call with a
  success; only the calls listed as best effort (what the view of an envelope adds to the envelope,
  and noting a started job at its slot) may have been refused.
\<close>

theorem answers_keep_the_contract:
  assumes "failures_are_failures v" "(m, p, h) \<in> set Init" "t = serve v h q s"
  shows "conclusion v (admits (success_of m p)) (rsp t) \<and>
    (\<not> is_error (rsp_body (rsp t)) \<longrightarrow> (\<exists>es. trace t = es @ trace s \<and> heeded v p es (trace s)))"
proof -
  have "concludes v p (admits (success_of m p)) (h v q)"
    using assms(2) concludes_open [OF assms(1)] concludes_requireSession [OF assms(1) concludes_authed [OF assms(1)]]
    by (auto simp: Init_def guarded_def)
  from concludesD [OF this arrive_well]
  show ?thesis by (auto simp: assms(3) serve_def concluded_def attended_def)
qed

text \<open>The sample person asks to bundle documents.\<close>

theorem answers_keep_the_contract_witness:
  "(\<exists>h t. (''POST'', ''/documents/bundle'', h) \<in> set Init \<and> t = serve demo h demo_request signed_in \<and>
      conclusion demo (admits (Composed 201)) (rsp t) \<and>
      (is_error (rsp_body (rsp t)) \<or>
        (\<exists>es. trace t = es @ trace signed_in \<and> heeded demo ''/documents/bundle'' es (trace signed_in))))"
proof -
  let ?h = "\<lambda>v q. requireSession v q (bundleDocuments v q)"
  have h: "(''POST'', ''/documents/bundle'', ?h) \<in> set Init"
    by (simp add: Init_def guarded_def authed_routes_def route_groups)
  have "failures_are_failures demo"
    by (simp add: failures_are_failures_def ok_status_def demo_def)
  from answers_keep_the_contract [OF this h refl, of demo_request signed_in] h show ?thesis
    by (intro exI [of _ ?h] exI [of _ "serve demo ?h demo_request signed_in"]) (auto simp: success_of_def creations_def)
qed

end
