(* ===== verification/Redirects.thy ===== *)
theory Redirects
  imports Process
begin

text \<open>
  Where an answer sends the browser: the login return alone redirects, and only to the app.
\<close>

definition stays :: "string \<Rightarrow> bff \<Rightarrow> bool" where
  "stays sub s \<longleftrightarrow> \<not> is_redirect (rsp_body (rsp s)) \<and> ses_subject (cur_ses s) = sub"

interpretation stays: handler_invariant "stays sub" sub "\<lambda>_. True" for sub
  by unfold_locales (auto simp: stays_def)

interpretation stays_open: open_invariant "stays sub" "\<lambda>_. False" "\<lambda>_. True" for sub
  by unfold_locales (auto simp: stays_def)

definition goes_home :: "env \<Rightarrow> bff \<Rightarrow> bool" where
  "goes_home v s \<longleftrightarrow> (\<forall>u. rsp_body (rsp s) = BRedirect u \<longrightarrow> lands_home v u)"

interpretation goes_home: open_invariant "goes_home v" "lands_home v" "\<lambda>_. True" for v
  by unfold_locales (auto simp: goes_home_def)

lemma stays_guarded:
  assumes "(m, p, h) \<in> set authed_routes"
  shows "\<not> is_redirect (rsp_body (rsp (serve v (\<lambda>v q. requireSession v q (h v q)) q s)))"
  using refl [of "readCookie q (cookie_name (cfg v))"]
proof (cases rule: gate_cases [where s = s and h = h])
  case (passed x)
  let ?sid = "readCookie q (cookie_name (cfg v))"
  have k: "keeps (stays sub) (h v q)" for sub
    using assms
    by (auto simp: authed_routes_def route_groups stays.keeps_session_routes stays.keeps_logout
        stays.keeps_document_routes stays.keeps_preview_routes stays.keeps_signing_routes
        stays.keeps_envelope_routes stays.keeps_dashboard)
  have "rsp (final (GetSession v ?sid) (arrive s)) = no_response"
    using final_GetSession [of v ?sid "arrive s"] by (auto simp: arrive_def)
  then have "stays (ses_subject x) ((final (GetSession v ?sid) (arrive s))\<lparr>cur_sid := ?sid, cur_ses := x\<rparr>)"
    by (simp add: stays_def no_response_def)
  from keeps_final [OF k this] show ?thesis unfolding passed(2) by (simp add: stays_def)
next
  case (stopped es r)
  then show ?thesis by auto
qed

lemma stays_open:
  assumes "(m, p, h) \<in> set open_routes" "h \<noteq> loginCallback"
  shows "\<not> is_redirect (rsp_body (rsp (serve v h q s)))"
proof -
  have "keeps (stays []) (h v q)"
    using assms
    by (auto simp: open_routes_def stays_open.keeps_loginStart stays_open.keeps_signInMethods
        stays_open.keeps_health stays_def intro!: stays.keeps_verify_route)
  from keeps_final [OF this, of "arrive s"] show ?thesis
    by (simp add: serve_def stays_def arrive_def no_response_def zero_session_def)
qed

text \<open>
  C17. The browser is only ever sent home: of all the routes the login return alone redirects,
  and where it sends the browser is the configured address of the app, as it stands or with one
  of six fixed markers, so nothing of the request is reflected there.
\<close>

theorem browser_is_only_sent_home:
  assumes "(m, p, h) \<in> set Init" "rsp_body (rsp (serve v h q s)) = BRedirect u"
  shows "h = loginCallback \<and> (u = post_login_url (cfg v) \<or>
    (\<exists>mk \<in> {''login_failed'', ''cancelled'', ''idp_error'', ''missing_code'', ''expired'', ''bad_state''}.
      u = post_login_url (cfg v) @ ''?error='' @ mk))"
proof -
  have h: "h = loginCallback"
    using assms(1)
  proof (cases rule: Init_cases)
    case 1
    then show ?thesis using stays_open [OF 1, of v q s] assms(2) by auto
  next
    case (2 g)
    then show ?thesis using stays_guarded [OF 2(1), of v q s] assms(2) by simp
  qed
  have "goes_home v (serve v loginCallback q s)" unfolding serve_def
    by (rule keeps_final [OF goes_home.keeps_loginCallback])
       (simp_all add: goes_home_def arrive_def no_response_def)
  then show ?thesis using h assms(2) by (simp add: goes_home_def lands_home_def markers_def)
qed

definition cancelled_request :: request where
  "cancelled_request = demo_request\<lparr>rq_query := (\<lambda>n. if n = ''error'' then Some ''access_denied'' else None)\<rparr>"

theorem browser_is_only_sent_home_witness:
  "\<exists>u. rsp_body (rsp (serve demo loginCallback cancelled_request boot)) = BRedirect u \<and>
    (u = post_login_url (cfg demo) \<or>
      (\<exists>mk \<in> {''login_failed'', ''cancelled'', ''idp_error'', ''missing_code'', ''expired'', ''bad_state''}.
        u = post_login_url (cfg demo) @ ''?error='' @ mk))"
proof -
  have "(''GET'', ''/login/callback'', loginCallback) \<in> set Init" by (simp add: Init_def open_routes_def)
  moreover have "rsp_body (rsp (serve demo loginCallback cancelled_request boot))
      = BRedirect (post_login_url (cfg demo) @ ''?error='' @ query_escape ''cancelled'')"
    by (simp add: serve_def loginCallback_def cancelled_request_def opt_text_def final_redirect)
       (simp add: demo_def)
  ultimately show ?thesis using browser_is_only_sent_home by blast
qed

end
