(* ===== verification/RequestTheorems.thy ===== *)
theory RequestTheorems
  imports Samples
begin

text \<open>
  What a request's body has to be: a handler reads it before it asks any service, and the tags of
  the request types decide what is read.
\<close>

section \<open>A refused body\<close>

text \<open>The handlers behind the gate that read a JSON body, with what refuses it.\<close>

definition refusal :: "(request \<Rightarrow> gerr + 'a) \<Rightarrow> request \<Rightarrow> gerr option" where
  "refusal body q = (case body q of Inl e \<Rightarrow> Some e | Inr _ \<Rightarrow> None)"

lemma refusal_Some [simp]: "refusal body q = Some e \<longleftrightarrow> body q = Inl e"
  by (simp add: refusal_def split: sum.split)

definition body_handlers :: "(handler \<times> (request \<Rightarrow> gerr option)) list" where
  "body_handlers = [
     (createEnvelope, refusal create_envelope_body),
     (attachEnvelopeDocument, refusal attach_document_body),
     (addEnvelopeSlot, refusal add_slot_body),
     (signEnvelopeSlot, refusal sign_slot_body),
     (clientSignature, refusal client_signature_body),
     (bundleDocuments, refusal bundle_body),
     (rebundleDocument, refusal rebundle_body)]"

lemma ready_answers:
  "final (documentsReady v h) s = (case ap_documents (app v) of Some c \<Rightarrow> final (h c) s
     | None \<Rightarrow> final (ctx_error v (not_configured ''err:document:notConfigured'' ''document composition not configured'')) s)"
  "final (envelopeReady v h) s = (case ap_envelope (app v) of Some c \<Rightarrow> final (h c) s
     | None \<Rightarrow> final (ctx_error v (not_configured ''err:envelope:notConfigured'' ''envelope composition not configured'')) s)"
  "final (signingReady v h) s = (case ap_signflow (app v) of Some c \<Rightarrow> final (h c) s
     | None \<Rightarrow> final (ctx_error v (not_configured ''err:signing:notConfigured'' ''signing composition not configured'')) s)"
  "final (previewReady v h) s = (case ap_preview (app v) of Some c \<Rightarrow> final (h c) s
     | None \<Rightarrow> final (ctx_error v (not_configured ''err:preview:notConfigured'' ''preview not configured'')) s)"
  by (simp_all add: documentsReady_def envelopeReady_def signingReady_def previewReady_def split: option.split)

lemma delegated_refusal:
  "\<exists>r. final (with_delegation v (\<lambda>obo. ctx_error v e)) s = (final (onBehalf v) s)\<lparr>rsp := r\<rparr>"
proof (cases "answer (onBehalf v) s")
  case None
  then show ?thesis
    by (intro exI [of _ "rsp (final (onBehalf v) s)"]) (simp add: with_delegation_def final_bind final_skip)
next
  case (Some obo)
  then show ?thesis by (auto simp: with_delegation_def final_bind final_ctx_error)
qed

text \<open>
  C34. A body that does not decode or does not satisfy its tags reaches no service: whatever the
  handler, beyond the person's token nothing is asked and nothing is kept; only an answer is
  written.
\<close>

theorem refused_body_reaches_no_service:
  assumes "(h, bad) \<in> set body_handlers" "bad q = Some e"
  shows "\<exists>r. final (h v q) s = s\<lparr>rsp := r\<rparr> \<or> final (h v q) s = (final (onBehalf v) s)\<lparr>rsp := r\<rparr>"
proof -
  have "(\<exists>r. final (h v q) s = s\<lparr>rsp := r\<rparr>) \<or>
    final (h v q) s = final (with_delegation v (\<lambda>obo. ctx_error v (Framework e))) s"
    using assms
    by (auto simp: body_handlers_def createEnvelope_def attachEnvelopeDocument_def addEnvelopeSlot_def
        signEnvelopeSlot_def clientSignature_def bundleDocuments_def rebundleDocument_def ready_answers
        final_ctx_error split: option.split)
  then show ?thesis using delegated_refusal [of v "Framework e" s] by auto
qed

text \<open>A signing request that names no document.\<close>

definition nameless_request :: request where
  "nameless_request = demo_request\<lparr>rq_body := Doc (JObj [(''flow'', JStr ''webEid'')])\<rparr>"

lemma nameless_refused: "sign_slot_body nameless_request = Inl validation_failed"
  by code_simp

theorem refused_body_reaches_no_service_witness:
  "\<exists>r. final (signEnvelopeSlot demo nameless_request) signed_in = signed_in\<lparr>rsp := r\<rparr> \<or>
     final (signEnvelopeSlot demo nameless_request) signed_in = (final (onBehalf demo) signed_in)\<lparr>rsp := r\<rparr>"
  by (rule refused_body_reaches_no_service [of _ "refusal sign_slot_body" _ validation_failed])
     (simp_all add: body_handlers_def nameless_refused)

section \<open>The first place of an order\<close>

text \<open>
  A signer at place zero can only be invited when the envelope is created: the tag
  \<open>required\<close> of the request that adds a slot refuses the number 0, so the handler answers the
  validation error and asks no service; the same slot is read as it is when it seeds a creation.
\<close>

theorem first_place_only_at_creation:
  assumes "se_order_index x = 0" "valid_country (se_country x)"
    and "rq_body q = Doc (enc_slot_entry x)" "ap_envelope (app v) = Some c"
    and "answer (onBehalf v) s = Some obo"
    and "r = zero_create_envelope\<lparr>ce_slots := [x]\<rparr>"
  shows "final (addEnvelopeSlot v q) s = final (ctx_error v (Framework validation_failed)) (final (onBehalf v) s) \<and>
    create_envelope_body (q\<lparr>rq_body := Doc (enc_struct create_envelope_fields r)\<rparr>) = Inr r"
proof
  have i: "int64 (se_order_index x)" using assms(1) by (simp add: int64_def)
  have "add_slot_body q = Inl validation_failed"
    using assms(1) add_slot_read [OF assms(3) i] by (simp add: valid_add_slot_def)
  then show "final (addEnvelopeSlot v q) s = final (ctx_error v (Framework validation_failed)) (final (onBehalf v) s)"
    using assms(4,5) by (simp add: addEnvelopeSlot_def ready_answers with_delegation_def final_bind)
  show "create_envelope_body (q\<lparr>rq_body := Doc (enc_struct create_envelope_fields r)\<rparr>) = Inr r"
    by (rule create_envelope_read)
       (use assms(2) i in \<open>simp_all add: assms(6) valid_create_envelope_def valid_slot_entry_def zero_create_envelope_def\<close>)
qed

definition first_signer :: slot_entry where
  "first_signer = zero_slot_entry\<lparr>se_role := ''signer''\<rparr>"

theorem first_place_only_at_creation_witness:
  "\<exists>q r. rq_body q = Doc (enc_slot_entry first_signer) \<and>
    rsp_body (rsp (final (addEnvelopeSlot demo q) (signed_in\<lparr>cur_ses := demo_session\<rparr>)))
      = BError (Framework validation_failed) \<and>
    create_envelope_body (q\<lparr>rq_body := Doc (enc_struct create_envelope_fields r)\<rparr>) = Inr r"
proof -
  let ?q = "demo_request\<lparr>rq_body := Doc (enc_slot_entry first_signer)\<rparr>"
  have "answer (onBehalf demo) (signed_in\<lparr>cur_ses := demo_session\<rparr>) = Some \<lparr>ob_sub = ''alice'', ob_token = ''at1''\<rparr>"
    using demo_fresh [of "signed_in\<lparr>cur_ses := demo_session\<rparr>"] by (simp add: signed_in_def boot_def)
  then show ?thesis
    using first_place_only_at_creation [of first_signer ?q demo _ _ _ "zero_create_envelope\<lparr>ce_slots := [first_signer]\<rparr>"]
    by (intro exI [of _ ?q] exI [of _ "zero_create_envelope\<lparr>ce_slots := [first_signer]\<rparr>"])
       (simp add: first_signer_def zero_slot_entry_def valid_country_def final_ctx_error)
qed

end
