(* ===== verification/Container.thy ===== *)
theory Container
  imports Router
begin

text \<open>
  The application container of \<open>app.go\<close>: the record \<open>container\<close> holds what \<open>App\<close> holds, each
  part built by the constructor the code uses (\<open>session/memory.go\<close>, \<open>session/redis.go\<close>,
  \<open>anscache.go\<close>, \<open>auditposter.go\<close>, the recorders of \<open>audit\<close>), with the accessors the handlers read
  it through and the setters of the tests.  A client of a library is the settings it was built
  from; \<open>None\<close> is a nil pointer.  Loggers and contexts are left out.  \<open>app_of\<close> is the part of it
  that the routes act on.
\<close>

section \<open>What the container holds\<close>

text \<open>The session stores, with the lifetimes of sessions and flows they were given.\<close>

datatype session_store = MemoryStore duration duration | RedisStore string duration duration

definition NewMemory :: "duration \<Rightarrow> duration \<Rightarrow> session_store" where
  "NewMemory sessionTTL flowTTL = MemoryStore sessionTTL flowTTL"

definition NewRedis :: "string \<Rightarrow> duration \<Rightarrow> duration \<Rightarrow> session_store" where
  "NewRedis c sessionTTL flowTTL = RedisStore c sessionTTL flowTTL"

datatype answer_cache = MemoryAnswers duration | RedisAnswers string duration

definition newMemoryAnswerCache :: "duration \<Rightarrow> answer_cache" where
  "newMemoryAnswerCache ttl = MemoryAnswers ttl"

text \<open>The Auth Service client: its issuer, the address it calls, and how it proves itself.\<close>

record auth_service =
  as_issuer :: string
  as_internal :: string
  as_client_id :: string
  as_redirect_uri :: string
  as_client_secret :: string
  as_sign_in_issuer :: string

text \<open>\<open>OfferedFlows\<close>: a source and how long its answer is remembered.\<close>

record 'a offered_source =
  os_source :: 'a
  os_ttl :: duration

definition NewOfferedFlows :: "'a \<Rightarrow> duration \<Rightarrow> 'a offered_source" where
  "NewOfferedFlows src ttl = \<lparr>os_source = src, os_ttl = ttl\<rparr>"

record access_audit_poster =
  po_auth :: "auth_config option"
  po_url :: string
  po_audience :: string
  po_scope :: string

definition newAccessAuditPoster :: "auth_config option \<Rightarrow> string \<Rightarrow> string \<Rightarrow> string \<Rightarrow> access_audit_poster" where
  "newAccessAuditPoster ac baseURL audience scope = \<lparr>po_auth = ac,
     po_url = access_records_url baseURL, po_audience = audience, po_scope = scope\<rparr>"

text \<open>The access-record client and its settings; the resilience knobs are that library's defaults.\<close>

record gdpr_knobs =
  gk_timeout :: duration
  gk_outbox_capacity :: int
  gk_max_retries :: int
  gk_retry_backoff :: duration
  gk_breaker_threshold :: int
  gk_breaker_cooldown :: duration

record gdpr_config = gdpr_knobs +
  gd_endpoint :: string
  gd_audience :: string
  gd_scope :: string

definition GDPRConfig :: "gdpr_knobs \<Rightarrow> configuration \<Rightarrow> gdpr_config" where
  "GDPRConfig k c = \<lparr>gk_timeout = gk_timeout k, gk_outbox_capacity = gk_outbox_capacity k,
     gk_max_retries = gk_max_retries k, gk_retry_backoff = gk_retry_backoff k,
     gk_breaker_threshold = gk_breaker_threshold k, gk_breaker_cooldown = gk_breaker_cooldown k,
     gd_endpoint = access_audit_url c, gd_audience = access_audit_audience c,
     gd_scope = access_audit_scope c\<rparr>"

record gdpr_client =
  gc_config :: gdpr_config
  gc_poster :: access_audit_poster
  gc_outbox :: "string option"

text \<open>The recorders: without a client, or without a client and an address, they do nothing.\<close>

record recorder =
  re_gdpr :: "gdpr_client option"

definition New_recorder :: "gdpr_client option \<Rightarrow> recorder" where
  "New_recorder c = \<lparr>re_gdpr = c\<rparr>"

record verify_recorder =
  vr_doer :: "auth_config option"
  vr_url :: string
  vr_audience :: string

definition NewVerifyRecorder :: "auth_config option \<Rightarrow> string \<Rightarrow> string \<Rightarrow> verify_recorder" where
  "NewVerifyRecorder d baseURL audience = \<lparr>vr_doer = d, vr_url = baseURL, vr_audience = audience\<rparr>"

datatype emitter = LogSink | OtherSink string

record container =
  ct_config :: "configuration option"
  ct_ready :: bool
  ct_redis_client :: "string option"
  ct_sessions :: "session_store option"
  ct_as :: "auth_service option"
  ct_outbound_client :: "auth_config option"
  ct_documents :: "service option"
  ct_envelope :: "service option"
  ct_signflow :: "service option"
  ct_preview :: "service option"
  ct_verify :: "service option"
  ct_offered :: "service offered_source option"
  ct_sign_in :: "string offered_source option"
  ct_audit :: "recorder option"
  ct_verify_audit :: "verify_recorder option"
  ct_answers :: "answer_cache option"
  ct_sec_events :: "emitter option"

text \<open>\<open>&App{App: a, config: config}\<close>, once \<open>server.New\<close> has loaded the settings.\<close>

definition fresh_app :: "configuration \<Rightarrow> container" where
  "fresh_app c = \<lparr>ct_config = Some c, ct_ready = True, ct_redis_client = None, ct_sessions = None,
     ct_as = None, ct_outbound_client = None, ct_documents = None, ct_envelope = None,
     ct_signflow = None, ct_preview = None, ct_verify = None, ct_offered = None, ct_sign_in = None,
     ct_audit = None, ct_verify_audit = None, ct_answers = None, ct_sec_events = None\<rparr>"

section \<open>Reading it\<close>

text \<open>\<open>Config\<close> panics until the settings are loaded.\<close>

definition Config :: "container \<Rightarrow> gerr + configuration" where
  "Config a = (case ct_config a of
     None \<Rightarrow> Inl (Text ''configuration is not loaded'')
   | Some c \<Rightarrow> if ct_ready a then Inr c else Inl (Text ''configuration is not loaded''))"

definition Sessions :: "container \<Rightarrow> session_store option" where "Sessions a = ct_sessions a"
definition SecEvents :: "container \<Rightarrow> emitter option" where "SecEvents a = ct_sec_events a"
definition AuthService :: "container \<Rightarrow> auth_service option" where "AuthService a = ct_as a"
definition OutboundClient :: "container \<Rightarrow> auth_config option" where "OutboundClient a = ct_outbound_client a"
definition Documents :: "container \<Rightarrow> service option" where "Documents a = ct_documents a"
definition Envelope :: "container \<Rightarrow> service option" where "Envelope a = ct_envelope a"
definition Signflow :: "container \<Rightarrow> service option" where "Signflow a = ct_signflow a"
definition Preview :: "container \<Rightarrow> service option" where "Preview a = ct_preview a"
definition Verify :: "container \<Rightarrow> service option" where "Verify a = ct_verify a"
definition Audit :: "container \<Rightarrow> recorder option" where "Audit a = ct_audit a"
definition OfferedFlows :: "container \<Rightarrow> service offered_source option" where "OfferedFlows a = ct_offered a"
definition SignInMethods :: "container \<Rightarrow> string offered_source option" where "SignInMethods a = ct_sign_in a"
definition VerifyAudit :: "container \<Rightarrow> verify_recorder option" where "VerifyAudit a = ct_verify_audit a"
definition AnswerCache :: "container \<Rightarrow> answer_cache option" where "AnswerCache a = ct_answers a"

section \<open>Injecting a part, as the tests do\<close>

definition SetSecEvents :: "emitter option \<Rightarrow> container \<Rightarrow> container" where
  "SetSecEvents e a = a\<lparr>ct_sec_events := e\<rparr>"
definition SetSessions :: "session_store option \<Rightarrow> container \<Rightarrow> container" where
  "SetSessions s a = a\<lparr>ct_sessions := s\<rparr>"
definition SetDocuments :: "service option \<Rightarrow> container \<Rightarrow> container" where
  "SetDocuments d a = a\<lparr>ct_documents := d\<rparr>"
definition SetEnvelope :: "service option \<Rightarrow> container \<Rightarrow> container" where
  "SetEnvelope e a = a\<lparr>ct_envelope := e\<rparr>"
definition SetSignflow :: "service option \<Rightarrow> container \<Rightarrow> container" where
  "SetSignflow s a = a\<lparr>ct_signflow := s\<rparr>"
definition SetPreview :: "service option \<Rightarrow> container \<Rightarrow> container" where
  "SetPreview p a = a\<lparr>ct_preview := p\<rparr>"
definition SetVerify :: "service option \<Rightarrow> container \<Rightarrow> container" where
  "SetVerify x a = a\<lparr>ct_verify := x\<rparr>"
definition SetAudit :: "recorder option \<Rightarrow> container \<Rightarrow> container" where
  "SetAudit r a = a\<lparr>ct_audit := r\<rparr>"
definition SetOfferedFlows :: "service offered_source option \<Rightarrow> container \<Rightarrow> container" where
  "SetOfferedFlows x a = a\<lparr>ct_offered := x\<rparr>"
definition SetSignInMethods :: "string offered_source option \<Rightarrow> container \<Rightarrow> container" where
  "SetSignInMethods x a = a\<lparr>ct_sign_in := x\<rparr>"
definition SetVerifyAudit :: "verify_recorder option \<Rightarrow> container \<Rightarrow> container" where
  "SetVerifyAudit r a = a\<lparr>ct_verify_audit := r\<rparr>"

section \<open>Building its parts from the settings\<close>

text \<open>The session store: in Redis, whose URL was parsed, or in memory.\<close>

definition with_redis :: "configuration \<Rightarrow> container \<Rightarrow> container" where
  "with_redis c a = a\<lparr>ct_redis_client := Some (redis_url c),
     ct_sessions := Some (NewRedis (redis_url c) (session_ttl c) (flow_ttl c))\<rparr>"

definition with_memory :: "configuration \<Rightarrow> container \<Rightarrow> container" where
  "with_memory c a = a\<lparr>ct_sessions := Some (NewMemory (session_ttl c) (flow_ttl c))\<rparr>"

definition with_answers :: "configuration \<Rightarrow> container \<Rightarrow> container" where
  "with_answers c a = (let ttl = validation_cache_ttl c in
     if ttl > 0 then a\<lparr>ct_answers := Some (case ct_redis_client a of
         Some rc \<Rightarrow> RedisAnswers rc ttl
       | None \<Rightarrow> newMemoryAnswerCache ttl)\<rparr>
     else a)"

definition with_auth_service :: "configuration \<Rightarrow> container \<Rightarrow> container" where
  "with_auth_service c a = a\<lparr>ct_as := Some \<lparr>as_issuer = issuer_url c, as_internal = InternalURL c,
     as_client_id = auth_client_id c, as_redirect_uri = auth_redirect_uri c,
     as_client_secret = service_client_secret c, as_sign_in_issuer = SignInIssuer c\<rparr>\<rparr>"

text \<open>A composition client needs the outbound client and its own address.\<close>

definition composed :: "container \<Rightarrow> string \<Rightarrow> service \<Rightarrow> service option \<Rightarrow> service option" where
  "composed a base c old = (if ct_outbound_client a \<noteq> None \<and> base \<noteq> [] then Some c else old)"

definition with_clients :: "configuration \<Rightarrow> container \<Rightarrow> container" where
  "with_clients c a = a\<lparr>
     ct_documents := composed a (document_base_url c)
       (NewDocuments (document_base_url c) (document_audience c)) (ct_documents a),
     ct_envelope := composed a (envelope_base_url c)
       (NewEnvelope (envelope_base_url c) (envelope_audience c)) (ct_envelope a),
     ct_signflow := composed a (signflow_base_url c)
       (NewSignflow (signflow_base_url c) (signflow_audience c)) (ct_signflow a),
     ct_preview := composed a (preview_base_url c)
       (NewPreview (preview_base_url c) (preview_audience c)) (ct_preview a),
     ct_verify := composed a (signer_base_url c)
       (NewVerify (signer_base_url c) (signer_audience c)) (ct_verify a),
     ct_offered := (if ct_outbound_client a \<noteq> None \<and> signer_base_url c \<noteq> []
       then Some (NewOfferedFlows (NewOffer (signer_base_url c) (signer_audience c)) (signer_flows_ttl c))
       else ct_offered a),
     ct_sign_in := Some (NewOfferedFlows (NewSignInMethods (InternalURL c)) signInMethodsTTL)\<rparr>"

definition with_recorders :: "gdpr_client option \<Rightarrow> verify_recorder \<Rightarrow> container \<Rightarrow> container" where
  "with_recorders gc ver a = a\<lparr>ct_audit := Some (New_recorder gc), ct_verify_audit := Some ver\<rparr>"

section \<open>The part the routes act on\<close>

definition app_of :: "container \<Rightarrow> app" where
  "app_of a = \<lparr>
     ap_documents = Documents a, ap_envelope = Envelope a, ap_signflow = Signflow a,
     ap_preview = Preview a, ap_verify = Verify a,
     ap_offered = map_option os_source (OfferedFlows a),
     ap_signin_url = (case SignInMethods a of Some x \<Rightarrow> os_source x | None \<Rightarrow> []),
     ap_redis = (case Sessions a of Some (RedisStore _ _ _) \<Rightarrow> True | _ \<Rightarrow> False),
     ap_answers_ttl = (case AnswerCache a of
         Some (MemoryAnswers ttl) \<Rightarrow> Some ttl | Some (RedisAnswers _ ttl) \<Rightarrow> Some ttl | None \<Rightarrow> None),
     ap_audit = (case Audit a of Some r \<Rightarrow> re_gdpr r \<noteq> None | None \<Rightarrow> False),
     ap_verify_audit = (case VerifyAudit a of
         Some r \<Rightarrow> if vr_doer r = None \<or> vr_url r = [] then None
           else Some \<lparr>sv_base = vr_url r, sv_audience = vr_audience r\<rparr>
       | None \<Rightarrow> None)\<rparr>"

end
