(* ===== verification/Lifecycle.thy ===== *)
theory Lifecycle
  imports Container
begin

text \<open>
  The life of the process: \<open>New\<close>, \<open>init\<close>, \<open>Start\<close> and \<open>Stop\<close> of \<open>app.go\<close>, the drain task of
  \<open>audit/drain.go\<close>, the entry point of \<open>cmd/server\<close>, and the application of the tests
  (\<open>testing.go\<close>).  The libraries they set up are outside
  the repository: each is, in the record \<open>libraries\<close>, the error it answers.  What was set up, in
  which order, is a list of \<open>life\<close> events, oldest first.
\<close>

section \<open>The libraries\<close>

text \<open>
  The variables of the process, as \<open>os.LookupEnv\<close> answers them.
\<close>

type_synonym process_env = "string \<rightharpoonup> string"

record libraries =
  lib_server :: "process_env \<Rightarrow> string \<Rightarrow> string \<Rightarrow> gerr + configuration"
  lib_platform :: "configuration \<Rightarrow> gerr option"
  lib_redis :: "string \<Rightarrow> gerr option"
  lib_outbound :: "auth_config \<Rightarrow> gerr option"
  lib_outbox :: "string \<Rightarrow> int \<Rightarrow> gerr option"
  lib_gdpr :: "gdpr_config \<Rightarrow> access_audit_poster \<Rightarrow> string option \<Rightarrow> gerr option"
  lib_task :: "string \<Rightarrow> gerr option"
  lib_knobs :: gdpr_knobs

datatype life = LServer string string | LPlatform | LRedis string | LOutbound auth_config | LOutbox string
  | LGdpr gdpr_client | LTask string | LServe | LShutdown | LCloseRedis
  | LDrain | LCloseGdpr duration

type_synonym 'a life_act = "(life list, 'a) state"

definition log_life :: "life \<Rightarrow> unit life_act" where
  "log_life e = modify (\<lambda>l. l @ [e])"

text \<open>A library is set up, or its error is answered (with what \<open>fmt.Errorf\<close> puts in front).\<close>

definition set_up :: "life \<Rightarrow> gerr option \<Rightarrow> (gerr + unit) life_act" where
  "set_up e r = (case r of
     Some x \<Rightarrow> State_Monad.return (Inl x)
   | None \<Rightarrow> do { log_life e; State_Monad.return (Inr ()) })"

definition at_step :: "string \<Rightarrow> gerr option \<Rightarrow> gerr option" where
  "at_step what r = map_option (Wrap what) r"

definition fine :: "(gerr + unit) life_act" where
  "fine = State_Monad.return (Inr ())"

section \<open>Building the application\<close>

definition drain_name :: string where "drain_name = ''gdpr-audit-drain''"

definition gdpr_client_of :: "libraries \<Rightarrow> configuration \<Rightarrow> container \<Rightarrow> gdpr_client" where
  "gdpr_client_of x c a = \<lparr>gc_config = GDPRConfig (lib_knobs x) c,
     gc_poster = newAccessAuditPoster (ct_outbound_client a) (access_audit_url c)
       (access_audit_audience c) (access_audit_scope c),
     gc_outbox = (if access_audit_outbox_dir c \<noteq> [] then Some (access_audit_outbox_dir c) else None)\<rparr>"

definition buildGDPRAudit :: "libraries \<Rightarrow> configuration \<Rightarrow> container \<Rightarrow> (gerr + gdpr_client) life_act" where
  "buildGDPRAudit x c a = (let dir = access_audit_outbox_dir c; gc = gdpr_client_of x c a in
     on_ok (if dir \<noteq> [] then set_up (LOutbox dir)
              (at_step ''signbyte-bff: audit outbox'' (lib_outbox x dir (gk_outbox_capacity (lib_knobs x))))
            else fine) (\<lambda>_.
     on_ok (set_up (LGdpr gc) (at_step ''signbyte-bff: gdpr-audit client''
              (lib_gdpr x (gc_config gc) (gc_poster gc) (gc_outbox gc)))) (\<lambda>_.
     on_ok (set_up (LTask drain_name) (at_step ''signbyte-bff: gdpr drain task'' (lib_task x drain_name))) (\<lambda>_.
     State_Monad.return (Inr gc)))))"

text \<open>The stages of \<open>init\<close>, each on the container as the ones before left it.\<close>

definition init_sessions :: "libraries \<Rightarrow> configuration \<Rightarrow> container \<Rightarrow> (gerr + container) life_act" where
  "init_sessions x c a =
     (if RedisEnabled c
      then on_ok (set_up (LRedis (redis_url c))
             (at_step ''signbyte-bff: parse redis url'' (lib_redis x (redis_url c))))
             (\<lambda>_. State_Monad.return (Inr (with_redis c a)))
      else State_Monad.return (Inr (with_memory c a)))"

definition init_outbound :: "libraries \<Rightarrow> configuration \<Rightarrow> container \<Rightarrow> (gerr + container) life_act" where
  "init_outbound x c a =
     (if OutboundEnabled c
      then on_ok (set_up (LOutbound (OutboundAuthClientConfig c))
             (at_step ''signbyte-bff: outbound auth client'' (lib_outbound x (OutboundAuthClientConfig c))))
             (\<lambda>_. State_Monad.return (Inr (a\<lparr>ct_outbound_client := Some (OutboundAuthClientConfig c)\<rparr>)))
      else State_Monad.return (Inr a))"

definition init_audit :: "libraries \<Rightarrow> configuration \<Rightarrow> container \<Rightarrow> (gerr + container) life_act" where
  "init_audit x c a = (let b = with_recorders None (NewVerifyRecorder None [] []) a in
     if AccessAuditEnabled c \<and> ct_outbound_client b \<noteq> None
     then on_ok (buildGDPRAudit x c b) (\<lambda>gc. State_Monad.return (Inr
            (with_recorders (Some gc) (NewVerifyRecorder (ct_outbound_client b) (access_audit_url c)
               (access_audit_audience c)) b)))
     else State_Monad.return (Inr b))"

definition init :: "libraries \<Rightarrow> configuration \<Rightarrow> container \<Rightarrow> (gerr + container) life_act" where
  "init x c a =
     on_ok (set_up LPlatform (lib_platform x c)) (\<lambda>_.
     on_ok (init_sessions x c (SetSecEvents (Some LogSink) a)) (\<lambda>a.
     on_ok (init_outbound x c (with_auth_service c (with_answers c a))) (\<lambda>a.
     init_audit x c (with_clients c a))))"

definition app_title :: string where "app_title = ''Portal-API (BFF)''"

text \<open>\<open>server.New\<close> binds the settings from the process's variables and validates them.\<close>

definition New :: "libraries \<Rightarrow> process_env \<Rightarrow> string \<Rightarrow> (gerr + container) life_act" where
  "New x pe version = (case lib_server x pe app_title version of
     Inl e \<Rightarrow> State_Monad.return (Inl e)
   | Inr c \<Rightarrow> do { log_life (LServer app_title version); init x c (fresh_app c) })"

section \<open>Starting and stopping\<close>

text \<open>A store that cannot be reached does not keep the server from starting.\<close>

definition Start :: "env \<Rightarrow> gerr option \<Rightarrow> (gerr + unit) act" where
  "Start v server = do {
     r \<leftarrow> Ping v;
     State_Monad.return (case server of None \<Rightarrow> Inr () | Some e \<Rightarrow> Inl e) }"

definition Stop :: "container \<Rightarrow> unit life_act" where
  "Stop a = do {
     log_life LShutdown;
     (if ct_redis_client a \<noteq> None then log_life LCloseRedis else skip) }"

text \<open>The drain runs in the background from its start, and is flushed for five seconds at most.\<close>

definition drain_Start :: "(gerr + unit) life_act" where
  "drain_Start = do { log_life LDrain; State_Monad.return (Inr ()) }"

definition drain_Stop :: "unit life_act" where
  "drain_Stop = log_life (LCloseGdpr (5 * second))"

section \<open>The command line\<close>

text \<open>\<open>cli.Register\<close> keeps the commands of the process; \<open>cli.Run\<close> picks the one its arguments name.\<close>

record command =
  cm_use :: string
  cm_short :: string
  cm_default :: bool

definition web_command :: command where
  "web_command = \<lparr>cm_use = ''web'', cm_short = ''Start web server'', cm_default = True\<rparr>"

text \<open>The health command is the server library's: it asks this path of the running server.\<close>

definition health_path :: string where "health_path = ''/healthz''"

record cli_options =
  co_use :: string
  co_short :: string
  co_long :: string
  co_version :: string

definition Version :: string where "Version = ''1.0.0-dev''"

definition cli_run :: cli_options where
  "cli_run = \<lparr>co_use = ''server'', co_short = ''Portal-API'',
     co_long = ''Starts the Portal-API (BFF) web server by default.'', co_version = Version\<rparr>"

text \<open>The address to listen on has a default; one that is set, were it empty, stays.\<close>

definition with_server_urls :: "process_env \<Rightarrow> process_env" where
  "with_server_urls pe =
     (if pe ''SERVER_URLS'' = None then pe(''SERVER_URLS'' \<mapsto> ''http://0.0.0.0:8080'') else pe)"

definition runWeb :: "libraries \<Rightarrow> process_env \<Rightarrow> (gerr + container) life_act" where
  "runWeb x pe = on_ok (New x pe Version) (\<lambda>a. do { log_life LServe; State_Monad.return (Inr a) })"

text \<open>A start that names no command runs the default one.\<close>

definition main :: "libraries \<Rightarrow> process_env \<Rightarrow> (gerr + container) life_act" where
  "main x pe = runWeb x (with_server_urls pe)"

section \<open>The application of the tests\<close>

definition test_env :: "string \<Rightarrow> process_env \<Rightarrow> process_env" where
  "test_env environment pe = pe(''METRICS_ENABLED'' \<mapsto> ''false'', ''SERVICE_NAME'' \<mapsto> ''signbyte-bff'',
     ''ENVIRONMENT'' \<mapsto> environment, ''AUTH_ISSUER_URL'' \<mapsto> ''http://localhost:8080'',
     ''SERVICE_AUDIENCE'' \<mapsto> ''svc:portal-api'',
     ''AUTH_REDIRECT_URI'' \<mapsto> ''http://localhost:8080/api/portal/v1/login/callback'',
     ''POST_LOGIN_URL'' \<mapsto> ''http://localhost:8080/'')"

text \<open>The assertion that there is no error is the caller's: the error is handed on.\<close>

definition TestAppIn :: "libraries \<Rightarrow> process_env \<Rightarrow> string \<Rightarrow> (gerr + container) life_act" where
  "TestAppIn x pe environment = New x (test_env environment pe) ''0.0.0-test''"

definition TestApp :: "libraries \<Rightarrow> process_env \<Rightarrow> (gerr + container) life_act" where
  "TestApp x pe = TestAppIn x pe ''development''"

section \<open>What was set up\<close>

lemma run_set_up:
  "final (set_up e r) l = (if r = None then l @ [e] else l)"
  "answer (set_up e r) l = (case r of None \<Rightarrow> Inr () | Some x \<Rightarrow> Inl x)"
  by (auto simp: set_up_def log_life_def final_simps split: option.split)

lemma final_fine [simp]: "final fine l = l" "answer fine l = Inr ()"
  by (simp_all add: fine_def final_simps)

lemma at_step_None [simp]: "at_step what r = None \<longleftrightarrow> r = None"
  by (simp add: at_step_def)

text \<open>\<open>adds_life P m\<close>: a computation only adds events of \<open>P\<close>.\<close>

definition adds_life :: "(life \<Rightarrow> bool) \<Rightarrow> 'a life_act \<Rightarrow> bool" where
  "adds_life P m \<longleftrightarrow> (\<forall>l. \<exists>es. final m l = l @ es \<and> list_all P es)"

lemma adds_life_on_ok:
  assumes "adds_life P m" "\<And>x. adds_life P (f x)"
  shows "adds_life P (on_ok m f)"
  unfolding adds_life_def
proof
  fix l
  obtain es where es: "final m l = l @ es" "list_all P es" using assms(1) by (auto simp: adds_life_def)
  show "\<exists>es. final (on_ok m f) l = l @ es \<and> list_all P es"
  proof (cases "answer m l")
    case (Inl e)
    then show ?thesis using es by (simp add: on_ok_def final_simps)
  next
    case (Inr x)
    obtain es' where "final (f x) (l @ es) = (l @ es) @ es'" "list_all P es'"
      using assms(2) unfolding adds_life_def by blast
    then show ?thesis using es Inr by (intro exI [of _ "es @ es'"]) (simp add: on_ok_def final_simps)
  qed
qed

lemma adds_life_simps [simp]:
  "adds_life P fine" "adds_life P (State_Monad.return r)" "P e \<Longrightarrow> adds_life P (set_up e o1)"
  by (auto simp: adds_life_def final_simps run_set_up)

definition building :: "life \<Rightarrow> bool" where
  "building e \<longleftrightarrow> e \<notin> {LServe, LShutdown, LCloseRedis, LDrain} \<and> (\<forall>d. e \<noteq> LCloseGdpr d)"

lemma building_simps [simp]:
  "building (LServer n y)" "building LPlatform" "building (LRedis u)" "building (LOutbound a)"
  "building (LOutbox d)" "building (LGdpr g)" "building (LTask n)" "\<not> building LServe"
  by (simp_all add: building_def)

lemma buildGDPRAudit_builds: "adds_life building (buildGDPRAudit x c a)"
  unfolding buildGDPRAudit_def Let_def by (intro adds_life_on_ok adds_life_simps; simp)

lemma init_builds: "adds_life building (init x c a)"
proof -
  have "adds_life building (init_sessions x c b)" "adds_life building (init_outbound x c b)"
    "adds_life building (init_audit x c b)" for b
    by (simp_all add: init_sessions_def init_outbound_def init_audit_def Let_def adds_life_on_ok
        buildGDPRAudit_builds)
  then show ?thesis unfolding init_def by (intro adds_life_on_ok) simp_all
qed

end
