(* ===== verification/LifecycleTheorems.thy ===== *)
theory LifecycleTheorems
  imports Lifecycle RequestTheorems SessionTheorems
begin

text \<open>How the process comes up, and what a deployment that leaves a service out answers.\<close>

section \<open>Coming up\<close>

lemma set_up_ok:
  "answer (set_up e r) l = Inr u \<longleftrightarrow> r = None"
  "r = None \<Longrightarrow> final (set_up e r) l = l @ [e]"
  by (cases r; simp add: run_set_up)+

text \<open>What the settings ask for, in the order in which it is set up.\<close>

definition sessions_asked :: "configuration \<Rightarrow> life list" where
  "sessions_asked c = (if RedisEnabled c then [LRedis (redis_url c)] else [])"

definition outbound_asked :: "configuration \<Rightarrow> life list" where
  "outbound_asked c = (if OutboundEnabled c then [LOutbound (OutboundAuthClientConfig c)] else [])"

definition outbound_of :: "configuration \<Rightarrow> auth_config option" where
  "outbound_of c = (if OutboundEnabled c then Some (OutboundAuthClientConfig c) else None)"

definition records_through :: "libraries \<Rightarrow> configuration \<Rightarrow> gdpr_client" where
  "records_through x c = \<lparr>gc_config = GDPRConfig (lib_knobs x) c,
     gc_poster = newAccessAuditPoster (outbound_of c) (access_audit_url c) (access_audit_audience c)
       (access_audit_scope c),
     gc_outbox = (if access_audit_outbox_dir c \<noteq> [] then Some (access_audit_outbox_dir c) else None)\<rparr>"

definition audit_asked :: "libraries \<Rightarrow> configuration \<Rightarrow> life list" where
  "audit_asked x c = (if AccessAuditEnabled c \<and> OutboundEnabled c
     then (if access_audit_outbox_dir c \<noteq> [] then [LOutbox (access_audit_outbox_dir c)] else []) @
       [LGdpr (records_through x c), LTask drain_name]
     else [])"

definition asked_for :: "libraries \<Rightarrow> configuration \<Rightarrow> life list" where
  "asked_for x c = [LServer app_title Version, LPlatform] @ sessions_asked c @ outbound_asked c @ audit_asked x c"

lemmas accessors = Sessions_def Documents_def Envelope_def Signflow_def Preview_def Verify_def Audit_def
  OfferedFlows_def SignInMethods_def VerifyAudit_def AnswerCache_def

lemmas stages = fresh_app_def SetSecEvents_def with_redis_def with_memory_def with_answers_def
  with_auth_service_def with_clients_def with_recorders_def composed_def NewMemory_def NewRedis_def
  newMemoryAnswerCache_def NewOfferedFlows_def New_recorder_def NewVerifyRecorder_def

text \<open>Each stage: the container it leaves, and what it set up.\<close>

lemma init_sessions_ok:
  assumes "answer (init_sessions x c a) l = Inr b"
  shows "b = (if RedisEnabled c then with_redis c a else with_memory c a)"
    and "final (init_sessions x c a) l = l @ sessions_asked c"
  using assms unfolding init_sessions_def sessions_asked_def
  by (auto elim!: on_ok_InrE simp: set_up_ok final_simps split: if_splits)

lemma init_outbound_ok:
  assumes "answer (init_outbound x c a) l = Inr b" "ct_outbound_client a = None"
  shows "b = a\<lparr>ct_outbound_client := outbound_of c\<rparr>"
    and "final (init_outbound x c a) l = l @ outbound_asked c"
  using assms unfolding init_outbound_def outbound_asked_def outbound_of_def
  by (auto elim!: on_ok_InrE simp: set_up_ok final_simps split: if_splits)

lemma buildGDPRAudit_ok:
  assumes "answer (buildGDPRAudit x c a) l = Inr gc"
  shows "gc = gdpr_client_of x c a"
    and "final (buildGDPRAudit x c a) l = l @ (if access_audit_outbox_dir c \<noteq> []
      then [LOutbox (access_audit_outbox_dir c)] else []) @ [LGdpr (gdpr_client_of x c a), LTask drain_name]"
  using assms unfolding buildGDPRAudit_def Let_def
  by (auto elim!: on_ok_InrE simp: set_up_ok final_simps split: if_splits)

lemma init_audit_ok:
  assumes "answer (init_audit x c a) l = Inr b" "ct_outbound_client a = outbound_of c"
  shows "b = (if AccessAuditEnabled c \<and> OutboundEnabled c
      then with_recorders (Some (records_through x c))
        (NewVerifyRecorder (outbound_of c) (access_audit_url c) (access_audit_audience c)) a
      else with_recorders None (NewVerifyRecorder None [] []) a)"
    and "final (init_audit x c a) l = l @ audit_asked x c"
proof -
  have g: "gdpr_client_of x c (with_recorders r w a) = records_through x c" for r w
    by (simp add: gdpr_client_of_def records_through_def with_recorders_def assms(2))
  have o: "ct_outbound_client (with_recorders r w a) \<noteq> None \<longleftrightarrow> OutboundEnabled c" for r w
    by (simp add: with_recorders_def assms(2) outbound_of_def)
  have again: "with_recorders r w (with_recorders r' w' a) = with_recorders r w a" for r w r' w'
    by (simp add: with_recorders_def)
  have c: "ct_outbound_client (with_recorders r w a) = outbound_of c" for r w
    by (simp add: with_recorders_def assms(2))
  show "b = (if AccessAuditEnabled c \<and> OutboundEnabled c
      then with_recorders (Some (records_through x c))
        (NewVerifyRecorder (outbound_of c) (access_audit_url c) (access_audit_audience c)) a
      else with_recorders None (NewVerifyRecorder None [] []) a)"
    "final (init_audit x c a) l = l @ audit_asked x c"
    using assms(1) unfolding init_audit_def audit_asked_def Let_def o
    by (auto elim!: on_ok_InrE dest: buildGDPRAudit_ok(1) simp: final_simps buildGDPRAudit_ok(2) g again c
        split: if_splits)
qed

text \<open>\<open>init\<close> builds, stage by stage, the application \<open>build_app\<close> describes.\<close>

lemma init_asks:
  assumes "answer (init x c (fresh_app c)) l = Inr a"
  shows "app_of a = build_app c" "Config a = Inr c"
    "final (init x c (fresh_app c)) l = l @ tl (asked_for x c)"
proof -
  let ?a0 = "SetSecEvents (Some LogSink) (fresh_app c)"
  let ?l1 = "l @ [LPlatform]"
  let ?l2 = "?l1 @ sessions_asked c"
  let ?l3 = "?l2 @ outbound_asked c"
  from assms have p: "lib_platform x c = None"
    unfolding init_def by (elim on_ok_InrE) (simp add: set_up_ok)
  obtain b1 where b1: "answer (init_sessions x c ?a0) ?l1 = Inr b1"
    using assms p unfolding init_def by (elim on_ok_InrE) (simp add: set_up_ok)
  note s = init_sessions_ok [OF b1]
  let ?a1 = "with_auth_service c (with_answers c b1)"
  obtain b2 where b2: "answer (init_outbound x c ?a1) ?l2 = Inr b2"
    using assms p unfolding init_def by (elim on_ok_InrE) (simp add: set_up_ok b1 s(2))
  have n: "ct_outbound_client ?a1 = None"
    by (simp add: s(1) stages Let_def)
  note t = init_outbound_ok [OF b2 n]
  have o: "ct_outbound_client (with_clients c b2) = outbound_of c"
    by (simp add: t(1) with_clients_def)
  have b3: "answer (init_audit x c (with_clients c b2)) ?l3 = Inr a"
    and f: "final (init x c (fresh_app c)) l = final (init_audit x c (with_clients c b2)) ?l3"
    using assms b1 b2 s(2) t(2) unfolding init_def
    by (simp_all add: on_ok_def final_simps run_set_up p)
  note u = init_audit_ok [OF b3 o]
  have url: "AccessAuditEnabled c \<Longrightarrow> access_audit_url c \<noteq> []"
    by (auto simp: AccessAuditEnabled_def trim_space_def)
  show "app_of a = build_app c"
    by (simp add: u(1) t(1) s(1) app_of_def build_app_def accessors stages outbound_of_def client_def url Let_def)
  show "Config a = Inr c"
    by (simp add: u(1) t(1) s(1) Config_def stages Let_def)
  show "final (init x c (fresh_app c)) l = l @ tl (asked_for x c)"
    using f u(2) by (simp add: asked_for_def)
qed

text \<open>
  C36. The service listens only once everything its settings ask for is set up, in the order
  platform, session store, outbound client, access records and their drain; when any of it fails,
  the error is answered and nothing listens.
\<close>

theorem serves_only_when_built:
  "case answer (runWeb x pe) [] of
     Inl e \<Rightarrow> LServe \<notin> set (final (runWeb x pe) [])
   | Inr a \<Rightarrow> \<exists>c. lib_server x pe app_title Version = Inr c \<and> Config a = Inr c \<and>
       app_of a = build_app c \<and> final (runWeb x pe) [] = asked_for x c @ [LServe]"
proof (cases "lib_server x pe app_title Version")
  case (Inl e)
  then show ?thesis by (simp add: runWeb_def New_def on_ok_def final_simps)
next
  case c: (Inr c)
  let ?l = "[LServer app_title Version]"
  show ?thesis
  proof (cases "answer (init x c (fresh_app c)) ?l")
    case (Inl e)
    have "list_all building (final (init x c (fresh_app c)) ?l)"
      using init_builds [of x c "fresh_app c", unfolded adds_life_def, rule_format, of ?l] by auto
    then show ?thesis using c Inl
      by (auto simp: runWeb_def New_def log_life_def on_ok_def final_simps list_all_iff)
  next
    case (Inr a)
    then show ?thesis using c init_asks [OF Inr]
      by (simp add: runWeb_def New_def on_ok_def final_simps log_life_def asked_for_def)
  qed
qed

section \<open>A service that is left out\<close>

text \<open>
  A collaborator has the setting of its address, and the problem of the routes that need it.  Without
  the outbound machinery, which needs an issuer and credentials, every one of them is left out.
\<close>

datatype collaborator = Previews | Signings | Envelopes | Documents | Verifications

fun address :: "collaborator \<Rightarrow> configuration \<Rightarrow> string" where
  "address Previews c = preview_base_url c"
| "address Signings c = signflow_base_url c"
| "address Envelopes c = envelope_base_url c"
| "address Documents c = document_base_url c"
| "address Verifications c = signer_base_url c"

fun missing :: "collaborator \<Rightarrow> web_error" where
  "missing Previews = not_configured ''err:preview:notConfigured'' ''preview not configured''"
| "missing Signings = not_configured ''err:signing:notConfigured'' ''signing composition not configured''"
| "missing Envelopes = not_configured ''err:envelope:notConfigured'' ''envelope composition not configured''"
| "missing Documents = not_configured ''err:document:notConfigured'' ''document composition not configured''"
| "missing Verifications = verify_unavailable"

definition left_out :: "configuration \<Rightarrow> collaborator \<Rightarrow> bool" where
  "left_out c k \<longleftrightarrow> \<not> OutboundEnabled c \<or> address k c = []"

text \<open>What each route of the table needs, in the order in which it looks for it.\<close>

definition preview_paths :: "string list" where
  "preview_paths = [
    ''/documents/{id}/preview'', ''/documents/{id}/preview/pages/{n}'',
    ''/documents/{id}/preview/text'', ''/documents/{id}/data-objects/{name}/preview'',
    ''/documents/{id}/data-objects/{name}/preview/pages/{n}'',
    ''/documents/{id}/data-objects/{name}/preview/text'']"

definition signing_paths :: "string list" where
  "signing_paths = [
    ''/signings/{jobId}/status'', ''/signings/{jobId}/client-signature'',
    ''/signings/{jobId}/abandon'', ''/signatures/{sigId}/validation'', ''/chain-free'',
    ''/documents/{id}/archive-timestamp'', ''/documents/{id}/validate'']"

definition envelope_paths :: "string list" where
  "envelope_paths = [
    ''/envelopes'', ''/signing-tasks'', ''/envelopes/{id}'', ''/envelopes/{id}/documents'',
    ''/envelopes/{id}/slots'', ''/envelopes/{id}/send'', ''/envelopes/{id}/cancel'',
    ''/envelopes/{id}/reopen'', ''/envelopes/{id}/slots/{slot}/decline'']"

definition document_paths :: "string list" where
  "document_paths = [
    ''/history'', ''/history/{chainRoot}'', ''/documents'', ''/documents/{id}'',
    ''/documents/{id}/chain'', ''/documents/{id}/download'', ''/documents/bundle'',
    ''/documents/{id}/rebundle'', ''/documents/{id}/data-objects/{name}'']"

definition needed :: "string \<Rightarrow> collaborator list" where
  "needed p =
     (if p \<in> set preview_paths then [Previews]
      else if p \<in> set signing_paths then [Signings]
      else if p \<in> set envelope_paths then [Envelopes]
      else if p \<in> set document_paths then [Documents]
      else if p = ''/envelopes/{id}/slots/{slot}/sign'' then [Envelopes, Signings]
      else if p = ''/dashboard'' then [Documents, Envelopes]
      else if p = ''/verify'' then [Verifications]
      else [])"

lemma needed_paths:
  "list_all (\<lambda>p. needed p = [Previews]) preview_paths" "list_all (\<lambda>p. needed p = [Signings]) signing_paths"
  "list_all (\<lambda>p. needed p = [Envelopes]) envelope_paths" "list_all (\<lambda>p. needed p = [Documents]) document_paths"
  "needed ''/envelopes/{id}/slots/{slot}/sign'' = [Envelopes, Signings]" "needed ''/dashboard'' = [Documents, Envelopes]"
  "needed ''/verify'' = [Verifications]" "list_all (\<lambda>p. needed p = []) [''/me'', ''/session/refresh'', ''/logout'',
     ''/healthz'', ''/readyz'', ''/login/start'', ''/login/callback'', ''/sign-in-methods'']"
  by code_simp+

lemmas needed_path = needed_paths(1-4,8) [unfolded list_all_iff, rule_format]

lemma needed_groups:
  "(m, p, h) \<in> set preview_routes \<Longrightarrow> needed p = [Previews]"
  "(m, p, h) \<in> set signing_routes \<Longrightarrow> needed p = [Signings]"
  "(m, p, h) \<in> set session_routes \<Longrightarrow> needed p = []"
  "(m, p, h) \<in> set open_routes \<Longrightarrow> p = ''/verify'' \<and> needed p = [Verifications] \<or> needed p = []"
  "(m, p, h) \<in> set envelope_routes \<Longrightarrow>
     p = ''/envelopes/{id}/slots/{slot}/sign'' \<and> needed p = [Envelopes, Signings] \<or> needed p = [Envelopes]"
  "(m, p, h) \<in> set document_routes \<Longrightarrow> p \<in> {''/documents/{id}/archive-timestamp'', ''/documents/{id}/validate''} \<and>
     needed p = [Signings] \<or> p = ''/dashboard'' \<and> needed p = [Documents, Envelopes] \<or>
     p \<notin> {''/documents/{id}/archive-timestamp'', ''/documents/{id}/validate''} \<and> needed p = [Documents]"
  unfolding route_groups open_routes_def
  by (simp only: list.set insert_iff empty_iff prod.inject;
      elim disjE conjE; simp add: needed_path needed_paths(5-7) preview_paths_def signing_paths_def
      envelope_paths_def document_paths_def)+

lemma previews_closed:
  assumes "(m, p, h) \<in> set preview_routes" "ap_preview (app v) = None"
  shows "final (h v q) s = final (ctx_error v (missing Previews)) s"
  using assms
  by (auto simp: preview_routes_def ready_answers previewManifest_def previewPage_def previewText_def
      previewInnerManifest_def previewInnerPage_def previewInnerText_def)

lemma signing_closed:
  assumes "(m, p, h) \<in> set signing_routes \<or> (m, p, h) \<in> set document_routes \<and>
      p \<in> {''/documents/{id}/archive-timestamp'', ''/documents/{id}/validate''}"
    and "ap_signflow (app v) = None"
  shows "final (h v q) s = final (ctx_error v (missing Signings)) s"
  using assms
  by (auto simp: signing_routes_def document_routes_def ready_answers signingStatus_def
      clientSignature_def abandonSigning_def signatureValidation_def chainFree_def archiveTimestamp_def
      validateDocument_def)

lemma envelopes_closed:
  assumes "(m, p, h) \<in> set envelope_routes" "ap_envelope (app v) = None"
  shows "final (h v q) s = final (ctx_error v (missing Envelopes)) s"
  using assms
  by (auto simp: envelope_routes_def ready_answers createEnvelope_def listEnvelopes_def
      listSigningTasks_def getEnvelope_def attachEnvelopeDocument_def addEnvelopeSlot_def sendEnvelope_def
      cancelEnvelope_def reopenEnvelope_def declineEnvelopeSlot_def transition_handler_def signEnvelopeSlot_def)

lemma sign_closed:
  assumes "(m, ''/envelopes/{id}/slots/{slot}/sign'', h) \<in> set envelope_routes"
    and "ap_envelope (app v) \<noteq> None" "ap_signflow (app v) = None"
  shows "final (h v q) s = final (ctx_error v (missing Signings)) s"
  using assms
  by (auto simp: envelope_routes_def ready_answers signEnvelopeSlot_def)

lemma documents_closed:
  assumes "(m, p, h) \<in> set document_routes" "ap_documents (app v) = None"
    and "p \<notin> {''/documents/{id}/archive-timestamp'', ''/documents/{id}/validate''}"
  shows "final (h v q) s = final (ctx_error v (missing Documents)) s"
  using assms(1,3) unfolding document_routes_def
  by (simp only: list.set insert_iff empty_iff prod.inject;
      elim disjE conjE; simp add: assms(2) ready_answers dashboard_def listHistory_def
      deleteHistory_def uploadDocument_def listDocuments_def getDocument_def getDocumentChain_def
      downloadDocument_def deleteDocument_def bundleDocuments_def rebundleDocument_def extractDataObject_def)

lemma dashboard_closed:
  assumes "(m, ''/dashboard'', h) \<in> set document_routes"
    and "ap_documents (app v) \<noteq> None" "ap_envelope (app v) = None"
  shows "final (h v q) s = final (ctx_error v (missing Envelopes)) s"
  using assms by (auto simp: document_routes_def ready_answers dashboard_def)

lemma verify_closed:
  assumes "(m, ''/verify'', h) \<in> set open_routes" "ap_verify (app v) = None"
    and "\<not> rate_limited v (trace s) (limiter_key q)"
  shows "final (h v q) s = final (ctx_error v (missing Verifications)) s"
  using assms
  by (auto simp: open_routes_def verify_route_def edgeBlockEvents_def limited_verify_def
      verifyDocument_def world_final verify_unavailable_def problem_def error_status_def)

text \<open>
  C35. A composition that is left out fails closed.  In an application that came up with a
  collaborator's address unset, or with no outbound machinery, each of the routes that ask for that
  collaborator before they start answers 503 with its problem, and does nothing else: all of the
  document, preview, signing, envelope and verification routes, those that validate or archive a
  document over the signing service, the dashboard and the start of a signing, which need two, and
  the public verification, once its limiter has passed the request.  What a route looks for only
  under way is not claimed: the composed view leaves out what it cannot ask, and creating an
  envelope over several documents uses the document service without looking
  (\<open>create_needs_the_document_service\<close>).
\<close>

theorem unconfigured_composition_fails_closed:
  assumes "answer (runWeb x pe) [] = Inr a" "lib_server x pe app_title Version = Inr c" "app v = app_of a"
    and "(m, p, h) \<in> set (open_routes @ authed_routes)" "find (left_out c) (needed p) = Some k"
    and "p = ''/verify'' \<longrightarrow> \<not> rate_limited v (trace s) (limiter_key q)"
  shows "final (h v q) s = s\<lparr>rsp := (rsp s)\<lparr>rsp_status := 503, rsp_body := BError (missing k)\<rparr>\<rparr>"
proof -
  have "answer (init x c (fresh_app c)) [LServer app_title Version] = Inr a"
    using assms(1,2) by (auto simp: runWeb_def New_def log_life_def on_ok_def final_simps split: sum.splits)
  then have a: "app v = build_app c" using init_asks(1) assms(3) by simp
  have n: "left_out c Previews \<Longrightarrow> ap_preview (app v) = None"
    "left_out c Signings \<longleftrightarrow> ap_signflow (app v) = None"
    "left_out c Envelopes \<longleftrightarrow> ap_envelope (app v) = None"
    "left_out c Documents \<longleftrightarrow> ap_documents (app v) = None"
    "left_out c Verifications \<Longrightarrow> ap_verify (app v) = None"
    by (auto simp: a build_app_def Let_def client_def left_out_def)
  have st: "final (ctx_error v (missing k)) s = s\<lparr>rsp := (rsp s)\<lparr>rsp_status := 503, rsp_body := BError (missing k)\<rparr>\<rparr>"
    by (cases k) (simp_all add: final_ctx_error not_configured_def problem_def error_status_def verify_unavailable_def)
  note closed = previews_closed signing_closed envelopes_closed sign_closed documents_closed dashboard_closed
    verify_closed
  consider "(m, p, h) \<in> set open_routes" | "(m, p, h) \<in> set session_routes" | "(m, p, h) \<in> set document_routes"
    | "(m, p, h) \<in> set preview_routes" | "(m, p, h) \<in> set signing_routes" | "(m, p, h) \<in> set envelope_routes"
    using assms(4) by (auto simp: authed_routes_def)
  then have "final (h v q) s = final (ctx_error v (missing k)) s"
  proof cases
    case 1
    then show ?thesis using assms(5) assms(6) n closed(7) needed_groups(4) [OF 1] by (auto split: if_splits)
  next
    case 2
    then show ?thesis using assms(5) needed_groups(3) [OF 2] by simp
  next
    case 3
    then show ?thesis using assms(5) n closed(2) [of m p h v q s] closed(5,6) needed_groups(6) [OF 3]
      by (auto split: if_splits)
  next
    case 4
    then show ?thesis using assms(5) n closed(1) needed_groups(1) [OF 4] by (auto split: if_splits)
  next
    case 5
    then show ?thesis using assms(5) n closed(2) [of m p h v q s] needed_groups(2) [OF 5] by (auto split: if_splits)
  next
    case 6
    then show ?thesis using assms(5) n closed(3,4) needed_groups(5) [OF 6] by (auto split: if_splits)
  qed
  then show ?thesis by (simp add: st)
qed

text \<open>The sample deployment runs without the preview service.\<close>

definition demo_libraries :: libraries where
  "demo_libraries = \<lparr>lib_server = (\<lambda>pe n ver. Inr demo_cfg), lib_platform = (\<lambda>c. None), lib_redis = (\<lambda>u. None),
     lib_outbound = (\<lambda>c. None), lib_outbox = (\<lambda>d n. None), lib_gdpr = (\<lambda>g p b. None),
     lib_task = (\<lambda>n. None), lib_knobs = \<lparr>gk_timeout = 5 * second, gk_outbox_capacity = 1000,
       gk_max_retries = 3, gk_retry_backoff = second, gk_breaker_threshold = 5,
       gk_breaker_cooldown = minute\<rparr>\<rparr>"

text \<open>Libraries that refuse nothing let the application come up.\<close>

definition nothing_refused :: "libraries \<Rightarrow> bool" where
  "nothing_refused x \<longleftrightarrow> lib_platform x = (\<lambda>c. None) \<and> lib_redis x = (\<lambda>u. None) \<and>
     lib_outbound x = (\<lambda>c. None) \<and> lib_outbox x = (\<lambda>d n. None) \<and> lib_gdpr x = (\<lambda>g p b. None) \<and>
     lib_task x = (\<lambda>n. None)"

lemma stages_succeed:
  assumes "nothing_refused x"
  shows "\<exists>b. answer (init_sessions x c a) l = Inr b" "\<exists>b. answer (init_outbound x c a) l = Inr b"
    "\<exists>b. answer (init_audit x c a) l = Inr b"
  using assms
  by (simp_all add: nothing_refused_def init_sessions_def init_outbound_def init_audit_def
      buildGDPRAudit_def Let_def on_ok_def final_simps run_set_up at_step_def)

lemma init_succeeds:
  assumes "nothing_refused x"
  shows "\<exists>b. answer (init x c a) l = Inr b"
proof -
  have p: "lib_platform x c = None" using assms by (simp add: nothing_refused_def)
  obtain b1 where b1: "answer (init_sessions x c (SetSecEvents (Some LogSink) a)) (l @ [LPlatform]) = Inr b1"
    using stages_succeed(1) [OF assms] by blast
  let ?l = "final (init_sessions x c (SetSecEvents (Some LogSink) a)) (l @ [LPlatform])"
  obtain b2 where b2: "answer (init_outbound x c (with_auth_service c (with_answers c b1))) ?l = Inr b2"
    using stages_succeed(2) [OF assms] by blast
  show ?thesis
    using stages_succeed(3) [OF assms] by (simp add: init_def on_ok_def final_simps run_set_up p b1 b2)
qed

lemma demo_refuses_nothing: "nothing_refused demo_libraries"
  by (simp add: nothing_refused_def demo_libraries_def)

lemma demo_comes_up: "\<exists>a. answer (runWeb demo_libraries pe) [] = Inr a \<and> app_of a = build_app demo_cfg"
proof -
  obtain a where a: "answer (init demo_libraries demo_cfg (fresh_app demo_cfg)) [LServer app_title Version] = Inr a"
    using init_succeeds by (metis demo_refuses_nothing)
  have "lib_server demo_libraries pe app_title Version = Inr demo_cfg" by (simp add: demo_libraries_def)
  then show ?thesis using a init_asks(1) [OF a]
    by (simp add: runWeb_def New_def log_life_def on_ok_def final_simps)
qed

theorem unconfigured_composition_fails_closed_witness:
  "final (previewManifest (demo\<lparr>app := build_app demo_cfg\<rparr>) get_request) boot =
     boot\<lparr>rsp := (rsp boot)\<lparr>rsp_status := 503,
       rsp_body := BError (not_configured ''err:preview:notConfigured'' ''preview not configured'')\<rparr>\<rparr>"
proof -
  obtain a where a: "answer (runWeb demo_libraries Map.empty) [] = Inr a" "app_of a = build_app demo_cfg"
    using demo_comes_up by blast
  show ?thesis
  proof (rule unconfigured_composition_fails_closed [OF a(1), where k = Previews, unfolded missing.simps])
    show "lib_server demo_libraries Map.empty app_title Version = Inr demo_cfg"
      by (simp add: demo_libraries_def)
    show "app (demo\<lparr>app := build_app demo_cfg\<rparr>) = app_of a" by (simp add: a)
    show "(''GET'', ''/documents/{id}/preview'', previewManifest) \<in> set (open_routes @ authed_routes)"
      by (simp add: authed_routes_def preview_routes_def)
    have "needed ''/documents/{id}/preview'' = [Previews]" "preview_base_url demo_cfg = []" by code_simp+
    then show "find (left_out demo_cfg) (needed ''/documents/{id}/preview'') = Some Previews"
      by (simp add: left_out_def)
  qed simp_all
qed

section \<open>The application of the tests\<close>

text \<open>
  The variables the test application sets are among those it finds; the rest of its environment
  stays, so an inherited address of Redis or of a collaborator wires it.  \<open>binds\<close> is what the
  server library documents: the settings are bound from the variables of the process.
\<close>

definition binds :: "libraries \<Rightarrow> bool" where
  "binds x \<longleftrightarrow> (\<forall>pe n ver c. lib_server x pe n ver = Inr c \<longrightarrow>
     (\<exists>src iss. src_env src = (\<lambda>n. opt_text (pe n)) \<and> Bind src iss = Some c))"

lemma Bind_keeps:
  assumes "Bind src iss = Some c"
  shows "redis_url c = env_or src ''REDIS_URL'' []" "post_login_url c = env_or src ''POST_LOGIN_URL'' []"
    "document_base_url c = env_or src ''DOCUMENT_BASE_URL'' []"
  using assms by (auto simp: Bind_def Bind_texts_def Let_def split: option.splits)

lemma env_or_empty: "env_or src n [] = src_env src n"
  by (simp add: env_or_def)

lemma test_application_inherits:
  assumes "binds x" "answer (TestAppIn x pe environment) [] = Inr a"
  shows "\<exists>c. Config a = Inr c \<and> post_login_url c = ''http://localhost:8080/'' \<and>
    (ap_redis (app_of a) \<longleftrightarrow> trim_space (opt_text (pe ''REDIS_URL'')) \<noteq> []) \<and>
    (ap_documents (app_of a) = None \<longleftrightarrow> opt_text (pe ''DOCUMENT_BASE_URL'') = [] \<or> \<not> OutboundEnabled c)"
proof -
  obtain c where c: "lib_server x (test_env environment pe) app_title ''0.0.0-test'' = Inr c"
    and i: "answer (init x c (fresh_app c)) [LServer app_title ''0.0.0-test''] = Inr a"
    using assms(2) by (auto simp: TestAppIn_def New_def log_life_def final_simps split: sum.splits)
  obtain src iss where src: "src_env src = (\<lambda>n. opt_text (test_env environment pe n))" "Bind src iss = Some c"
    using assms(1) c unfolding binds_def by blast
  note b = Bind_keeps [OF src(2), unfolded env_or_empty src(1)]
  show ?thesis
    using init_asks(1,2) [OF i] b
    by (auto simp: build_app_def client_def RedisEnabled_def test_env_def opt_text_def Let_def)
qed

end
