(* ===== verification/TokenTheorems.thy ===== *)
theory TokenTheorems
  imports SignInTheorems StoreViews
begin

text \<open>
  What holds of a session's tokens and of what is stored and remembered: the lifetime of a
  stored session, the reuse and rotation of tokens, the answer a failed refresh gets, the
  offered flows, the identity answer and sign-out.
\<close>

section \<open>The lifetime of a stored session\<close>

text \<open>
  What is stored last under a session id is what is read back, until exactly the session
  lifetime has passed since it was stored, whatever is stored under other ids before or after;
  after that moment nothing is read.
\<close>

lemma session_lifetime:
  assumes "\<forall>p \<in> set later. fst (snd p) \<noteq> sid \<and> fst p \<le> t'"
  shows "get_entry t' sid (session_map.replay ttl (earlier @ (t, sid, b) # later) m)
    = (if t' \<le> t + ttl then Some b else None)"
  by (rule session_map.get_replay [OF assms])

lemma session_lifetime_witness:
  "get_entry 8 ''s1'' (session_map.replay 5 ([(1, ''s1'', Bytes ''a'')] @ (3, ''s1'', Bytes ''b'')
      # [(4, ''s2'', Bytes ''c'')]) Map.empty) = (if (8 :: int) \<le> 3 + 5 then Some (Bytes ''b'') else None)"
  by (rule session_lifetime) simp

section \<open>Using and renewing the access token\<close>

text \<open>
  An access token that does not expire within the next thirty seconds is used as it is:
  nothing is asked of the Auth Service and the session is not written.
\<close>

lemma fresh_token_is_reused:
  assumes "ses_access_token (cur_ses s) \<noteq> []"
    and "Unix (clock v (EClock # trace s) + 30 * second) < ses_access_expiry (cur_ses s)"
  shows "run_state (freshToken v) s = (Inr (ses_access_token (cur_ses s)), s\<lparr>trace := EClock # trace s\<rparr>)"
proof -
  have "wp (freshToken v) (\<lambda>a t. a = Inr (ses_access_token (cur_ses s)) \<and> t = s\<lparr>trace := EClock # trace s\<rparr>) s"
    using assms by (simp add: freshToken_def now_def wp_simps near_expiry_def refreshLeeway_def)
  then show ?thesis by (simp add: wp_def split: prod.splits)
qed

lemma fresh_token_is_reused_witness:
  "run_state (freshToken demo) (boot\<lparr>cur_ses := demo_session\<rparr>) =
     (Inr ''at1'', (boot\<lparr>cur_ses := demo_session\<rparr>)\<lparr>trace := EClock # trace (boot\<lparr>cur_ses := demo_session\<rparr>)\<rparr>)"
  using fresh_token_is_reused [of "boot\<lparr>cur_ses := demo_session\<rparr>" demo]
  by (simp add: demo_session_def boot_def Unix_def second_def)

text \<open>A session whose token has to be renewed at the state \<open>s\<close>.\<close>

definition must_renew :: "env \<Rightarrow> bff \<Rightarrow> bool" where
  "must_renew v s \<longleftrightarrow> ses_access_token (cur_ses s) = [] \<or>
     near_expiry (clock v (EClock # trace s)) (cur_ses s)"

definition asked_at :: "bff \<Rightarrow> event list" where
  "asked_at s = (if ses_access_token (cur_ses s) = [] then trace s else EClock # trace s)"

lemma freshToken_renews:
  assumes "must_renew v s" "parse_key v (cur_ses s) = Inr key"
  shows "wp (freshToken v) Q s = (case refresh_reply v (ERefresh key (ses_refresh_token (cur_ses s)) # asked_at s) of
      Inl e \<Rightarrow> Q (Inl e) (s\<lparr>trace := ERefresh key (ses_refresh_token (cur_ses s)) # asked_at s\<rparr>)
    | Inr tk \<Rightarrow> wp (renew v tk) Q (s\<lparr>trace := ERefresh key (ses_refresh_token (cur_ses s)) # asked_at s\<rparr>))"
  using assms
  by (simp add: freshToken_def must_renew_def asked_at_def now_def Refresh_def wp_simps
      cong: sum.case_cong split: sum.split) auto

lemma renew_run:
  assumes "reliable v rt" "y = applyTokens (clock v (EClock # trace s)) tk (cur_ses s)"
    and "u = s\<lparr>trace := EClock # trace s, cur_ses := y\<rparr>"
  shows "wp (renew v tk) Q s = Q (Inr (ses_access_token y)) (final (PutSession v (cur_sid s) y) u)"
proof -
  have "wp (PutSession v (cur_sid s) y) P u = P (Inr ()) (final (PutSession v (cur_sid s) y) u)" for P
    using PutSession_out(1) [OF assms(1), of "cur_sid s" y u] by (simp add: wp_run)
  then show ?thesis using assms(2,3) by (simp add: renew_def now_def wp_simps)
qed

text \<open>
  C19. Renewing: when the Auth Service answers tokens, the caller gets the new access token and
  the store, in either backend, holds the session with it, its new expiry and the rotated refresh
  token (the old one when none was returned) for a new lifetime, and is otherwise as it was; the
  key, subject, anti-forgery token and captured signing capabilities are the ones the session
  had; and until it expires that session is what the gate of a later request finds.
\<close>

theorem renewal_stores_the_rotated_session:
  assumes "must_renew v s" "parse_key v (cur_ses s) = Inr key"
    and "ap_redis (app v) \<longrightarrow> redis_reply v = redis_server rt"
    and "asked = ERefresh key (ses_refresh_token (cur_ses s)) # asked_at s"
    and "refresh_reply v asked = Inr tk" "t = final (freshToken v) s"
  shows "\<exists>y expires. answer (freshToken v) s = Inr (tk_access tk) \<and>
    sessions_in v rt t = (sessions_in v rt s)(cur_sid s \<mapsto> (Doc (enc_session y), expires)) \<and>
    flows_in v rt t = flows_in v rt s \<and>
    expires = store_time v rt (OpPutSession (cur_sid s) y) (s\<lparr>trace := EClock # asked\<rparr>) + session_ttl (cfg v) \<and>
    ses_access_token y = tk_access tk \<and>
    ses_access_expiry y = Unix (clock v (EClock # asked) + wrap64 (tk_expires_in tk * second)) \<and>
    ses_refresh_token y = (if tk_refresh tk \<noteq> [] then tk_refresh tk else ses_refresh_token (cur_ses s)) \<and>
    same_but_tokens (cur_ses s) y \<and>
    (\<forall>u. valid_session y \<longrightarrow> sessions_in v rt u (cur_sid s) = Some (Doc (enc_session y), expires) \<longrightarrow>
       store_time v rt (OpGetSession (cur_sid s)) u \<le> expires \<longrightarrow> answer (GetSession v (cur_sid s)) u = Inr y)"
proof -
  have rel: "reliable v rt" using assms(3) by (simp add: reliable_def)
  let ?y = "applyTokens (clock v (EClock # asked)) tk (cur_ses s)"
  let ?w = "s\<lparr>trace := EClock # asked, cur_ses := ?y\<rparr>"
  let ?e = "store_time v rt (OpPutSession (cur_sid s) ?y) ?w + session_ttl (cfg v)"
  have "wp (freshToken v) (\<lambda>a u. a = Inr (ses_access_token ?y) \<and> u = final (PutSession v (cur_sid s) ?y) ?w) s"
    using assms(5) unfolding freshToken_renews [OF assms(1,2)]
    by (simp add: assms(4) [symmetric] renew_run [OF rel refl refl])
  then have run: "answer (freshToken v) s = Inr (ses_access_token ?y)" "t = final (PutSession v (cur_sid s) ?y) ?w"
    by (simp_all add: wp_run assms(6))
  have quiet: "list_all (\<lambda>e. \<not> is_write e) (EClock # ERefresh key (ses_refresh_token (cur_ses s)) #
      (if ses_access_token (cur_ses s) = [] then [] else [EClock]))" by simp
  have same: "sessions_in v rt ?w = sessions_in v rt s" "flows_in v rt ?w = flows_in v rt s"
    using views_events [OF quiet, of v rt s] by (simp_all add: assms(4) asked_at_def split: if_splits)
  have stored: "sessions_in v rt t = (sessions_in v rt s)(cur_sid s \<mapsto> (Doc (enc_session ?y), ?e))"
    and kept: "flows_in v rt t = flows_in v rt s"
  proof -
    obtain m where m: "sessions_in v rt t = put_entry (session_ttl (cfg v)) m (cur_sid s) (Doc (enc_session ?y)) (sessions_in v rt s)"
      "flows_in v rt t = flows_in v rt s"
      unfolding run(2) same [symmetric]
      by (rule PutSession_views [of v rt "cur_sid s" ?y ?w]) (use rel in blast)
    moreover have "sessions_in v rt t (cur_sid s) = Some (Doc (enc_session ?y), ?e)"
      unfolding run(2) sessions_in_def by (rule PutSession_out(2) [OF rel])
    ultimately show "sessions_in v rt t = (sessions_in v rt s)(cur_sid s \<mapsto> (Doc (enc_session ?y), ?e))"
      "flows_in v rt t = flows_in v rt s" by (simp_all add: put_entry_def)
  qed
  have time: "?e = store_time v rt (OpPutSession (cur_sid s) ?y) (s\<lparr>trace := EClock # asked\<rparr>) + session_ttl (cfg v)"
    by (simp add: store_time_def redis_time_def memory_time_def)
  have found: "answer (GetSession v (cur_sid s)) u = Inr ?y"
    if "valid_session ?y" "sessions_in v rt u (cur_sid s) = Some (Doc (enc_session ?y), ?e)"
      "store_time v rt (OpGetSession (cur_sid s)) u \<le> ?e" for u
    using that by (simp add: GetSession_spec [OF rel] read_entry_def get_entry_def live_def flip: sessions_in_def)
  show ?thesis
    by (rule exI [of _ ?y], rule exI [of _ ?e], intro conjI allI impI)
       (use run(1) stored kept time found in \<open>simp_all add: applyTokens_def same_but_tokens_def\<close>)
qed

definition stale_session :: session where
  "stale_session = demo_session\<lparr>ses_access_token := []\<rparr>"

definition stale_state :: bff where
  "stale_state = boot\<lparr>cur_sid := ''sid1'', cur_ses := stale_session\<rparr>"

lemma stale_parses: "parse_key demo (cur_ses stale_state) = Inr ''key''"
  by code_simp

theorem renewal_stores_the_rotated_session_witness:
  "\<exists>y expires. answer (freshToken demo) stale_state = Inr ''at2'' \<and>
    sessions_in demo (clock demo) (final (freshToken demo) stale_state) ''sid1'' = Some (Doc (enc_session y), expires) \<and>
    ses_access_token y = ''at2'' \<and> ses_refresh_token y = ''rt2'' \<and> same_but_tokens stale_session y"
proof -
  have "must_renew demo stale_state" by (simp add: must_renew_def stale_state_def stale_session_def)
  moreover have "refresh_reply demo tr = Inr demo_tokens" for tr by (simp add: demo_def)
  ultimately obtain y e where y: "answer (freshToken demo) stale_state = Inr (tk_access demo_tokens)"
    "sessions_in demo (clock demo) (final (freshToken demo) stale_state) =
      (sessions_in demo (clock demo) stale_state)(cur_sid stale_state \<mapsto> (Doc (enc_session y), e))"
    "ses_access_token y = tk_access demo_tokens"
    "ses_refresh_token y = (if tk_refresh demo_tokens \<noteq> [] then tk_refresh demo_tokens else ses_refresh_token (cur_ses stale_state))"
    "same_but_tokens (cur_ses stale_state) y"
    using renewal_stores_the_rotated_session [OF _ stale_parses _ refl _ refl, of "clock demo" demo_tokens]
    by (simp only: demo_fields simp_thms) blast
  then show ?thesis by (intro exI [of _ y] exI [of _ e]) (simp add: stale_state_def demo_tokens_def)
qed

text \<open>
  A session whose token cannot be renewed reaches no service: the composed handler, whatever
  it does, is answered 'session could not be refreshed', issues no call, and writes no session.
\<close>

theorem failed_renewal_reaches_no_service:
  assumes "must_renew v s" "parse_key v (cur_ses s) = Inr key"
    and "asked = ERefresh key (ses_refresh_token (cur_ses s)) # asked_at s"
    and "refresh_reply v asked = Inl e"
  shows "final (with_delegation v h) s = s\<lparr>trace := asked,
    rsp := (rsp s)\<lparr>rsp_status := error_status v refresh_failed, rsp_body := BError refresh_failed\<rparr>\<rparr>"
proof -
  have "wp (freshToken v) (\<lambda>a t. a = Inl e \<and> t = s\<lparr>trace := asked\<rparr>) s"
    using assms(4) unfolding freshToken_renews [OF assms(1,2)] by (simp add: assms(3) [symmetric])
  then have "answer (freshToken v) s = Inl e" "final (freshToken v) s = s\<lparr>trace := asked\<rparr>"
    by (simp_all add: wp_run)
  then show ?thesis by (simp add: with_delegation_def onBehalf_def world_final)
qed

definition refusing :: env where
  "refusing = demo\<lparr>refresh_reply := (\<lambda>tr. Inl (Text ''invalid_grant''))\<rparr>"

theorem failed_renewal_reaches_no_service_witness:
  "\<exists>asked. final (with_delegation refusing (\<lambda>obo. ctx_json ok_json)) stale_state = stale_state\<lparr>trace := asked,
    rsp := (rsp stale_state)\<lparr>rsp_status := error_status refusing refresh_failed,
      rsp_body := BError refresh_failed\<rparr>\<rparr>"
proof -
  have "parse_key refusing (cur_ses stale_state) = Inr ''key''"
    using stale_parses by (simp add: refusing_def parse_key_def)
  from failed_renewal_reaches_no_service [OF _ this refl, of "Text ''invalid_grant''" "\<lambda>obo. ctx_json ok_json"]
  show ?thesis
    by (intro exI) (simp add: must_renew_def stale_state_def stale_session_def refusing_def)
qed

section \<open>Offered flows\<close>

lemma asked_once:
  assumes "final (OfferedFlows_Get v sel upd ttl src) s = t"
    and "\<And>g x. sel (upd g x) = g (sel x)"
    and "\<And>x e. sel (x\<lparr>trace := e\<rparr>) = sel x" "\<And>x. sel (final src x) = sel x"
    and "clock v (EClock # trace t) - of_at (sel t) < ttl"
  shows "run_state (OfferedFlows_Get v sel upd ttl src) t =
    (answer (OfferedFlows_Get v sel upd ttl src) s, t\<lparr>trace := EClock # trace t\<rparr>)"
proof -
  let ?r = "answer (OfferedFlows_Get v sel upd ttl src) s"
  have "wp (OfferedFlows_Get v sel upd ttl src)
      (\<lambda>a u. a = (of_flows (sel u), of_err (sel u)) \<and> of_asked (sel u)) s"
    unfolding OfferedFlows_Get_def
    by (simp add: wp_run world_final now_def assms(2-4) refreshed_def split: sum.split)
  then have "?r = (of_flows (sel t), of_err (sel t)) \<and> of_asked (sel t)"
    using assms(1) by (simp add: wp_run)
  then have "wp (OfferedFlows_Get v sel upd ttl src) (\<lambda>a u. a = ?r \<and> u = t\<lparr>trace := EClock # trace t\<rparr>) t"
    using offered_fresh [of sel t v ttl upd src] assms(5) by simp
  then show ?thesis by (simp add: wp_def split: prod.splits)
qed

text \<open>
  What the signing service offers is asked once per remembered time at most: asked again
  sooner, nothing leaves the process and the answer is the one given before, be it a success, a
  failure, or a last answer marked stale.
\<close>

lemma offered_flows_asked_once:
  assumes "final (offered_flows v c) s = t"
    and "clock v (EClock # trace t) - of_at (offered t) < signer_flows_ttl (cfg v)"
  shows "run_state (offered_flows v c) t = (answer (offered_flows v c) s, t\<lparr>trace := EClock # trace t\<rparr>)"
  using assms unfolding offered_flows_def
  by (intro asked_once) (simp_all add: Offer_Flows_def svc_request_def world_final)

definition demo_offer :: service where
  "demo_offer = \<lparr>sv_base = ''http://signer'', sv_audience = ''svc''\<rparr>"

lemma first_ask:
  assumes "\<not> of_asked (offered s)"
  shows "of_at (offered (final (offered_flows v c) s)) = clock v (trace (final (offered_flows v c) s)) \<and>
    length (trace (final (offered_flows v c) s)) = length (trace s) + 2"
  using assms
  by (simp add: offered_flows_def OfferedFlows_Get_def Offer_Flows_def svc_request_def world_final
      now_def refreshed_def split: sum.split)

lemma demo_flows_ttl: "signer_flows_ttl (cfg demo) > second"
  by (simp add: demo_cfg_def Bind_texts_def demo_sources_def second_def minute_def hour_def)

lemma demo_asked:
  "clock demo (EClock # trace (final (offered_flows demo demo_offer) boot))
     - of_at (offered (final (offered_flows demo demo_offer) boot)) < signer_flows_ttl (cfg demo)"
proof -
  have "\<not> of_asked (offered boot)" by (simp add: boot_def never_asked_def)
  from first_ask [OF this, of demo demo_offer]
  have "of_at (offered (final (offered_flows demo demo_offer) boot)) =
      clock demo (trace (final (offered_flows demo demo_offer) boot))" by blast
  moreover have "clock demo (EClock # tr) - clock demo tr = second" for tr
    by (simp add: algebra_simps)
  ultimately show ?thesis using demo_flows_ttl by (simp only:)
qed

lemma offered_flows_asked_once_witness:
  "run_state (offered_flows demo demo_offer) (final (offered_flows demo demo_offer) boot) =
    (answer (offered_flows demo demo_offer) boot, (final (offered_flows demo demo_offer) boot)
       \<lparr>trace := EClock # trace (final (offered_flows demo demo_offer) boot)\<rparr>)"
  by (rule offered_flows_asked_once [OF refl demo_asked])

section \<open>The identity answer\<close>

text \<open>
  What of the captured capabilities the identity answer may show: whether the seals were read, and
  their ids and labels.  The certificates and the signing identity are struck out.
\<close>

definition without_certificates :: "capabilities \<Rightarrow> capabilities" where
  "without_certificates c = \<lparr>cap_sign_identity = [], cap_signing_cert = [], cap_auth_cert = [],
     cap_seals = map (\<lambda>x. x\<lparr>seal_certificate := []\<rparr>) (cap_seals c), cap_seals_known = cap_seals_known c\<rparr>"

lemma enc_me_without_certificates:
  "enc_me i permitted (map_option without_certificates cs) = enc_me i permitted cs"
  by (cases cs) (simp_all add: enc_me_def seal_members_def without_certificates_def enc_me_seal_def comp_def)

text \<open>The session with other capabilities, and what serving it leaves in the store.\<close>

definition with_capabilities :: "capabilities option \<Rightarrow> (string \<rightharpoonup> entry) \<Rightarrow> bff \<Rightarrow> bff" where
  "with_capabilities c m s = s\<lparr>cur_ses := (cur_ses s)\<lparr>ses_capabilities := c\<rparr>, sessions := m\<rparr>"

lemma with_capabilities_simps [simp]:
  "trace (with_capabilities c m s) = trace s" "offered (with_capabilities c m s) = offered s"
  "rsp (with_capabilities c m s) = rsp s" "cur_sid (with_capabilities c m s) = cur_sid s"
  "cur_ses (with_capabilities c m s) = (cur_ses s)\<lparr>ses_capabilities := c\<rparr>"
  "sessions (with_capabilities c m s) = m"
  "(with_capabilities c m s)\<lparr>trace := tr\<rparr> = with_capabilities c m (s\<lparr>trace := tr\<rparr>)"
  "(with_capabilities c m s)\<lparr>rsp := r\<rparr> = with_capabilities c m (s\<lparr>rsp := r\<rparr>)"
  "offered_update g (with_capabilities c m s) = with_capabilities c m (offered_update g s)"
  by (simp_all add: with_capabilities_def)

lemma offered_flows_other_session:
  "answer (offered_flows v c) (with_capabilities d m u) = answer (offered_flows v c) u"
  "final (offered_flows v c) (with_capabilities d m u) = with_capabilities d m (final (offered_flows v c) u)"
  by (simp_all add: offered_flows_def OfferedFlows_Get_def Offer_Flows_def svc_request_def
      now_def world_final split: sum.split)

lemma offeredOnly_other_session:
  "answer (offeredOnly v p) (with_capabilities d m u) = answer (offeredOnly v p) u"
  "final (offeredOnly v p) (with_capabilities d m u) = with_capabilities d m (final (offeredOnly v p) u)"
  "cur_ses (final (offeredOnly v p) u) = cur_ses u"
proof -
  show "answer (offeredOnly v p) (with_capabilities d m u) = answer (offeredOnly v p) u"
    and f: "final (offeredOnly v p) (with_capabilities d m u) = with_capabilities d m (final (offeredOnly v p) u)"
    for d m by (simp_all add: offeredOnly_def offered_flows_other_session case_prod_beta world_final
        split: option.split)
  show "cur_ses (final (offeredOnly v p) u) = cur_ses u"
    by (simp add: offeredOnly_def offered_flows_def OfferedFlows_Get_def Offer_Flows_def svc_request_def
        now_def case_prod_beta world_final split: sum.split option.split)
qed

lemma freshToken_other_session:
  assumes "ap_redis (app v) \<longrightarrow> \<not> must_renew v s"
  shows "answer (freshToken v) (with_capabilities d m s) = answer (freshToken v) s \<and>
    final (freshToken v) (with_capabilities d m s) =
      with_capabilities d (sessions (final (freshToken v) (with_capabilities d m s))) (final (freshToken v) s)"
proof (cases "must_renew v s")
  case False
  then show ?thesis
    by (auto simp: freshToken_def must_renew_def near_expiry_def now_def world_final)
next
  case True
  then have mem: "\<not> ap_redis (app v)" using assms by blast
  have run: "final (freshToken v) w = (case parse_key v (cur_ses w) of
      Inl e \<Rightarrow> w\<lparr>trace := asked_at w\<rparr>
    | Inr key \<Rightarrow> let tr = ERefresh key (ses_refresh_token (cur_ses w)) # asked_at w in
        (case refresh_reply v tr of Inl e \<Rightarrow> w\<lparr>trace := tr\<rparr>
         | Inr tk \<Rightarrow> let y = applyTokens (clock v (EClock # tr)) tk (cur_ses w) in
             w\<lparr>trace := EClock # EClock # tr, cur_ses := y, sessions := put_entry (session_ttl (cfg v))
               (clock v (EClock # EClock # tr)) (cur_sid w) (Doc (enc_session y)) (sessions w)\<rparr>))"
    "answer (freshToken v) w = (case parse_key v (cur_ses w) of Inl e \<Rightarrow> Inl e
    | Inr key \<Rightarrow> (case refresh_reply v (ERefresh key (ses_refresh_token (cur_ses w)) # asked_at w) of
         Inl e \<Rightarrow> Inl e | Inr tk \<Rightarrow> Inr (tk_access tk)))" if "must_renew v w" for w
    using that mem
    by (auto simp: freshToken_def must_renew_def asked_at_def near_expiry_def now_def Refresh_def renew_def
        PutSession_def mem_PutSession_def on_ok_def world_final applyTokens_def Let_def split: sum.split)
  let ?w = "with_capabilities d m s"
  have must: "must_renew v ?w" using True by (simp add: must_renew_def near_expiry_def)
  have same: "parse_key v (cur_ses ?w) = parse_key v (cur_ses s)" "asked_at ?w = asked_at s"
    "ses_refresh_token (cur_ses ?w) = ses_refresh_token (cur_ses s)"
    by (simp_all add: parse_key_def asked_at_def)
  have rotated: "applyTokens t tk (cur_ses ?w) = (applyTokens t tk (cur_ses s))\<lparr>ses_capabilities := d\<rparr>" for t tk
    by (cases "cur_ses s") (simp add: applyTokens_def)
  show ?thesis
    unfolding run [OF must] run [OF True] same rotated
    by (simp add: Let_def with_capabilities_def split: sum.split)
qed

text \<open>A renewal leaves the capabilities and the key.\<close>

definition own_caps :: "capabilities option \<Rightarrow> string \<Rightarrow> string \<Rightarrow> bff \<Rightarrow> bool" where
  "own_caps c k sub s \<longleftrightarrow> ses_capabilities (cur_ses s) = c \<and> ses_key (cur_ses s) = k \<and> ses_subject (cur_ses s) = sub"

interpretation own_caps: session_invariant "own_caps c k sub" sub for c k sub
  by unfold_locales (simp_all add: own_caps_def)

text \<open>The answer in one piece: what the Auth Service says of the person, and the session's seals.\<close>

lemma me_run:
  "final (me v) s = final (case answer (freshToken v) s of
     Inl e \<Rightarrow> ctx_error v refresh_failed
   | Inr token \<Rightarrow> (case parse_key v (cur_ses s) of
       Inl e \<Rightarrow> fail v e
     | Inr key \<Rightarrow> do {
         r \<leftarrow> Identity v key token;
         case r of
           Inl e \<Rightarrow> ctx_error v (Problem ''err:upstream:unavailable'' (Some 502) None None None)
         | Inr None \<Rightarrow> ctx_error v Panic
         | Inr (Some i) \<Rightarrow> do {
             permitted \<leftarrow> offeredOnly v (idn_permitted i);
             ctx_json (enc_me i permitted (ses_capabilities (cur_ses s))) } })) (final (freshToken v) s)"
proof -
  have same: "ses_capabilities (cur_ses (final (freshToken v) s)) = ses_capabilities (cur_ses s)"
    "parse_key v (cur_ses (final (freshToken v) s)) = parse_key v (cur_ses s)"
    using keeps_final [OF own_caps.keeps_freshToken, of "ses_capabilities (cur_ses s)" "ses_key (cur_ses s)"
        "ses_subject (cur_ses s)" s v]
    by (simp_all add: own_caps_def parse_key_def)
  show ?thesis
    by (simp add: me_def final_bind same Identity_def world_final offeredOnly_other_session(3)
        split: sum.split option.split)
qed

text \<open>
  C22. The identity answer shows of a session's captured capabilities whether the person holds
  seals, and their ids and labels.  Whether the token was renewed or not and in either backend,
  the document answered is made of what the Auth Service says of the person, the flows offered and
  the capabilities with every certificate and the signing identity struck out; and, a renewal in Redis
  apart (where the stored session itself leaves the process), the whole response is the same for
  two sessions that differ in the certificates and the signing identity only.
\<close>

theorem me_shows_no_certificate:
  assumes "caps = map_option without_certificates (ses_capabilities (cur_ses s))"
    and "t = final (freshToken v) s"
  shows "(\<forall>j. rsp_body (rsp (final (me v) s)) = BJson j \<longrightarrow>
      (\<exists>token key i. answer (freshToken v) s = Inr token \<and> parse_key v (cur_ses s) = Inr key \<and>
         identity_reply v (EIdentity key token # trace t) = Inr (Some i) \<and>
         j = enc_me i (answer (offeredOnly v (idn_permitted i)) (t\<lparr>trace := EIdentity key token # trace t\<rparr>)) caps)) \<and>
    (\<forall>d. map_option without_certificates d = caps \<longrightarrow> (ap_redis (app v) \<longrightarrow> \<not> must_renew v s) \<longrightarrow>
      rsp (final (me v) (s\<lparr>cur_ses := (cur_ses s)\<lparr>ses_capabilities := d\<rparr>\<rparr>)) = rsp (final (me v) s))"
proof (intro conjI allI impI)
  fix j assume "rsp_body (rsp (final (me v) s)) = BJson j"
  then show "\<exists>token key i. answer (freshToken v) s = Inr token \<and> parse_key v (cur_ses s) = Inr key \<and>
      identity_reply v (EIdentity key token # trace t) = Inr (Some i) \<and>
      j = enc_me i (answer (offeredOnly v (idn_permitted i)) (t\<lparr>trace := EIdentity key token # trace t\<rparr>)) caps"
    unfolding me_run assms
    by (auto simp: Identity_def fail_def world_final enc_me_without_certificates
        split: sum.splits option.splits)
next
  fix d assume d: "map_option without_certificates d = caps" "ap_redis (app v) \<longrightarrow> \<not> must_renew v s"
  let ?w = "with_capabilities d (sessions s) s"
  obtain m where f: "answer (freshToken v) ?w = answer (freshToken v) s"
    "final (freshToken v) ?w = with_capabilities d m (final (freshToken v) s)"
    using freshToken_other_session [OF d(2)] by metis
  have c: "enc_me i p d = enc_me i p (ses_capabilities (cur_ses s))" for i p
    using d(1) assms(1) by (metis enc_me_without_certificates)
  have "rsp (final (me v) ?w) = rsp (final (me v) s)"
    unfolding me_run [of v ?w] f me_run [of v s]
    by (auto simp: parse_key_def Identity_def fail_def world_final offeredOnly_other_session c
        split: sum.split option.split)
  then show "rsp (final (me v) (s\<lparr>cur_ses := (cur_ses s)\<lparr>ses_capabilities := d\<rparr>\<rparr>)) = rsp (final (me v) s)"
    by (simp add: with_capabilities_def)
qed

definition cert_capabilities :: "string \<Rightarrow> capabilities" where
  "cert_capabilities cert = \<lparr>cap_sign_identity = ''id'', cap_signing_cert = cert, cap_auth_cert = cert,
     cap_seals = [\<lparr>seal_id = ''s1'', seal_label = ''Seal'', seal_certificate = cert\<rparr>],
     cap_seals_known = True\<rparr>"

theorem me_shows_no_certificate_witness:
  "rsp (final (me demo) (signed_in\<lparr>cur_ses := demo_session\<lparr>ses_capabilities := Some (cert_capabilities ''B'')\<rparr>\<rparr>)) =
   rsp (final (me demo) (signed_in\<lparr>cur_ses := demo_session\<lparr>ses_capabilities := Some (cert_capabilities ''A'')\<rparr>\<rparr>))"
proof -
  let ?s = "signed_in\<lparr>cur_ses := demo_session\<lparr>ses_capabilities := Some (cert_capabilities ''A'')\<rparr>\<rparr>"
  have same: "map_option without_certificates (Some (cert_capabilities ''B'')) =
      map_option without_certificates (ses_capabilities (cur_ses ?s))"
    by (simp add: cert_capabilities_def without_certificates_def)
  have "\<not> must_renew demo ?s" if "ap_redis (app demo)" using that by simp
  from me_shows_no_certificate [OF refl refl, of demo ?s, THEN conjunct2, rule_format, OF same this]
  show ?thesis by simp
qed

section \<open>Signing out\<close>

lemma revoke_session_final:
  "final (revoke_session v x) s = s\<lparr>trace := (case parse_key v x of
     Inr key \<Rightarrow> if ses_refresh_token x = [] then trace s else ERevoke key (ses_refresh_token x) # trace s
   | Inl _ \<Rightarrow> trace s)\<rparr>"
  by (simp add: revoke_session_def world_final split: sum.split)

lemma revoke_session_views:
  "sessions_in v' rt (final (revoke_session v x) s) = sessions_in v' rt s"
  "flows_in v' rt (final (revoke_session v x) s) = flows_in v' rt s"
  by (simp_all add: revoke_session_final split: sum.split)

lemma final_logout:
  assumes "cur_sid s \<noteq> []" "u = final (DeleteSession v (cur_sid s)) (final (revoke_session v (cur_ses s)) s)"
  shows "final (logout v q) s = u\<lparr>rsp := (rsp u)\<lparr>rsp_cookies := rsp_cookies (rsp u) @
      [expiring_cookie q (cookie_name (cfg v)), expiring_cookie q csrfCookieName],
    rsp_body := BJson (enc_logout (logout_url v (cur_ses s)))\<rparr>\<rparr>"
  using assms
  by (simp add: logout_def world_final revoke_session_final clearSessionCookies_def add_cookie_def)

text \<open>
  C21. Signing out ends the session here whatever the Auth Service answers: in either backend the
  session is gone and every other entry stays, both cookies are expired, the Auth Service is asked
  to end its side exactly when the stored key can be read and a refresh token is held, and nothing
  else leaves the process but the deletion.  The one exception is a Redis that answers the
  deletion with an error: the session stays there, and the person is answered as before.
\<close>

theorem logout_ends_the_session:
  assumes "cur_sid s \<noteq> []" "final (logout v q) s = t"
    and "asked = (case parse_key v (cur_ses s) of
         Inr key \<Rightarrow> if ses_refresh_token (cur_ses s) = [] then trace s
                    else ERevoke key (ses_refresh_token (cur_ses s)) # trace s
       | Inl _ \<Rightarrow> trace s)"
    and "refused \<longleftrightarrow> ap_redis (app v) \<and> (\<exists>e. redis_reply v (ERedis (RDel (sessKey (cur_sid s))) # asked) = RErr e)"
  shows "sessions_in v rt t = (if refused then sessions_in v rt s else (sessions_in v rt s)(cur_sid s := None)) \<and>
    flows_in v rt t = flows_in v rt s \<and>
    rsp_cookies (rsp t) = rsp_cookies (rsp s) @
      [expiring_cookie q (cookie_name (cfg v)), expiring_cookie q csrfCookieName] \<and>
    rsp_body (rsp t) = BJson (enc_logout (logout_url v (cur_ses s))) \<and>
    trace t = (if ap_redis (app v) then [ERedis (RDel (sessKey (cur_sid s)))] else []) @ asked"
proof -
  note t = assms(2) [symmetric, unfolded final_logout [OF assms(1) refl]]
  let ?u = "final (revoke_session v (cur_ses s)) s"
  have u: "trace ?u = asked" by (simp add: revoke_session_final assms(3))
  have "accepted r \<longleftrightarrow> \<not> (\<exists>e. r = RErr e)" for r by (cases r) simp_all
  then have "sessions_in v rt (final (DeleteSession v (cur_sid s)) ?u) =
      (if refused then sessions_in v rt ?u else (sessions_in v rt ?u)(cur_sid s := None))"
    by (auto simp: DeleteSession_answered assms(4) executed_def u)
  then have "sessions_in v rt t = (if refused then sessions_in v rt s else (sessions_in v rt s)(cur_sid s := None))"
    "flows_in v rt t = flows_in v rt s"
    by (simp_all add: t DeleteSession_views revoke_session_views)
  then show ?thesis using u
    by (simp add: t DeleteSession_def redis_DeleteSession_def mem_DeleteSession_def redis_def world_final)
       (simp add: revoke_session_final)
qed

theorem logout_ends_the_session_witness:
  "\<exists>t. final (logout demo demo_request) stale_state = t \<and>
    sessions_in demo (clock demo) t = (sessions_in demo (clock demo) stale_state)(''sid1'' := None) \<and>
    rsp_cookies (rsp t) = rsp_cookies (rsp stale_state) @
      [expiring_cookie demo_request (cookie_name (cfg demo)), expiring_cookie demo_request csrfCookieName]"
  using logout_ends_the_session [of stale_state demo demo_request, OF _ refl refl refl]
  by (simp add: stale_state_def)

end
