(* ===== verification/CookieTheorems.thy ===== *)
theory CookieTheorems
  imports SessionTheorems
begin

text \<open>
  Every cookie any route sets: the attributes \<open>routes/cookies.go\<close> gives them, carried over the
  whole route table by the library's handler invariants.
\<close>

section \<open>The attributes\<close>

text \<open>
  What every cookie of this service looks like on a request: its name and its Secure attribute
  follow the request's security, its path is the whole site, and the session cookie is out of
  reach of scripts.
\<close>

definition good_cookie :: "env \<Rightarrow> request \<Rightarrow> cookie \<Rightarrow> bool" where
  "good_cookie v q c \<longleftrightarrow> ck_secure c = secureCookies q \<and> ck_path c = ''/'' \<and>
     ck_name c \<in> cookieName q ` {cookie_name (cfg v), csrfCookieName, signInCookieName} \<and>
     (ck_name c = cookieName q (cookie_name (cfg v)) \<longrightarrow> ck_clear c \<or> ck_http_only c) \<and>
     (ck_clear c \<or> ck_same_site c = ''Lax'')"

definition cookies_good :: "env \<Rightarrow> request \<Rightarrow> string \<Rightarrow> bff \<Rightarrow> bool" where
  "cookies_good v q sub s \<longleftrightarrow> list_all (good_cookie v q) (rsp_cookies (rsp s)) \<and> ses_subject (cur_ses s) = sub"

interpretation good: handler_invariant "cookies_good v q sub" sub "good_cookie v q" for v q sub
  by unfold_locales (auto simp: cookies_good_def)

interpretation good_open: open_invariant "cookies_good v q sub" "\<lambda>_. True" "good_cookie v q" for v q sub
  by unfold_locales (auto simp: cookies_good_def)

lemma cookieName_inject [simp]: "cookieName q x = cookieName q y \<longleftrightarrow> x = y"
  by (simp add: cookieName_def)

lemma good_cookie_made:
  "good_cookie v q (new_cookie q (cookie_name (cfg v)) x True m)"
  "good_cookie v q (new_cookie q signInCookieName x True m)"
  "csrfCookieName \<noteq> cookie_name (cfg v) \<Longrightarrow> good_cookie v q (new_cookie q csrfCookieName x False m)"
  "good_cookie v q (expiring_cookie q (cookie_name (cfg v)))"
  "good_cookie v q (expiring_cookie q csrfCookieName)"
  by (simp_all add: good_cookie_def new_cookie_def expiring_cookie_def)

lemma good_authed:
  assumes "(m, p, h) \<in> set authed_routes"
  shows "keeps (cookies_good v q sub) (h v q)"
  using assms
  by (auto simp: authed_routes_def route_groups good.keeps_session_routes good_cookie_made
      good.keeps_logout good.keeps_document_routes good.keeps_preview_routes
      good.keeps_signing_routes good.keeps_envelope_routes good.keeps_dashboard)

lemma good_open_routes:
  assumes "(m, p, h) \<in> set open_routes" "csrfCookieName \<noteq> cookie_name (cfg v)"
  shows "keeps (cookies_good v q sub) (h v q)"
  using assms
  by (auto simp: open_routes_def good_open.keeps_loginStart
      good_cookie_made good_open.keeps_signInMethods good_open.keeps_health cookies_good_def
      intro!: good.keeps_verify_route good_open.keeps_loginCallback)

lemma cookies_good_trace [simp]:
  "cookies_good v q sub (s\<lparr>trace := es\<rparr>) = cookies_good v q sub s"
  by (simp add: cookies_good_def)

lemma good_guarded:
  assumes "\<And>sub. keeps (cookies_good v q sub) h" "rsp_cookies (rsp s) = []"
  shows "list_all (good_cookie v q) (rsp_cookies (rsp (final (requireSession v q h) s)))"
proof -
  let ?sid = "readCookie q (cookie_name (cfg v))"
  obtain es where g: "final (GetSession v ?sid) s = s\<lparr>trace := es @ trace s\<rparr>"
    using final_GetSession by blast
  consider (none) "?sid = []" | (lost) e where "?sid \<noteq> []" "answer (GetSession v ?sid) s = Inl e"
    | (bad) x where "?sid \<noteq> []" "answer (GetSession v ?sid) s = Inr x" "csrf_refused q x"
    | (ok) x where "?sid \<noteq> []" "answer (GetSession v ?sid) s = Inr x" "\<not> csrf_refused q x"
    by (cases "answer (GetSession v ?sid) s") auto
  then show ?thesis
  proof cases
    case none
    then show ?thesis by (simp add: requireSession_none world_final assms(2))
  next
    case (lost e)
    then show ?thesis by (simp add: requireSession_lost [OF refl lost] g world_final assms(2)
          clearSessionCookies_def add_cookie_def good_cookie_made)
  next
    case (bad x)
    then show ?thesis by (simp add: requireSession_refused [OF refl bad] g world_final final_csrfDenied assms(2))
  next
    case (ok x)
    let ?u = "s\<lparr>trace := es @ trace s, cur_sid := ?sid, cur_ses := x\<rparr>"
    have "cookies_good v q (ses_subject x) (final h ?u)"
      by (rule keeps_final [OF assms(1)]) (simp add: cookies_good_def assms(2))
    then show ?thesis by (simp add: requireSession_passed [OF refl ok] g cookies_good_def)
  qed
qed

text \<open>
  C18. Every cookie any route sets on a response is one of the service's three, covers the whole
  site, is Secure under the \<open>__Host-\<close> name exactly when the request is not a development
  request over plain HTTP, is SameSite=Lax unless it clears, and, if it carries a session id, is
  HttpOnly.
\<close>

theorem cookies_are_hardened:
  assumes "(m, p, h) \<in> set Init" "csrfCookieName \<noteq> cookie_name (cfg v)"
    and "c \<in> set (rsp_cookies (rsp (serve v h q s)))"
  shows "ck_secure c = (rq_tls q \<or> \<not> rq_development q) \<and> ck_path c = ''/'' \<and>
    (\<exists>name \<in> {cookie_name (cfg v), csrfCookieName, signInCookieName}.
      ck_name c = (if ck_secure c then ''__Host-'' @ name else name)) \<and>
    (ck_name c = cookieName q (cookie_name (cfg v)) \<longrightarrow> ck_clear c \<or> ck_http_only c) \<and>
    (ck_clear c \<or> ck_same_site c = ''Lax'')"
proof -
  have r: "rsp_cookies (rsp (arrive s)) = []" by (simp add: arrive_def no_response_def)
  have "list_all (good_cookie v q) (rsp_cookies (rsp (serve v h q s)))"
    using assms(1)
  proof (cases rule: Init_cases)
    case 1
    have "cookies_good v q [] (final (h v q) (arrive s))"
      by (rule keeps_final [OF good_open_routes [OF 1 assms(2)]])
         (simp add: cookies_good_def r, simp add: arrive_def zero_session_def)
    then show ?thesis by (simp add: serve_def cookies_good_def)
  next
    case (2 h')
    then show ?thesis using good_guarded [OF good_authed [OF 2(1)] r] by (simp add: serve_def)
  qed
  then have "good_cookie v q c" using assms(3) by (simp add: list_all_iff)
  then show ?thesis
    by (auto simp: good_cookie_def secureCookies_def cookieName_def hostPrefix_def)
qed

theorem cookies_are_hardened_witness:
  "ck_secure (expiring_cookie demo_request ''portal_session'') \<and>
   ck_path (expiring_cookie demo_request ''portal_session'') = ''/''"
proof -
  let ?h = "\<lambda>v q. requireSession v q (logout v q)"
  have route: "(''POST'', ''/logout'', ?h) \<in> set Init"
    by (simp add: Init_def authed_routes_def session_routes_def guarded_def)
  have "expiring_cookie demo_request ''portal_session'' \<in> set (rsp_cookies (rsp (serve demo ?h demo_request boot)))"
  proof -
    have "wp (GetSession demo ''sid1'') (\<lambda>r t. \<exists>e. r = Inl e) (arrive boot)"
      by (simp add: GetSession_def wp_mem_GetSession get_entry_def live_def boot_def arrive_def)
    then obtain e where "answer (GetSession demo ''sid1'') (arrive boot) = Inl e"
      by (auto simp: wp_answer)
    then show ?thesis
      using requireSession_lost [of demo_request demo "''sid1''" "arrive boot" e "logout demo demo_request"]
      by (simp add: serve_def world_final clearSessionCookies_def add_cookie_def)
  qed
  from cookies_are_hardened [OF route _ this] show ?thesis
    by (simp add: csrfCookieName_def demo_request_def)
qed

end
