(* ===== verification/DashboardTheorems.thy ===== *)
theory DashboardTheorems
  imports Samples
begin

text \<open>
  The composed library view (\<open>routes/dashboard.go\<close>) against specifications that do not follow
  its loops: which envelope rows stay, that no document is left without a row, and when a row
  says its documents go.
\<close>

section \<open>Which envelope rows stay\<close>

text \<open>
  The specification: an envelope stays if it has no document, or is, for one of its documents,
  one that no listed envelope over that document acted later than.
\<close>

definition carries :: "string \<Rightarrow> summary \<Rightarrow> bool" where
  "carries doc e \<longleftrightarrow> doc \<in> set (sm_doc_ids e)"

definition latest_for :: "summary list \<Rightarrow> string \<Rightarrow> summary \<Rightarrow> bool" where
  "latest_for envs doc e \<longleftrightarrow> carries doc e \<and> (\<forall>x \<in> set envs. carries doc x \<longrightarrow> \<not> actedLater x e)"

definition stays :: "summary list \<Rightarrow> summary \<Rightarrow> bool" where
  "stays envs e \<longleftrightarrow> sm_doc_ids e = [] \<or> (\<exists>doc \<in> set (sm_doc_ids e). latest_for envs doc e)"

lemma home_is_latest:
  assumes "home envs doc = Some h"
  shows "h \<in> set envs \<and> latest_for envs doc h"
  using home_some [OF assms] home_is_max [OF assms]
  by (auto simp: latest_for_def carries_def actedLater_less not_less)

text \<open>Two latest ones for a document are the same when the listing has an id once.\<close>

lemma latest_unique:
  assumes "latest_for envs doc a" "latest_for envs doc b" "a \<in> set envs" "b \<in> set envs"
  shows "sm_id a = sm_id b"
  using assms acted_at_eq [of a b] by (fastforce simp: latest_for_def actedLater_less not_less)

text \<open>
  C24. On a listing that shows every envelope once, the kept rows are the ones that stay, in the
  order of the listing: the map of homes and the set of kept ids compute that specification.
\<close>

theorem latestPerChain_keeps_what_stays:
  assumes "distinct (map sm_id envs)"
  shows "latestPerChain envs = filter (stays envs) envs"
proof -
  have same: "x = y" if "x \<in> set envs" "y \<in> set envs" "sm_id x = sm_id y" for x y
    using assms that by (auto simp: distinct_map dest: inj_onD)
  have "(sm_doc_ids e = [] \<or> sm_id e \<in> set (kept_ids envs)) \<longleftrightarrow> stays envs e" if e: "e \<in> set envs" for e
  proof
    assume "sm_doc_ids e = [] \<or> sm_id e \<in> set (kept_ids envs)"
    moreover have "stays envs e" if k: "home envs doc = Some h" "sm_id h = sm_id e" for doc h
    proof -
      have "h = e" using home_is_latest [OF k(1)] e k(2) by (auto intro: same)
      then show ?thesis using home_is_latest [OF k(1)]
        by (auto simp: stays_def latest_for_def carries_def)
    qed
    ultimately show "stays envs e" by (auto simp: in_kept_ids) (simp add: stays_def)
  next
    assume "stays envs e"
    moreover have "sm_id e \<in> set (kept_ids envs)" if l: "latest_for envs doc e" for doc
    proof -
      obtain h where h: "home envs doc = Some h"
        using l by (auto simp: latest_for_def carries_def elim: home_latest [OF e])
      then have "sm_id h = sm_id e"
        using home_is_latest [OF h] l e latest_unique by blast
      then show ?thesis using h by (auto simp: in_kept_ids)
    qed
    ultimately show "sm_doc_ids e = [] \<or> sm_id e \<in> set (kept_ids envs)" by (auto simp: stays_def)
  qed
  then show ?thesis by (simp add: latestPerChain_def Let_def cong: filter_cong)
qed

definition row :: "string \<Rightarrow> string \<Rightarrow> string list \<Rightarrow> summary" where
  "row i at docs = zero_summary\<lparr>sm_id := i, sm_updated_at := at, sm_doc_ids := docs\<rparr>"

lemma row_fields [simp]: "sm_id (row i t ds) = i" "sm_updated_at (row i t ds) = t" "sm_doc_ids (row i t ds) = ds"
  by (simp_all add: row_def)

theorem latestPerChain_keeps_what_stays_witness:
  "latestPerChain [row ''e2'' ''2'' [''d1''], row ''e1'' ''1'' [''d1'']] =
   filter (stays [row ''e2'' ''2'' [''d1''], row ''e1'' ''1'' [''d1'']])
     [row ''e2'' ''2'' [''d1''], row ''e1'' ''1'' [''d1'']]"
  by (rule latestPerChain_keeps_what_stays) simp

text \<open>
  C25. No attached document loses its row: whatever the listing, every document of a listed
  envelope is carried by a kept row, and by one no listed envelope over it acted later than.
\<close>

theorem every_document_keeps_a_row:
  assumes "e \<in> set envs" "doc \<in> set (sm_doc_ids e)"
  shows "\<exists>h \<in> set (latestPerChain envs). doc \<in> set (sm_doc_ids h) \<and>
    (\<forall>x \<in> set envs. doc \<in> set (sm_doc_ids x) \<longrightarrow> \<not> actedLater x h)"
proof -
  obtain h where h: "home envs doc = Some h" using home_latest [OF assms] by blast
  then show ?thesis using home_kept [OF h] home_is_latest [OF h]
    by (auto simp: latest_for_def carries_def)
qed

theorem every_document_keeps_a_row_witness:
  "\<exists>h \<in> set (latestPerChain [row ''e2'' ''2'' [''d1''], row ''e1'' ''1'' [''d1'', ''d2'']]).
    ''d2'' \<in> set (sm_doc_ids h) \<and>
    (\<forall>x \<in> set [row ''e2'' ''2'' [''d1''], row ''e1'' ''1'' [''d1'', ''d2'']].
       ''d2'' \<in> set (sm_doc_ids x) \<longrightarrow> \<not> actedLater x h)"
  by (rule every_document_keeps_a_row [of "row ''e1'' ''1'' [''d1'', ''d2'']"]) simp_all

text \<open>
  A document can occupy two rows: with an older envelope over two documents and a newer one
  over the first, both rows stay, since the older is still the home of the second.
\<close>

lemma one_document_in_two_rows:
  "latestPerChain [row ''e2'' ''2'' [''d1''], row ''e1'' ''1'' [''d1'', ''d2'']]
    = [row ''e2'' ''2'' [''d1''], row ''e1'' ''1'' [''d1'', ''d2'']]"
  by (simp add: latestPerChain_def kept_ids_def home_def claim_docs_def claim_doc_def all_docs_def
      actedLater_def less_char_def)

section \<open>The three listings together\<close>

lemma ids_stamp [simp]: "sm_doc_ids (stamp fmt m e) = sm_doc_ids e" "sm_id (stamp fmt m e) = sm_id e"
  by (simp_all add: stamp_def Let_def)

lemma docs_withRetention:
  "map sm_doc_ids (withRetention fmt envs chs) = map sm_doc_ids envs"
  by (auto simp: withRetention_def)

lemma live_root: "c \<in> set chs \<Longrightarrow> i \<in> {ch_root c, ch_id c} \<Longrightarrow> i \<noteq> [] \<Longrightarrow> i \<in> set (live_ids chs)"
  by (auto simp: live_ids_def)

lemma live_envelope_stays:
  assumes "e \<in> set envs" "doc \<in> set (sm_doc_ids e)" "doc \<in> set (live_ids chs)"
  shows "e \<in> set (withoutDestroyedChains envs chs)"
  using assms by (auto simp: withoutDestroyedChains_def Let_def list_ex_iff)

definition shown_in :: "summary list \<Rightarrow> chain_row \<Rightarrow> bool" where
  "shown_in envs c \<longleftrightarrow> (\<exists>e \<in> set envs. ch_root c \<in> set (sm_doc_ids e) \<or> ch_id c \<in> set (sm_doc_ids e))"

lemma shown_in_docs: "shown_in envs c \<longleftrightarrow> (\<exists>ds \<in> set (map sm_doc_ids envs). ch_root c \<in> set ds \<or> ch_id c \<in> set ds)"
  by (auto simp: shown_in_def)

lemma in_standalone:
  "c \<in> set (standalone envs tasks chs) \<longleftrightarrow>
     c \<in> set chs \<and> \<not> shown_in envs c \<and> \<not> shown_in (map st_envelope tasks) c"
  by (auto simp: standalone_def Let_def covered_ids_def in_all_docs shown_in_def)

text \<open>A live chain some envelope carries is carried by a composed row.\<close>

lemma live_chain_has_a_row:
  assumes "c \<in> set chs" "ch_root c \<noteq> []" "ch_id c \<noteq> []" "shown_in envs c"
  shows "shown_in (withRetention fmt (latestPerChain (withoutDestroyedChains envs chs)) chs) c"
proof -
  obtain e i where e: "e \<in> set envs" "i \<in> {ch_root c, ch_id c}" "i \<in> set (sm_doc_ids e)"
    using assms(4) by (auto simp: shown_in_def)
  have "i \<in> set (live_ids chs)" by (rule live_root [OF assms(1) e(2)]) (use e(2) assms(2,3) in auto)
  then have "e \<in> set (withoutDestroyedChains envs chs)" by (rule live_envelope_stays [OF e(1,3)])
  then obtain h where h: "home (withoutDestroyedChains envs chs) i = Some h"
    by (rule home_latest [OF _ e(3)])
  then have "h \<in> set (latestPerChain (withoutDestroyedChains envs chs))" "i \<in> set (sm_doc_ids h)"
    using home_kept [OF h] home_some [OF h] by simp_all
  then show ?thesis using e(2) by (auto simp: shown_in_docs docs_withRetention)
qed

text \<open>
  C26. Nothing of the library is lost: every listed chain with its two ids is a row of its own
  in the composed view, or is carried by one of its envelope rows, or by a signing task.
\<close>

theorem every_chain_is_shown:
  assumes "c \<in> set chs" "ch_root c \<noteq> []" "ch_id c \<noteq> []" "d = compose fmt tasks envs chs"
  shows "c \<in> set (db_chains d) \<or> shown_in (db_envelopes d) c \<or> shown_in (map st_envelope (db_tasks d)) c"
  using assms live_chain_has_a_row [OF assms(1-3), of envs fmt]
  by (auto simp: compose_def in_standalone)

definition chain :: "string \<Rightarrow> string \<Rightarrow> gotime \<Rightarrow> chain_row" where
  "chain r i t = zero_chain_row\<lparr>ch_root := r, ch_id := i, ch_retention_until := t\<rparr>"

lemma chain_fields [simp]: "ch_root (chain r i t) = r" "ch_id (chain r i t) = i" "ch_retention_until (chain r i t) = t"
  by (simp_all add: chain_def)

theorem every_chain_is_shown_witness:
  "\<exists>d. d = compose itoa [] [row ''e1'' ''1'' [''r1'']] [chain ''r1'' ''h1'' 5, chain ''r2'' ''h2'' 0] \<and>
    (chain ''r1'' ''h1'' 5 \<in> set (db_chains d) \<or> shown_in (db_envelopes d) (chain ''r1'' ''h1'' 5)
     \<or> shown_in (map st_envelope (db_tasks d)) (chain ''r1'' ''h1'' 5))"
  using every_chain_is_shown [of "chain ''r1'' ''h1'' 5"
      "[chain ''r1'' ''h1'' 5, chain ''r2'' ''h2'' 0]" _ itoa "[]" "[row ''e1'' ''1'' [''r1'']]"]
  by simp

text \<open>
  C27. Nothing is shown twice: a chain with a row of its own is carried by no envelope row and
  by no signing task of the composed view.
\<close>

theorem no_chain_is_shown_twice:
  assumes "c \<in> set (db_chains (compose fmt tasks envs chs))"
  shows "\<not> shown_in (db_envelopes (compose fmt tasks envs chs)) c \<and>
    \<not> shown_in (map st_envelope (db_tasks (compose fmt tasks envs chs))) c"
proof -
  have "set (latestPerChain (withoutDestroyedChains envs chs)) \<subseteq> set envs"
    by (auto simp: latestPerChain_def withoutDestroyedChains_def Let_def split: if_splits)
  then have "shown_in (db_envelopes (compose fmt tasks envs chs)) c \<Longrightarrow> shown_in envs c"
    by (auto simp: compose_def shown_in_docs docs_withRetention)
  then show ?thesis using assms by (auto simp: compose_def in_standalone)
qed

theorem no_chain_is_shown_twice_witness:
  "\<not> shown_in (db_envelopes (compose itoa [] [row ''e1'' ''1'' [''r1'']] [chain ''r2'' ''h2'' 0])) (chain ''r2'' ''h2'' 0) \<and>
   \<not> shown_in (map st_envelope (db_tasks (compose itoa [] [row ''e1'' ''1'' [''r1'']] [chain ''r2'' ''h2'' 0])))
      (chain ''r2'' ''h2'' 0)"
  by (rule no_chain_is_shown_twice) (simp add: compose_def in_standalone shown_in_def)

section \<open>When a row says its documents go\<close>

text \<open>The instants at which a listed chain of one of the envelope's documents is destroyed.\<close>

definition due :: "chain_row list \<Rightarrow> summary \<Rightarrow> gotime list" where
  "due chs e = map ch_retention_until (filter (\<lambda>c. ch_retention_until c \<noteq> 0 \<and>
     (\<exists>doc \<in> set (sm_doc_ids e). doc \<noteq> [] \<and> (doc = ch_root c \<or> doc = ch_id c))) chs)"

lemma in_due:
  "u \<in> set (due chs e) \<longleftrightarrow> (\<exists>c \<in> set chs. ch_retention_until c = u \<and> u \<noteq> 0 \<and>
     (\<exists>doc \<in> set (sm_doc_ids e). doc \<noteq> [] \<and> doc \<in> {ch_root c, ch_id c}))"
  by (auto simp: due_def)

lemma soonest_is_min:
  "soonest (until_map chs) (sm_doc_ids e) = (if due chs e = [] then 0 else Min (set (due chs e)))"
proof -
  let ?t = "soonest (until_map chs) (sm_doc_ids e)"
  have le: "?t \<noteq> 0 \<and> ?t \<le> u" if "u \<in> set (due chs e)" for u
  proof -
    note that [unfolded in_due]
    then obtain c doc where c: "c \<in> set chs" "ch_retention_until c = u" "u \<noteq> 0"
      "doc \<in> set (sm_doc_ids e)" "doc \<noteq> []" "doc \<in> {ch_root c, ch_id c}" by blast
    obtain w where "until_map chs doc = Some w" "w \<le> u"
      using until_map_le [OF c(1) _ c(6,5)] c(2,3) by auto
    then show ?thesis using soonest_bounds(2) [OF refl c(4)] by fastforce
  qed
  have mem: "?t \<in> set (due chs e)" if nz: "?t \<noteq> 0"
  proof -
    obtain doc where doc: "doc \<in> set (sm_doc_ids e)" "until_map chs doc = Some ?t"
      using soonest_bounds(1) [OF refl nz] by blast
    then show ?thesis using until_map_some [OF doc(2)] unfolding in_due by blast
  qed
  show ?thesis
  proof (cases "due chs e = []")
    case True
    then show ?thesis using mem by auto
  next
    case False
    then obtain u where "u \<in> set (due chs e)" by (cases "due chs e") auto
    then show ?thesis using False mem le by (auto intro!: Min_eqI [symmetric])
  qed
qed

text \<open>
  C28. Each envelope row is stamped with the soonest moment at which storage destroys a listed
  chain of one of its documents, found by the chain's root or its head; a row none of whose
  documents has such a moment keeps what the listing said.
\<close>

theorem rows_say_the_soonest_retention:
  "withRetention fmt envs chs =
    map (\<lambda>e. if due chs e = [] then e else e\<lparr>sm_retention_until := fmt (Min (set (due chs e)))\<rparr>) envs"
proof -
  have "0 \<notin> set (due chs e)" for e by (auto simp: due_def)
  then have "due chs e \<noteq> [] \<Longrightarrow> Min (set (due chs e)) \<noteq> 0" for e
    by (metis List.finite_set Min_in set_empty)
  then show ?thesis
    by (auto simp: withRetention_def stamp_def soonest_is_min Let_def due_def)
qed

section \<open>The handler\<close>

text \<open>The read a listing is asked with, and what its answer is decoded to.\<close>

definition listing_call :: "service \<Rightarrow> string \<Rightarrow> string \<Rightarrow> on_behalf \<Rightarrow> obo_call" where
  "listing_call c scope path obo = \<lparr>oc_timeout = None, oc_audience = sv_audience c, oc_scope = scope,
     oc_sub = ob_sub obo, oc_token = ob_token obo, oc_method = ''GET'', oc_url = sv_base c @ path,
     oc_content_type = [], oc_body = no_body\<rparr>"

definition listed :: "env \<Rightarrow> string \<Rightarrow> (json \<Rightarrow> 'a \<Rightarrow> 'a option) \<Rightarrow> 'a \<Rightarrow> event list \<Rightarrow> 'a \<Rightarrow> bool" where
  "listed v svc dec zero tr x \<longleftrightarrow> (\<exists>r. obo_reply v tr = Inr r \<and> read_json svc (out_json dec zero) r = Inr x)"

lemma asked_listing:
  assumes "listed v svc dec zero (EObo (listing_call c scope path obo) # trace u) x" "ob_token obo \<noteq> []"
  shows "answer (doJSONOnBehalf v svc (sv_audience c) scope ''GET'' (sv_base c @ path) obo no_body [] (out_json dec zero)) u = Inr x"
    and "final (doJSONOnBehalf v svc (sv_audience c) scope ''GET'' (sv_base c @ path) obo no_body [] (out_json dec zero)) u
      = u\<lparr>trace := EObo (listing_call c scope path obo) # trace u\<rparr>"
  using assms
  by (auto simp: listed_def listing_call_def doJSONOnBehalf_def doOnBehalf_def on_ok_def world_final)

lemma first_pages:
  "cursor_query 0 [] = []" "with_query ''/api/v1/documents'' ((''view'', ''chains'') # page_query 0 []) =
     ''/api/v1/documents?view=chains''"
  by code_simp+

text \<open>
  C23. The dashboard end to end: it asks, for the signed-in person and in this order, the signing
  tasks, the envelopes and the chains, the first page of each, and answers the composed view of
  exactly these three listings; what lies beyond the first pages is in no way part of it.
\<close>

theorem dashboard_composes_the_first_pages:
  assumes "ap_documents (app v) = Some docs" "ap_envelope (app v) = Some envc"
    and "answer (onBehalf v) s = Some obo" "ob_token obo \<noteq> []" "u = final (onBehalf v) s"
    and "tr1 = EObo (listing_call envc scopeEnvRead ''/api/v1/signing-tasks'' obo) # trace u"
    and "tr2 = EObo (listing_call envc scopeEnvRead ''/api/v1/envelopes'' obo) # tr1"
    and "tr3 = EObo (listing_call docs scopeDocRead ''/api/v1/documents?view=chains'' obo) # tr2"
    and "listed v ''envelope'' dec_signing_tasks_result zero_signing_tasks_result tr1 tasks"
    and "listed v ''envelope'' dec_list_result zero_list_result tr2 envs"
    and "listed v ''document'' (dec_chain_list (cal v)) zero_chain_list tr3 chs"
  shows "final (dashboard v) s = u\<lparr>trace := tr3, rsp := (rsp u)\<lparr>rsp_body := BJson (enc_dashboard (cal v)
    (compose (rfc3339 v) (nil_list (str_tasks tasks)) (nil_list (lr_envelopes envs)) (nil_list (cl_chains chs))))\<rparr>\<rparr>"
proof -
  have 1: "answer (SigningTasks v envc obo 0 []) u = Inr tasks"
    "final (SigningTasks v envc obo 0 []) u = u\<lparr>trace := tr1\<rparr>"
    using asked_listing [of v _ _ _ envc _ _ obo u tasks, OF _ assms(4)] assms(9)
    by (simp_all add: SigningTasks_def env_get_def first_pages assms(6))
  have 2: "answer (Envelope_List v envc obo 0 []) (u\<lparr>trace := tr1\<rparr>) = Inr envs"
    "final (Envelope_List v envc obo 0 []) (u\<lparr>trace := tr1\<rparr>) = u\<lparr>trace := tr2\<rparr>"
    using asked_listing [of v _ _ _ envc _ _ obo "u\<lparr>trace := tr1\<rparr>" envs, OF _ assms(4)] assms(10)
    by (simp_all add: Envelope_List_def env_get_def first_pages assms(7))
  have 3: "answer (ListChains v docs obo 0 []) (u\<lparr>trace := tr2\<rparr>) = Inr chs"
    "final (ListChains v docs obo 0 []) (u\<lparr>trace := tr2\<rparr>) = u\<lparr>trace := tr3\<rparr>"
    using asked_listing [of v _ _ _ docs _ _ obo "u\<lparr>trace := tr2\<rparr>" chs, OF _ assms(4)] assms(11)
    by (simp_all add: ListChains_def doc_get_def first_pages assms(8))
  show ?thesis using assms(1-3,5) 1 2 3
    by (simp add: dashboard_def documentsReady_def envelopeReady_def with_delegation_def or_relay_def final_bind
        final_ctx_json)
qed

theorem dashboard_composes_the_first_pages_witness:
  "\<exists>tr. final (dashboard demo) (boot\<lparr>cur_ses := demo_session\<rparr>) = boot\<lparr>cur_ses := demo_session, trace := tr,
     rsp := no_response\<lparr>rsp_body := BJson (enc_dashboard (cal demo) (compose (rfc3339 demo) [] [] []))\<rparr>\<rparr>"
proof -
  let ?s = "boot\<lparr>cur_ses := demo_session\<rparr>"
  have obo: "answer (onBehalf demo) ?s = Some \<lparr>ob_sub = ''alice'', ob_token = ''at1''\<rparr>"
    "final (onBehalf demo) ?s = ?s\<lparr>trace := EClock # trace ?s\<rparr>"
    using demo_fresh [of ?s] by (simp_all add: boot_def)
  have "listed demo svc dec zero tr zero" for svc tr and dec :: "json \<Rightarrow> 'a \<Rightarrow> 'a option" and zero
    by (simp add: listed_def read_json_def ok_status_def out_json_def payload_empty_def)
  note l = this
  obtain docs where "ap_documents (app demo) = Some docs" by (auto simp: demo_app_def)
  from dashboard_composes_the_first_pages [OF this _ obo(1) _ obo(2) [symmetric] refl refl refl l l l] show ?thesis
    by (intro exI, simp add: zero_signing_tasks_result_def zero_list_result_def zero_chain_list_def
        nil_list_def, simp add: boot_def)
qed

text \<open>
  What a later page changes: an ended envelope whose document's chain is listed there only is
  dropped as if its storage were gone, and shown when the pages are read together.
\<close>

lemma a_later_page_hides_an_envelope:
  assumes "e \<in> set envs" "terminal (sm_status e)" "chs \<noteq> []" "sm_doc_ids e \<noteq> []"
    and "\<forall>doc \<in> set (sm_doc_ids e). doc \<notin> set (live_ids chs)"
    and "c \<in> set later" "ch_root c \<in> set (sm_doc_ids e)" "ch_root c \<noteq> []"
  shows "e \<notin> set (withoutDestroyedChains envs chs)" "e \<in> set (withoutDestroyedChains envs (chs @ later))"
proof -
  show "e \<notin> set (withoutDestroyedChains envs chs)"
    using assms(1-5) by (auto simp: withoutDestroyedChains_def Let_def list_ex_iff)
  have "ch_root c \<in> set (live_ids (chs @ later))" using assms(6,8) by (auto simp: live_ids_def)
  then show "e \<in> set (withoutDestroyedChains envs (chs @ later))"
    by (rule live_envelope_stays [OF assms(1,7)])
qed

end
