(* ===== verification/EnvelopeTheorems.thy ===== *)
theory EnvelopeTheorems
  imports Samples
begin

text \<open>
  What the envelope surface guarantees: what a viewer is shown of the other signers, whom an
  invitation can name, and the capture of a signer's name.
\<close>

section \<open>Handlers that answer with a document\<close>

text \<open>
  \<open>shows v P m\<close>: wherever \<open>m\<close> runs, a JSON document it leaves in the response satisfies \<open>P\<close>.
\<close>

definition replies :: "(json \<Rightarrow> bool) \<Rightarrow> unit act \<Rightarrow> bool" where
  "replies P m \<longleftrightarrow> (\<forall>s. wp m (\<lambda>_ t. \<forall>j. rsp_body (rsp t) = BJson j \<longrightarrow> P j) s)"

lemma replies_error: "replies P (ctx_error v e)"
  by (simp add: replies_def wp_simps)

lemma replies_relayErr: "replies P (relayErr v e)"
  by (simp add: replies_def relayErr_def wp_simps Let_def split: option.split)

lemma replies_bind: "(\<And>a. replies P (f a)) \<Longrightarrow> replies P (State_Monad.bind m f)"
  by (simp add: replies_def wp_run final_bind)

lemma replies_or_relay: "(\<And>x. replies P (h x)) \<Longrightarrow> replies P (or_relay v m h)"
  unfolding or_relay_def by (rule replies_bind) (auto intro: replies_relayErr split: sum.split)

lemma replies_answers:
  assumes "\<And>s. wp m (\<lambda>a t. R a) s" "\<And>a. R a \<Longrightarrow> replies P (f a)"
  shows "replies P (State_Monad.bind m f)"
  using assms unfolding replies_def wp_run final_bind by blast

lemma replies_json: "P j \<Longrightarrow> replies P (ctx_json j)"
  by (simp add: replies_def ctx_json_def wp_simps)

section \<open>What a viewer is shown\<close>

text \<open>
  How a slot of the envelope service appears to the viewer \<open>sub\<close>: it is the same slot, marked
  as theirs by the rule of \<open>is_you\<close> for one reading \<open>serial\<close> of their token; the identity code is
  the slot's for the owner and withheld from everybody else, and the return address is withheld
  from a viewer who is neither the owner nor the slot's signer.
\<close>

definition appears :: "(string \<Rightarrow> string) \<Rightarrow> string \<Rightarrow> string \<Rightarrow> string \<Rightarrow> slot \<Rightarrow> composed_slot \<Rightarrow> bool" where
  "appears key owner sub serial s x \<longleftrightarrow> sl_id (co_slot x) = sl_id s \<and>
     co_you x = is_you key owner sub serial s \<and>
     sl_identity_ref (co_slot x) = (if owner = sub then sl_identity_ref s else []) \<and>
     sl_return_url (co_slot x) = (if owner = sub \<or> co_you x then sl_return_url s else [])"

lemma seed_appears: "appears key owner sub serial s (seed_slot key owner sub serial s)"
  by (simp add: appears_def seed_slot_def withhold_def Let_def)

lemma job_appears: "appears key owner sub serial s x \<Longrightarrow> appears key owner sub serial s (with_job j x)"
  by (simp add: appears_def with_job_def)

lemma name_appears:
  "appears key owner sub serial s x \<Longrightarrow>
   appears key owner sub serial s (x\<lparr>co_slot := (co_slot x)\<lparr>sl_signer_name := n\<rparr>\<rparr>)"
  by (simp add: appears_def)

lemma compose_appears:
  "wp (compose_slot v obo owner s) (\<lambda>x t.
     appears (idc_key v) owner (ob_sub obo) (serial_from_token v (ob_token obo)) s x) u"
  by (auto simp: compose_slot_def Let_def wp_simps wp_run seed_appears job_appears
      split: option.split sum.split)

lemma compose_all_appear:
  "wp (compose_slots v obo d) (\<lambda>xs t. list_all2
     (appears (idc_key v) (ev_owner (dt_envelope d)) (ob_sub obo) (serial_from_token v (ob_token obo)))
     (case dt_slots d of None \<Rightarrow> [] | Some ss \<Rightarrow> ss) xs) u"
  unfolding compose_slots_def
  using wp_for_each_all2 [where I = "\<lambda>_. True" and f = "\<lambda>i. compose_slot v obo (ev_owner (dt_envelope d))"]
    compose_appears by (fastforce elim!: wp_mono)

lemma capture_appears:
  assumes "list_all2 (appears key owner sub serial) ss xs"
  shows "wp (capture_first (capture_slot v c obo eid) xs) (\<lambda>ys t. list_all2 (appears key owner sub serial) ss ys) u"
  using assms
proof (induction arbitrary: u rule: list_all2_induct)
  case Nil
  then show ?case by (simp add: wp_simps)
next
  case (Cons s ss x xs)
  have "wp (capture_slot v c obo eid x) (\<lambda>y t. appears key owner sub serial s y) w" for w
    using Cons.hyps(1) by (simp add: capture_slot_def wp_simps wp_run name_appears)
  then show ?case using Cons by (simp add: wp_simps wp_run)
qed

text \<open>The view of the envelope \<open>d\<close>, in which every slot of it appears to the caller by the rule.\<close>

definition view_of :: "env \<Rightarrow> on_behalf \<Rightarrow> detail \<Rightarrow> json \<Rightarrow> bool" where
  "view_of v obo d j \<longleftrightarrow> (\<exists>slots docs. j = enc_composed_detail (dt_envelope d) slots docs \<and>
     list_all2 (appears (idc_key v) (ev_owner (dt_envelope d)) (ob_sub obo) (serial_from_token v (ob_token obo)))
       (case dt_slots d of None \<Rightarrow> [] | Some ss \<Rightarrow> ss) slots)"

lemma view_replies:
  "replies (view_of v obo d) (do {
     seeded \<leftarrow> compose_slots v obo d;
     slots \<leftarrow> capture_first (capture_slot v c obo eid) seeded;
     docs \<leftarrow> resolve_names v obo (dt_documents d);
     ctx_json (enc_composed_detail (dt_envelope d) slots docs) })"
  by (intro replies_answers [OF compose_all_appear] replies_answers [OF capture_appears] replies_bind replies_json)
     (auto simp: view_of_def)

text \<open>
  C13. The envelope view discloses no other signer: what is shown is the envelope the envelope service
  answered for this person, and, however its jobs and names were resolved, each of its slots in
  turn appears as the rule says to the person and to the identity their token names, so somebody
  who does not own the envelope sees no identity code at all and no return address but their own.
\<close>

theorem view_withholds_other_signers:
  assumes "rsp_body (rsp (final (getEnvelope v q) s)) = BJson j"
  shows "\<exists>c obo d slots docs. ap_envelope (app v) = Some c \<and>
    answer (onBehalf v) s = Some obo \<and> ob_sub obo = ses_subject (cur_ses s) \<and>
    answer (Envelope_Get v c obo (rq_param q ''id'')) (final (onBehalf v) s) = Inr d \<and>
    j = enc_composed_detail (dt_envelope d) slots docs \<and>
    list_all2 (appears (idc_key v) (ev_owner (dt_envelope d)) (ses_subject (cur_ses s))
        (serial_from_token v (ob_token obo)))
      (case dt_slots d of None \<Rightarrow> [] | Some ss \<Rightarrow> ss) slots"
proof -
  obtain c where c: "ap_envelope (app v) = Some c"
    using assms by (cases "ap_envelope (app v)") (auto simp: getEnvelope_def envelopeReady_def world_final)
  obtain obo where obo: "answer (onBehalf v) s = Some obo"
    using assms onBehalf_none [of v s]
    by (cases "answer (onBehalf v) s") (auto simp: getEnvelope_def envelopeReady_def c with_delegation_def world_final)
  have sub: "ob_sub obo = ses_subject (cur_ses s)" using wp_onBehalf_subject [of v s] obo by (simp add: wp_run)
  let ?u = "final (onBehalf v) s" and ?get = "Envelope_Get v c obo (rq_param q ''id'')"
  have run: "final (getEnvelope v q) s = final (case answer ?get ?u of Inl e \<Rightarrow> relayErr v e | Inr d \<Rightarrow> do {
     seeded \<leftarrow> compose_slots v obo d;
     slots \<leftarrow> capture_first (capture_slot v c obo (rq_param q ''id'')) seeded;
     docs \<leftarrow> resolve_names v obo (dt_documents d);
     ctx_json (enc_composed_detail (dt_envelope d) slots docs) }) (final ?get ?u)"
    by (simp add: getEnvelope_def envelopeReady_def c with_delegation_def obo or_relay_def final_bind)
  show ?thesis
  proof (cases "answer ?get ?u")
    case (Inl e)
    then show ?thesis
      using assms replies_relayErr [of "\<lambda>_. False" v e] by (simp add: run replies_def wp_run)
  next
    case (Inr d)
    then have "view_of v obo d j"
      using assms view_replies [of v obo d c "rq_param q ''id''"] by (simp add: run replies_def wp_run)
    then show ?thesis using c obo sub Inr unfolding view_of_def by metis
  qed
qed

definition at_desk :: bff where
  "at_desk = signed_in\<lparr>cur_sid := ''sid1'', cur_ses := demo_session\<rparr>"

lemma at_desk_simps [simp]: "cur_ses at_desk = demo_session" "trace at_desk = []"
  "cur_sid at_desk = ''sid1''" "ap_envelope (app demo) = Some \<lparr>sv_base = ''http://envelope'', sv_audience = ''svc:envelope''\<rparr>"
  by (simp_all add: at_desk_def signed_in_def boot_def)

text \<open>An empty answer of the envelope service decodes as the zero value.\<close>

lemma demo_call:
  assumes "ob_token obo \<noteq> []"
  shows "answer (doJSONOnBehalf demo svc aud sc m u obo b ct (out_json dec zero)) w = Inr zero"
    "trace (final (doJSONOnBehalf demo svc aud sc m u obo b ct (out_json dec zero)) w) =
       EObo \<lparr>oc_timeout = None, oc_audience = aud, oc_scope = sc, oc_sub = ob_sub obo,
        oc_token = ob_token obo, oc_method = m, oc_url = u, oc_content_type = ct, oc_body = b\<rparr> # trace w"
    "rsp (final (doJSONOnBehalf demo svc aud sc m u obo b ct (out_json dec zero)) w) = rsp w"
  using assms
  by (simp_all add: doJSONOnBehalf_def doOnBehalf_def on_ok_def world_final read_json_def ok_status_def
      out_json_def payload_empty_def)

theorem view_withholds_other_signers_witness:
  "\<exists>j. rsp_body (rsp (final (getEnvelope demo demo_request) at_desk)) = BJson j \<and>
    (\<exists>c obo d slots docs. ap_envelope (app demo) = Some c \<and>
      answer (onBehalf demo) at_desk = Some obo \<and> ob_sub obo = ses_subject (cur_ses at_desk) \<and>
      answer (Envelope_Get demo c obo (rq_param demo_request ''id'')) (final (onBehalf demo) at_desk) = Inr d \<and>
      j = enc_composed_detail (dt_envelope d) slots docs \<and>
      list_all2 (appears (idc_key demo) (ev_owner (dt_envelope d)) (ses_subject (cur_ses at_desk))
          (serial_from_token demo (ob_token obo)))
        (case dt_slots d of None \<Rightarrow> [] | Some ss \<Rightarrow> ss) slots)"
proof -
  obtain j where j: "rsp_body (rsp (final (getEnvelope demo demo_request) at_desk)) = BJson j"
    by (simp add: getEnvelope_def envelopeReady_def demo_delegated or_relay_def Envelope_Get_def
        env_get_def demo_call world_final)
  show ?thesis by (rule exI [of _ j], rule conjI [OF j view_withholds_other_signers [OF j]])
qed

section \<open>The captured name\<close>

text \<open>
  The name of the viewer is captured at one place at most: the loop stops at the first slot
  that is theirs and unnamed, runs the capture there once, and leaves every other slot and,
  when there is no such slot, everything as it is.
\<close>

lemma one_name_is_captured:
  "run_state (capture_first f xs) s = (case dropWhile named_or_not_yours xs of
     [] \<Rightarrow> (xs, s)
   | x # zs \<Rightarrow> (takeWhile named_or_not_yours xs @ answer (f x) s # zs, final (f x) s))"
proof (induction xs)
  case (Cons x xs)
  show ?case
    by (cases "named_or_not_yours x"; cases "dropWhile named_or_not_yours xs")
       (simp_all add: Cons.IH answer_def final_def case_prod_beta del: dropWhile_eq_Nil_conv)
qed simp

section \<open>Whom an invitation can name\<close>

definition natural_or_open :: "env \<Rightarrow> slot_input \<Rightarrow> bool" where
  "natural_or_open v x \<longleftrightarrow> si_identity_ref x = [] \<or>
     (\<exists>semantics. idc_parse v (si_identity_ref x) = Inr (semantics, True))"

lemma invite_natural:
  "inviteIdentity v name cd country = Inr r \<Longrightarrow> r = [] \<or> (\<exists>sem. idc_parse v r = Inr (sem, True))"
  by (auto simp: inviteIdentity_def split: if_splits sum.splits prod.splits)

lemma slot_inputs_natural: "slot_inputs v i ss = Inr xs \<Longrightarrow> list_all (natural_or_open v) xs"
proof (induction v i ss arbitrary: xs rule: slot_inputs.induct)
  case (2 v i s ss)
  then show ?case
    by (auto simp: natural_or_open_def slot_input_of_def dest: invite_natural split: sum.splits)
qed simp

text \<open>What a call to the envelope service may carry when an envelope or a slot is created.\<close>

definition invites_people :: "env \<Rightarrow> obo_call \<Rightarrow> bool" where
  "invites_people v c \<longleftrightarrow> (oc_scope c = scopeEnvWrite \<longrightarrow>
     (\<exists>inp. oc_body c = Doc (enc_create_input inp) \<and> list_all (natural_or_open v) (ci_slots inp)) \<or>
     (\<exists>x. oc_body c = Doc (enc_slot_input x) \<and> natural_or_open v x))"

lemma keeps_invites_create:
  "list_all (natural_or_open v) (ci_slots inp) \<Longrightarrow> keeps (made (invites_people v) sub old) (Create v c obo inp)"
  unfolding Create_def env_write_def by (rule keeps_made_call) (auto simp: invites_people_def)

lemma keeps_invites_slot:
  "natural_or_open v x \<Longrightarrow> keeps (made (invites_people v) sub old) (AddSlot v c obo eid x)"
  unfolding AddSlot_def env_write_def
  by (intro keeps_on_ok keeps_made_call keeps_return) (auto simp: invites_people_def)

lemma keeps_invites_bundle: "keeps (made (invites_people v) sub old) (Bundle v c obo ids)"
  unfolding Bundle_def doc_post_def
  by (rule keeps_made_call) (simp add: invites_people_def scopeDocWrite_def scopeEnvWrite_def)

lemma keeps_invites_create_with: "keeps (made (invites_people v) sub old) (create_with v c obo req docs)"
  unfolding create_with_def
  by (intro keeps_case_sum made.keeps_primitives made.keeps_or_relay keeps_invites_create keeps_bind)
     (auto dest: slot_inputs_natural)

lemma keeps_invites:
  "keeps (made (invites_people v) sub old) (createEnvelope v q)"
  "keeps (made (invites_people v) sub old) (addEnvelopeSlot v q)"
proof -
  show "keeps (made (invites_people v) sub old) (createEnvelope v q)"
    unfolding createEnvelope_def one_document_def
    by (intro made.keeps_ready made.keeps_with_delegation keeps_case_sum keeps_case_option keeps_if
        made.keeps_primitives made.keeps_or_relay keeps_invites_create_with keeps_invites_bundle)
  have n: "inviteIdentity v name cd country = Inr r \<Longrightarrow> natural_or_open v (slot_input_of r x)" for name cd country r x
    using invite_natural by (fastforce simp: natural_or_open_def slot_input_of_def)
  show "keeps (made (invites_people v) sub old) (addEnvelopeSlot v q)"
    unfolding addEnvelopeSlot_def
    by (intro made.keeps_ready made.keeps_with_delegation keeps_case_sum made.keeps_primitives
        made.keeps_or_relay keeps_invites_slot keeps_bind n)
qed

text \<open>
  C29. Only people are invited: whatever is asked for, an envelope or slot is created at the
  envelope service with identity codes that are empty or parse as a natural person's; a request
  naming an organisation creates nothing.
\<close>

theorem only_people_are_invited:
  assumes "EObo c \<in> set es" "oc_scope c = scopeEnvWrite"
    and "trace (final (createEnvelope v q) s) = es @ trace s \<or> trace (final (addEnvelopeSlot v q) s) = es @ trace s"
  shows "(\<exists>inp. oc_body c = Doc (enc_create_input inp) \<and> list_all (natural_or_open v) (ci_slots inp)) \<or>
    (\<exists>x. oc_body c = Doc (enc_slot_input x) \<and> natural_or_open v x)"
proof -
  have "made (invites_people v) (ses_subject (cur_ses s)) (trace s) (final (createEnvelope v q) s)"
    "made (invites_people v) (ses_subject (cur_ses s)) (trace s) (final (addEnvelopeSlot v q) s)"
    using keeps_final [OF keeps_invites(1) made_start] keeps_final [OF keeps_invites(2) made_start] by blast+
  then have "invites_people v c" using made_calls assms by blast
  then show ?thesis using assms(2) by (simp add: invites_people_def)
qed

definition invitation :: "string list \<Rightarrow> string \<Rightarrow> create_envelope" where
  "invitation docs identity = \<lparr>ce_title = ''Lease'', ce_order_policy = ''parallel'', ce_profile = [],
     ce_documents = docs, ce_slots = [\<lparr>se_order_index = 0, se_role = ''signer'', se_flow = [],
       se_required_loa = [], se_identity_ref = identity, se_country = ''LV''\<rparr>]\<rparr>"

definition create_request :: "string list \<Rightarrow> string \<Rightarrow> request" where
  "create_request docs identity = demo_request\<lparr>rq_body := Doc (enc_struct create_envelope_fields (invitation docs identity))\<rparr>"

lemma create_request_body [simp]:
  assumes "list_all (\<lambda>d. d \<noteq> []) docs"
  shows "create_envelope_body (create_request docs identity) = Inr (invitation docs identity)"
  using assms
  by (intro create_envelope_read)
     (simp_all add: create_request_def valid_create_envelope_def invitation_def valid_slot_entry_def
        valid_country_def is_alpha_def code_def int64_def)

lemma demo_identity_codes [simp]:
  "idc_canonical demo cd k = Inr cd" "idc_parse demo cd = Inr (''NTR'', cd \<noteq> ''NTRLV-1'')"
  by (simp_all add: demo_def)

lemma demo_creates:
  "\<exists>c. oc_scope c = scopeEnvWrite \<and>
    trace (final (createEnvelope demo (create_request [''d1''] ''PNOLV-1'')) at_desk) = [EObo c, EClock] @ trace at_desk"
  by (simp add: createEnvelope_def envelopeReady_def demo_delegated invitation_def
      one_document_def create_with_def inviteIdentity_def or_relay_def Create_def env_write_def
      demo_call world_final set_status_def)

theorem only_people_are_invited_witness:
  "\<exists>c \<in> {c. EObo c \<in> set (trace (final (createEnvelope demo (create_request [''d1''] ''PNOLV-1'')) at_desk))}.
    (\<exists>inp. oc_body c = Doc (enc_create_input inp) \<and> list_all (natural_or_open demo) (ci_slots inp)) \<or>
    (\<exists>x. oc_body c = Doc (enc_slot_input x) \<and> natural_or_open demo x)"
proof -
  obtain c where c: "oc_scope c = scopeEnvWrite"
    "trace (final (createEnvelope demo (create_request [''d1''] ''PNOLV-1'')) at_desk) = [EObo c, EClock] @ trace at_desk"
    using demo_creates by blast
  have "EObo c \<in> set [EObo c, EClock]" by simp
  from only_people_are_invited [OF this c(1) disjI1 [OF c(2)]] show ?thesis
    using c(2) by (intro bexI [of _ c]) simp_all
qed

section \<open>Several documents\<close>

lemma final_create:
  assumes "ap_envelope (app v) = Some c" "answer (onBehalf v) s = Some obo" "create_envelope_body q = Inr req"
  shows "final (createEnvelope v q) s =
    final (one_document v obo (ce_documents req) (create_with v c obo req)) (final (onBehalf v) s)"
  using assms by (simp add: createEnvelope_def envelopeReady_def with_delegation_def final_bind)

text \<open>
  Creating an envelope over several documents without a configured document service does
  not answer that the service is missing: the nil client is dereferenced, and the framework's
  recovery answers an internal error.
\<close>

theorem create_needs_the_document_service:
  assumes "ap_documents (app v) = None" "ap_envelope (app v) = Some c"
    and "answer (onBehalf v) s = Some obo"
    and "create_envelope_body q = Inr req" "2 \<le> length (ce_documents req)"
  shows "rsp_body (rsp (final (createEnvelope v q) s)) = BError Panic \<and>
    trace (final (createEnvelope v q) s) = trace (final (onBehalf v) s)"
  using assms by (simp add: final_create one_document_def world_final)

definition no_documents :: env where
  "no_documents = demo\<lparr>app := demo_app\<lparr>ap_documents := None\<rparr>\<rparr>"

theorem create_needs_the_document_service_witness:
  "rsp_body (rsp (final (createEnvelope no_documents (create_request [''d1'', ''d2''] ''PNOLV-1'')) at_desk))
    = BError Panic"
proof -
  have "answer (onBehalf no_documents) at_desk = Some \<lparr>ob_sub = ''alice'', ob_token = ''at1''\<rparr>"
    by (simp add: onBehalf_def freshToken_def now_def world_final near_expiry_def Unix_def
        refreshLeeway_def second_def demo_session_def no_documents_def)
  from create_needs_the_document_service [OF _ _ this, of _ "create_request [''d1'', ''d2''] ''PNOLV-1''"
      "invitation [''d1'', ''d2''] ''PNOLV-1''"]
  show ?thesis by (simp add: no_documents_def invitation_def)
qed

text \<open>
  A refused invitation still packs the documents: the bundle of several documents is made
  before the invited identities are looked at, so when one of them is refused the answer is that
  refusal, nothing is created, and the document service has absorbed the loose uploads.
\<close>

lemma refused_invitation_has_bundled:
  assumes "ap_documents (app v) = Some dc" "ap_envelope (app v) = Some c"
    and "answer (onBehalf v) s = Some obo" "ob_token obo \<noteq> []"
    and "create_envelope_body q = Inr req" "2 \<le> length (ce_documents req)"
    and "answer (Bundle v dc obo (Some (ce_documents req))) (final (onBehalf v) s) = Inr b"
    and "slot_inputs v 0 (ce_slots req) = Inl e"
  shows "rsp_body (rsp (final (createEnvelope v q) s)) = BError e \<and>
    (\<exists>bundle. oc_method bundle = ''POST'' \<and> oc_url bundle = sv_base dc @ ''/api/v1/documents/bundle'' \<and>
      trace (final (createEnvelope v q) s) = EObo bundle # trace (final (onBehalf v) s))"
  using assms
  by (simp add: final_create one_document_def or_relay_def create_with_def world_final
      Bundle_def doc_post_def doJSONOnBehalf_trace)

lemma refused_invitation_has_bundled_witness:
  "rsp_body (rsp (final (createEnvelope demo (create_request [''d1'', ''d2''] ''NTRLV-1'')) at_desk))
    = BError (ParamInvalid ''slots[0].identityRef'' ''identityRef'' (organisation ''NTR''))"
proof -
  have o: "answer (onBehalf demo) at_desk = Some \<lparr>ob_sub = ''alice'', ob_token = ''at1''\<rparr>"
    by (simp add: demo_fresh)
  have b: "answer (Bundle demo \<lparr>sv_base = ''http://document'', sv_audience = ''svc:document''\<rparr>
      \<lparr>ob_sub = ''alice'', ob_token = ''at1''\<rparr> (Some [''d1'', ''d2''])) (final (onBehalf demo) at_desk) = Inr zero_meta"
    by (simp add: Bundle_def doc_post_def demo_call)
  have d: "ap_documents (app demo) = Some \<lparr>sv_base = ''http://document'', sv_audience = ''svc:document''\<rparr>"
    by (simp add: demo_app_def)
  have z: "itoa 0 = ''0''" by code_simp
  from refused_invitation_has_bundled [OF d _ o, of _ "create_request [''d1'', ''d2''] ''NTRLV-1''"
      "invitation [''d1'', ''d2''] ''NTRLV-1''" zero_meta] b
  show ?thesis by (simp add: invitation_def inviteIdentity_def z)
qed

end
