(* ===== verification/SigningTheorems.thy ===== *)
theory SigningTheorems
  imports EnvelopeTheorems FlowTheorems StoreViews
begin

text \<open>
  What the signing surface guarantees: when a signing is begun and with what, where the browser
  comes back to, how long a poll may hold, and how validation answers are remembered.
\<close>

section \<open>Beginning a signing\<close>

lemma final_sign:
  assumes "ap_envelope (app v) = Some c" "ap_signflow (app v) = Some sf"
    and "answer (onBehalf v) s = Some obo" "sign_slot_body q = Inr req"
    and "ses_capabilities (cur_ses (final (onBehalf v) s)) = caps"
  shows "final (signEnvelopeSlot v q) s = final
    (if missing_certificate req caps then ctx_error v (certificate_problem (ss_flow req))
     else or_relay v (SlotEligible v c obo (rq_param q ''id'') (rq_param q ''slot'')) (\<lambda>eligible.
       if \<not> eligible then ctx_error v not_eligible
       else start_signing v c sf obo (rq_param q ''id'') (rq_param q ''slot'')
              (begin_input_for v (rq_param q ''id'') (rq_param q ''slot'') req caps)))
    (final (onBehalf v) s)"
  using assms
  by (simp add: signEnvelopeSlot_def envelopeReady_def signingReady_def with_delegation_def final_bind
      final_gets cong: if_cong)

text \<open>
  A card signing without both certificates reaches no service: if the app supplied no signing
  certificate, or neither the app nor the sign-in an authentication certificate, the answer is
  400 and, the person's token apart, nothing was asked.
\<close>

lemma card_signing_needs_both_certificates:
  assumes "ap_envelope (app v) = Some c" "ap_signflow (app v) = Some sf"
    and "answer (onBehalf v) s = Some obo" "sign_slot_body q = Inr req" "t = final (onBehalf v) s"
    and "ss_flow req \<in> {''webEid'', ''legacyEid''}"
    and "ss_signing_certificate req = [] \<or> (ss_auth_certificate req = [] \<and>
      (case ses_capabilities (cur_ses t) of None \<Rightarrow> True | Some caps \<Rightarrow> cap_auth_cert caps = []))"
  shows "final (signEnvelopeSlot v q) s =
    t\<lparr>rsp := (rsp t)\<lparr>rsp_status := 400, rsp_body := BError (certificate_problem (ss_flow req))\<rparr>\<rparr>"
proof -
  have "missing_certificate req (ses_capabilities (cur_ses t))"
    using assms(6,7) by (auto simp: missing_certificate_def inBrowserFlow_def flowWebEid_def
        flowLegacyEid_def auth_cert_for_def split: option.splits)
  then show ?thesis using assms(5)
    by (simp add: final_sign [OF assms(1-4) refl] final_ctx_error error_status_def
        certificate_problem_def problem_def)
qed

definition signing :: "string \<Rightarrow> string \<Rightarrow> sign_slot" where
  "signing f cert = \<lparr>ss_document_id = ''d1'', ss_flow = f, ss_sig_format = ''pades'',
     ss_signing_certificate = cert, ss_auth_certificate = [], ss_seal_id = []\<rparr>"

definition sign_request :: "string \<Rightarrow> string \<Rightarrow> request" where
  "sign_request f cert = demo_request\<lparr>rq_body := Doc (enc_struct sign_slot_fields (signing f cert))\<rparr>"

lemma demo_signs:
  "answer (onBehalf demo) at_desk = Some \<lparr>ob_sub = ''alice'', ob_token = ''at1''\<rparr>"
  "ap_signflow (app demo) = Some \<lparr>sv_base = ''http://signflow'', sv_audience = ''svc:signflow''\<rparr>"
  "f \<noteq> [] \<Longrightarrow> sign_slot_body (sign_request f cert) = Inr (signing f cert)"
  using sign_slot_read [of "sign_request f cert" "signing f cert"]
  by (simp_all add: demo_fresh sign_request_def valid_sign_slot_def signing_def)

lemma card_signing_needs_both_certificates_witness:
  "\<exists>t. final (signEnvelopeSlot demo (sign_request ''webEid'' ''cert'')) at_desk =
    t\<lparr>rsp := (rsp t)\<lparr>rsp_status := 400, rsp_body := BError (certificate_problem ''webEid'')\<rparr>\<rparr>"
  by (rule exI, rule card_signing_needs_both_certificates [OF at_desk_simps(4) demo_signs(2,1,3) refl,
        of "''webEid''" "''cert''", unfolded signing_def sign_slot.select_convs])
     (simp_all add: demo_fresh demo_session_def)

text \<open>The question whether a slot's turn has come, and a positive answer to it.\<close>

definition eligible_call :: "service \<Rightarrow> on_behalf \<Rightarrow> string \<Rightarrow> string \<Rightarrow> obo_call" where
  "eligible_call c obo eid slotID = \<lparr>oc_timeout = None, oc_audience = sv_audience c,
     oc_scope = scopeEnvRead, oc_sub = ob_sub obo, oc_token = ob_token obo, oc_method = ''GET'',
     oc_url = sv_base c @ slot_path eid slotID @ ''/eligible'', oc_content_type = [], oc_body = no_body\<rparr>"

definition says_eligible :: "gerr + http_resp \<Rightarrow> bool" where
  "says_eligible r \<longleftrightarrow> (\<exists>x e. r = Inr x \<and> ok_status (hr_status x) \<and>
     out_json dec_eligible_only zero_eligible_only (hr_body x) = Inr e \<and> eo_eligible e)"

lemma SlotEligible_run:
  assumes "ob_token obo \<noteq> []"
  shows "trace (final (SlotEligible v c obo eid slotID) s) = EObo (eligible_call c obo eid slotID) # trace s"
    and "answer (SlotEligible v c obo eid slotID) s = Inr True \<longleftrightarrow>
      says_eligible (obo_reply v (EObo (eligible_call c obo eid slotID) # trace s))"
  using assms
  by (auto simp: SlotEligible_def env_get_def doJSONOnBehalf_def doOnBehalf_def on_ok_def world_final
      eligible_call_def says_eligible_def read_json_def split: sum.splits if_splits)

lemma BeginSigning_run:
  assumes "ob_token obo \<noteq> []"
  shows "\<exists>b. trace (final (BeginSigning v sf obo inp) s) = EObo b # trace s \<and> oc_body b = Doc (enc_begin_input inp) \<and>
    oc_scope b = scopeSigCreate"
  using assms
  by (auto simp: BeginSigning_def sig_slow_post_def doJSONOnBehalfSlow_def world_final split: sum.split)

text \<open>A begun signing makes the call that begins it, then at most the one that records its job.\<close>

lemma start_signing_calls:
  assumes "ob_token obo \<noteq> []"
  shows "\<exists>b post. trace (final (start_signing v c sf obo eid slotID inp) s) = post @ EObo b # trace s \<and>
    oc_body b = Doc (enc_begin_input inp) \<and> oc_scope b = scopeSigCreate \<and>
    (\<forall>x. EObo x \<in> set post \<longrightarrow> oc_scope x \<noteq> scopeSigCreate)"
proof -
  let ?u = "final (BeginSigning v sf obo inp) s"
  obtain b where b: "trace ?u = EObo b # trace s" "oc_body b = Doc (enc_begin_input inp)"
    "oc_scope b = scopeSigCreate" using BeginSigning_run [OF assms] by blast
  show ?thesis
  proof (cases "answer (BeginSigning v sf obo inp) s")
    case (Inl e)
    then show ?thesis using b
      by (intro exI [of _ b] exI [of _ "[]"]) (simp add: start_signing_def or_relay_def final_bind answers_only_trace)
  next
    case (Inr j)
    then have "\<exists>x. trace (final (start_signing v c sf obo eid slotID inp) s) = EObo x # trace ?u \<and>
        oc_scope x = scopeEnvTransition"
      using assms by (simp add: start_signing_def or_relay_def world_final SetSlotJob_def env_transition_def
          doJSONOnBehalf_trace set_status_def)
    then obtain x where "trace (final (start_signing v c sf obo eid slotID inp) s) = EObo x # trace ?u"
      "oc_scope x = scopeEnvTransition" by blast
    then show ?thesis using b
      by (intro exI [of _ b] exI [of _ "[EObo x]"]) (simp add: scopeEnvTransition_def scopeSigCreate_def)
  qed
qed

lemma onBehalf_no_calls: "\<exists>es. trace (final (onBehalf v) s) = es @ trace s \<and> (\<forall>c. EObo c \<notin> set es)"
proof -
  have "made (\<lambda>_. False) (ses_subject (cur_ses s)) (trace s) (final (onBehalf v) s)"
    by (rule keeps_final [OF made.keeps_onBehalf made_start])
  then show ?thesis by (simp add: made_def)
qed

lemma SlotEligible_trace:
  "trace (final (SlotEligible v c obo eid slotID) u) \<in> {trace u, EObo (eligible_call c obo eid slotID) # trace u}"
  by (cases "ob_token obo = []")
     (simp_all add: SlotEligible_run(1), simp add: SlotEligible_def env_get_def on_ok_def world_final
        doJSONOnBehalf_trace split: sum.split)

lemma SlotEligible_no_token: "ob_token obo = [] \<Longrightarrow> answer (SlotEligible v c obo eid slotID) u \<noteq> Inr True"
  by (simp add: SlotEligible_def env_get_def on_ok_def answer_def no_token_no_call)

lemma sign_grows:
  "\<exists>es. trace (final (or_relay v (SlotEligible v c obo eid slotID) (\<lambda>eligible.
       if \<not> eligible then ctx_error v not_eligible
       else start_signing v c sf obo eid slotID inp)) u) = es @ trace u"
proof -
  have "keeps (made (\<lambda>_. True) sub old) (or_relay v (SlotEligible v c obo eid slotID) (\<lambda>eligible.
       if \<not> eligible then ctx_error v not_eligible
       else start_signing v c sf obo eid slotID inp))" for sub old
    unfolding SlotEligible_def env_get_def start_signing_def BeginSigning_def sig_slow_post_def
      SetSlotJob_def env_transition_def
    by (intro made.keeps_or_relay keeps_on_ok keeps_made_call keeps_made_slow keeps_if keeps_bind
        keeps_return made.keeps_primitives TrueI)
  from keeps_final [OF this made_start] show ?thesis by (auto simp: made_def)
qed

lemma eligibility_before_signing:
  assumes "trace (final (or_relay v (SlotEligible v c obo eid slotID) (\<lambda>eligible.
       if \<not> eligible then ctx_error v not_eligible
       else start_signing v c sf obo eid slotID inp)) u) = es @ trace u"
    and "EObo x \<in> set es" "oc_scope x = scopeSigCreate"
  shows "\<exists>post. es @ trace u = post @ EObo x # EObo (eligible_call c obo eid slotID) # trace u \<and>
    says_eligible (obo_reply v (EObo (eligible_call c obo eid slotID) # trace u)) \<and>
    oc_body x = Doc (enc_begin_input inp)"
proof (cases "answer (SlotEligible v c obo eid slotID) u \<noteq> Inr True")
  case True
  then have "es @ trace u = trace (final (SlotEligible v c obo eid slotID) u)"
    using assms(1) by (auto simp: or_relay_def final_bind answers_only_trace split: sum.splits)
  then have "es = [] \<or> es = [EObo (eligible_call c obo eid slotID)]"
    using SlotEligible_trace [of v c obo eid slotID u] by (auto simp: append_eq_Cons_conv)
  then show ?thesis using assms(2,3) by (auto simp: eligible_call_def scopeEnvRead_def scopeSigCreate_def)
next
  case False
  then have tok: "ob_token obo \<noteq> []" using SlotEligible_no_token by blast
  let ?w = "final (SlotEligible v c obo eid slotID) u"
  obtain b post where b: "trace (final (start_signing v c sf obo eid slotID inp) ?w) = post @ EObo b # trace ?w"
    "oc_body b = Doc (enc_begin_input inp)" "\<forall>x. EObo x \<in> set post \<longrightarrow> oc_scope x \<noteq> scopeSigCreate"
    using start_signing_calls [OF tok] by blast
  then have t: "es @ trace u = post @ EObo b # EObo (eligible_call c obo eid slotID) # trace u"
    using assms(1) False SlotEligible_run(1) [OF tok, of v c eid slotID u]
    by (simp add: or_relay_def final_bind)
  then have "es = post @ [EObo b, EObo (eligible_call c obo eid slotID)]"
    using append_same_eq [of es "trace u" "post @ [EObo b, EObo (eligible_call c obo eid slotID)]"] by simp
  then have "x = b" using assms(2,3) b(3) by (auto simp: eligible_call_def scopeEnvRead_def scopeSigCreate_def)
  then show ?thesis using t b(2) False SlotEligible_run(2) [OF tok, of v c eid slotID u] by blast
qed

text \<open>
  C12. No signing is begun out of turn: a call that begins a signing directly follows a call
  asking the envelope service whether this slot may sign, made for the same person and answered
  that it may, and it carries what \<open>begin_input_for\<close> assembles for this slot.
\<close>

theorem signing_needs_its_turn:
  assumes "EObo x \<in> set es" "oc_scope x = scopeSigCreate"
    and "trace (final (signEnvelopeSlot v q) s) = es @ trace s"
  shows "\<exists>c obo req caps pre post.
    trace (final (signEnvelopeSlot v q) s)
      = post @ EObo x # EObo (eligible_call c obo (rq_param q ''id'') (rq_param q ''slot'')) # pre \<and>
    says_eligible (obo_reply v (EObo (eligible_call c obo (rq_param q ''id'') (rq_param q ''slot'')) # pre)) \<and>
    ob_sub obo = ses_subject (cur_ses s) \<and> sign_slot_body q = Inr req \<and>
    oc_body x = Doc (enc_begin_input (begin_input_for v (rq_param q ''id'') (rq_param q ''slot'') req caps))"
proof -
  let ?u = "final (onBehalf v) s"
  obtain es0 where u: "trace ?u = es0 @ trace s" "\<forall>c. EObo c \<notin> set es0"
    using onBehalf_no_calls by blast
  have none: "trace (final (signEnvelopeSlot v q) s) \<noteq> trace ?u" "trace (final (signEnvelopeSlot v q) s) \<noteq> trace s"
    using assms u by auto
  obtain c sf obo req where ok: "ap_envelope (app v) = Some c" "ap_signflow (app v) = Some sf"
    "answer (onBehalf v) s = Some obo" "sign_slot_body q = Inr req"
    using none by (auto simp: signEnvelopeSlot_def envelopeReady_def signingReady_def with_delegation_def
        world_final split: option.splits sum.splits)
  let ?caps = "ses_capabilities (cur_ses ?u)"
  note f = final_sign [OF ok refl]
  have m: "\<not> missing_certificate req ?caps" using none(1) by (auto simp: f final_ctx_error)
  obtain es1 where es1: "trace (final (signEnvelopeSlot v q) s) = es1 @ trace ?u"
    using sign_grows [of v c obo "rq_param q ''id''" "rq_param q ''slot''" sf _ ?u] m by (fastforce simp: f)
  then have "es = es1 @ es0" using assms(3) u(1) by (metis append.assoc append_same_eq)
  then have x: "EObo x \<in> set es1" using assms(1) u(2) by auto
  have "\<exists>post. es1 @ trace ?u = post @ EObo x # EObo (eligible_call c obo (rq_param q ''id'') (rq_param q ''slot'')) # trace ?u \<and>
    says_eligible (obo_reply v (EObo (eligible_call c obo (rq_param q ''id'') (rq_param q ''slot'')) # trace ?u)) \<and>
    oc_body x = Doc (enc_begin_input (begin_input_for v (rq_param q ''id'') (rq_param q ''slot'') req ?caps))"
    by (rule eligibility_before_signing [OF _ x assms(2), of v _ _ _ _ sf]) (use es1 m in \<open>simp add: f\<close>)
  moreover have "ob_sub obo = ses_subject (cur_ses s)"
    using wp_onBehalf_subject [of v s] ok(3) by (simp add: wp_run)
  ultimately show ?thesis unfolding es1 using ok(4) by blast
qed

definition on_turn :: env where
  "on_turn = demo\<lparr>obo_reply := \<lambda>_. Inr (empty_ok\<lparr>hr_body := Doc (JObj [(''eligible'', JBool True)])\<rparr>)\<rparr>"

lemma on_turn_signs:
  "\<exists>es x. EObo x \<in> set es \<and> oc_scope x = scopeSigCreate \<and>
     trace (final (signEnvelopeSlot on_turn (sign_request ''smartId'' [])) at_desk) = es @ trace at_desk"
proof -
  let ?e = "\<lparr>sv_base = ''http://envelope'', sv_audience = ''svc:envelope''\<rparr>"
  let ?f = "\<lparr>sv_base = ''http://signflow'', sv_audience = ''svc:signflow''\<rparr>"
  let ?o = "\<lparr>ob_sub = ''alice'', ob_token = ''at1''\<rparr>" and ?u = "final (onBehalf on_turn) at_desk"
  have o: "ap_envelope (app on_turn) = Some ?e" "ap_signflow (app on_turn) = Some ?f"
    by (simp_all add: on_turn_def)
  have d: "answer (onBehalf on_turn) at_desk = Some ?o" "trace ?u = [EClock]" "cur_ses ?u = demo_session"
    by (simp_all add: onBehalf_def freshToken_def now_def world_final near_expiry_def Unix_def
        refreshLeeway_def second_def demo_session_def on_turn_def)
  have p: "rq_param (sign_request f cert) n = ''p1''" for f cert n
    by (simp add: sign_request_def demo_request_def)
  have cap: "ses_capabilities demo_session = None" "ss_flow (signing f cert) = f" for f cert
    by (simp_all add: demo_session_def signing_def)
  have "says_eligible (obo_reply on_turn tr)" for tr
    by (simp add: says_eligible_def on_turn_def empty_ok_def ok_status_def out_json_def payload_empty_def
        decode_def dec_eligible_only_def dec_struct_def bool_field_def zero_eligible_only_def
        find_field_def fold_name_def set_bool_def)
  then have e: "answer (SlotEligible on_turn ?e ?o ''p1'' ''p1'') ?u = Inr True"
    using SlotEligible_run(2) [of ?o] by simp
  obtain b post where b: "trace (final (start_signing on_turn ?e ?f ?o ''p1'' ''p1''
      (begin_input_for on_turn ''p1'' ''p1'' (signing ''smartId'' []) None)) (final (SlotEligible on_turn ?e ?o ''p1'' ''p1'') ?u))
      = post @ EObo b # trace (final (SlotEligible on_turn ?e ?o ''p1'' ''p1'') ?u)" "oc_scope b = scopeSigCreate"
    using start_signing_calls [of ?o] by (metis list.distinct(1) on_behalf.select_convs(2))
  show ?thesis
    by (rule exI [of _ "post @ EObo b # trace (final (SlotEligible on_turn ?e ?o ''p1'' ''p1'') ?u)"],
        rule exI [of _ b])
       (simp add: final_sign [OF o d(1) demo_signs(3) refl] d(3) cap p
          missing_certificate_def inBrowserFlow_def flowWebEid_def flowLegacyEid_def
          or_relay_def final_bind e b)
qed

theorem signing_needs_its_turn_witness:
  "\<exists>x c obo req caps pre post.
    trace (final (signEnvelopeSlot on_turn (sign_request ''smartId'' [])) at_desk)
      = post @ EObo x # EObo (eligible_call c obo (rq_param (sign_request ''smartId'' []) ''id'')
          (rq_param (sign_request ''smartId'' []) ''slot'')) # pre \<and>
    oc_body x = Doc (enc_begin_input (begin_input_for on_turn (rq_param (sign_request ''smartId'' []) ''id'')
      (rq_param (sign_request ''smartId'' []) ''slot'') req caps))"
proof -
  obtain es x where "EObo x \<in> set es" "oc_scope x = scopeSigCreate"
    "trace (final (signEnvelopeSlot on_turn (sign_request ''smartId'' [])) at_desk) = es @ trace at_desk"
    using on_turn_signs by blast
  from signing_needs_its_turn [OF this] show ?thesis by blast
qed

section \<open>What a signing is begun with\<close>

text \<open>
  C30. The addresses a redirect signing comes back to stay on the portal: they are the configured
  origin followed by a path of exactly the segments of this slot's signing screen, in which the
  ids stand escaped and recoverable, whatever they contain; the failure address is the success
  address with the error marker.
\<close>

theorem return_addresses_stay_on_the_portal:
  assumes "SigningSlotReturnURLs c eid slotID = (back, err)" "signingReturnOrigin c \<noteq> []"
  shows "\<exists>path. back = signingReturnOrigin c @ path \<and> err = back @ ''&error=1'' \<and>
    split_on (CHR ''/'') path = [[], ''envelopes'', path_escape eid, ''slots'', path_escape slotID, ''sign?job={jobId}''] \<and>
    unescape False (path_escape eid) = Some eid \<and> unescape False (path_escape slotID) = Some slotID"
proof -
  let ?p = "''/envelopes/'' @ path_escape eid @ ''/slots/'' @ path_escape slotID @ ''/sign?job={jobId}''"
  have "split_on (CHR ''/'') ([] @ concat (map (\<lambda>w. CHR ''/'' # w) [''envelopes'', path_escape eid, ''slots'',
      path_escape slotID, ''sign?job={jobId}''])) =
    [] # [''envelopes'', path_escape eid, ''slots'', path_escape slotID, ''sign?job={jobId}'']"
    by (rule split_on_concat) (simp_all add: path_escape_no_separator)
  then have s: "split_on (CHR ''/'') ?p = [[], ''envelopes'', path_escape eid, ''slots'',
      path_escape slotID, ''sign?job={jobId}'']" by simp
  have "back = signingReturnOrigin c @ ?p" "err = back @ ''&error=1''"
    using assms by (auto simp: SigningSlotReturnURLs_def Let_def)
  then show ?thesis using s unescape_path_escape by blast
qed

theorem return_addresses_stay_on_the_portal_witness:
  "\<exists>path. fst (SigningSlotReturnURLs demo_cfg ''../e?1'' ''s/2'') = signingReturnOrigin demo_cfg @ path \<and>
    split_on (CHR ''/'') path = [[], ''envelopes'', path_escape ''../e?1'', ''slots'', path_escape ''s/2'', ''sign?job={jobId}'']"
proof -
  have o: "signingReturnOrigin demo_cfg \<noteq> []" by (simp add: signingReturnOrigin_def) code_simp
  from return_addresses_stay_on_the_portal [OF surjective_pairing o] show ?thesis by blast
qed

text \<open>
  A seal signing is made with the picked seal or none: when it names a signing identity,
  that is a captured seal of the session, the one picked or, when none was picked, the only one;
  and the certificate is that seal's, or the app's when the seal was captured without one.
\<close>

lemma seal_signs_as_the_picked_seal:
  assumes "ss_flow req = ''eparakstsMobileEseal''"
    and "b = begin_input_for v eid slotID req (Some caps)" "bi_sign_identity_id b \<noteq> []"
  shows "\<exists>x \<in> set (cap_seals caps). seal_id x = bi_sign_identity_id b \<and>
    (ss_seal_id req = seal_id x \<or> ss_seal_id req = [] \<and> cap_seals caps = [x]) \<and>
    bi_signing_certificate b = (if seal_certificate x = [] then ss_signing_certificate req else seal_certificate x)"
proof -
  let ?s = "seal_identity (cap_seals caps) (ss_seal_id req)"
  have b: "bi_sign_identity_id b = fst ?s"
    "bi_signing_certificate b = (if snd ?s = [] then ss_signing_certificate req else snd ?s)"
    using assms(1,2) by (simp_all add: begin_input_for_def sign_identity_def inBrowserFlow_def
        flowWebEid_def flowLegacyEid_def flowEseal_def case_prod_beta)
  show ?thesis
  proof (cases "find (\<lambda>x. seal_id x = ss_seal_id req) (cap_seals caps)")
    case (Some x)
    then have "x \<in> set (cap_seals caps)" "seal_id x = ss_seal_id req"
      by (auto simp: find_Some_iff)
    then show ?thesis using b Some by (intro bexI [of _ x]) (simp_all add: seal_identity_def)
  next
    case None
    then obtain x where x: "cap_seals caps = [x]" "ss_seal_id req = []"
      using b(1) assms(3) by (auto simp: seal_identity_def split: list.splits if_splits)
    then show ?thesis using b None by (intro bexI [of _ x]) (simp_all add: seal_identity_def)
  qed
qed

definition sealed :: capabilities where
  "sealed = \<lparr>cap_sign_identity = ''id'', cap_signing_cert = ''sc'', cap_auth_cert = ''ac'',
     cap_seals = [\<lparr>seal_id = ''s1'', seal_label = ''Seal'', seal_certificate = ''c1''\<rparr>], cap_seals_known = True\<rparr>"

lemma seal_signs_as_the_picked_seal_witness:
  "\<exists>x \<in> set (cap_seals sealed).
    seal_id x = bi_sign_identity_id (begin_input_for demo ''e1'' ''s1'' (signing ''eparakstsMobileEseal'' []) (Some sealed))"
proof -
  have i: "bi_sign_identity_id (begin_input_for demo ''e1'' ''s1'' (signing ''eparakstsMobileEseal'' []) (Some sealed)) \<noteq> []"
    by (simp add: begin_input_for_def sign_identity_def inBrowserFlow_def flowWebEid_def flowLegacyEid_def
        flowEseal_def signing_def sealed_def seal_identity_def case_prod_beta)
  from seal_signs_as_the_picked_seal [OF _ refl i] show ?thesis by (auto simp: signing_def)
qed

section \<open>How long a poll may hold\<close>

definition polls_at_most :: "int \<Rightarrow> service \<Rightarrow> string \<Rightarrow> obo_call \<Rightarrow> bool" where
  "polls_at_most m sf job c \<longleftrightarrow> (\<exists>w. oc_url c = sv_base sf @ signing_path job @ ''/status'' @ w \<and>
     (w = [] \<or> (\<exists>n. 0 < n \<and> n \<le> m \<and> w = ''?wait='' @ itoa n)))"

text \<open>
  A status poll asks the signing service to hold for ten seconds at most, whatever the app
  asks for.
\<close>

lemma status_polls_ten_seconds_at_most:
  assumes "ap_signflow (app v) = Some sf" "EObo c \<in> set es"
    and "trace (final (signingStatus v q) s) = es @ trace s"
  shows "polls_at_most 10 sf (rq_param q ''jobId'') c"
proof -
  have "keeps (made (polls_at_most 10 sf (rq_param q ''jobId'')) sub old)
      (Status v sf obo (rq_param q ''jobId'') (clamped_wait q))" for sub old obo
    unfolding Status_def by (rule keeps_made_slow) (use clamped_wait_le in \<open>auto simp: polls_at_most_def\<close>)
  then have "keeps (made (polls_at_most 10 sf (rq_param q ''jobId'')) sub old) (signingStatus v q)" for sub old
    using assms(1) unfolding signingStatus_def signingReady_def
    by (auto intro!: made.keeps_with_delegation made.keeps_or_relay made.keeps_primitives)
  from made_calls [OF keeps_final [OF this made_start] assms(2,3)] show ?thesis .
qed

lemma status_polls_ten_seconds_at_most_witness:
  "\<exists>c. EObo c \<in> set (trace (final (signingStatus demo demo_request) at_desk)) \<and>
    polls_at_most 10 \<lparr>sv_base = ''http://signflow'', sv_audience = ''svc:signflow''\<rparr> ''p1'' c"
proof -
  have p: "rq_param demo_request ''jobId'' = ''p1''" by (simp add: demo_request_def)
  have "\<exists>c. trace (final (signingStatus demo demo_request) at_desk) = [EObo c, EClock] @ trace at_desk"
    by (simp add: signingStatus_def signingReady_def demo_signs(2) demo_delegated or_relay_def Status_def
        doJSONOnBehalfSlow_def world_final read_json_def ok_status_def out_json_def payload_empty_def)
  then obtain c where c: "trace (final (signingStatus demo demo_request) at_desk) = [EObo c, EClock] @ trace at_desk"
    by blast
  have "EObo c \<in> set [EObo c, EClock]" by simp
  from status_polls_ten_seconds_at_most [OF demo_signs(2) this c] show ?thesis using c p by auto
qed

text \<open>
  The wait for a free chain has no such bound: the envelope id is put into the query as it
  is, so an id that carries a wait of its own asks the signing service for that wait, and the
  clamped one of the request is not the only one.
\<close>

theorem chain_wait_escapes_the_clamp:
  assumes "ap_signflow (app v) = Some sf" "answer (onBehalf v) s = Some obo" "ob_token obo \<noteq> []"
    and "rq_query q ''envelopeId'' = Some (eid @ ''&wait='' @ itoa n)" "0 < n" "clamped_wait q = 0"
  shows "\<exists>c. trace (final (chainFree v q) s) = EObo c # trace (final (onBehalf v) s) \<and>
    oc_url c = ChainFree_url sf eid n"
  using assms
  by (simp add: chainFree_def signingReady_def with_delegation_def final_bind opt_text_def or_relay_trace
      ChainFree_def on_ok_def doJSONOnBehalf_trace final_return ChainFree_url_def split: sum.split)

definition waiting_request :: request where
  "waiting_request = demo_request\<lparr>rq_query := \<lambda>n. if n = ''envelopeId'' then Some (''e1'' @ ''&wait='' @ itoa 600) else None\<rparr>"

theorem chain_wait_escapes_the_clamp_witness:
  "\<exists>c. trace (final (chainFree demo waiting_request) at_desk) = EObo c # trace (final (onBehalf demo) at_desk) \<and>
    oc_url c = ChainFree_url \<lparr>sv_base = ''http://signflow'', sv_audience = ''svc:signflow''\<rparr> ''e1'' 600"
  by (rule chain_wait_escapes_the_clamp [OF demo_signs(2,1)])
     (simp_all add: waiting_request_def clamped_wait_def query_limit_def demo_request_def maxStatusWait_def)

section \<open>Remembered validation answers\<close>

text \<open>What the cache holds, whichever backend it has, and the event and the clock of a lookup.\<close>

definition answers_in :: "env \<Rightarrow> (event list \<Rightarrow> gotime) \<Rightarrow> bff \<Rightarrow> (string \<rightharpoonup> entry)" where
  "answers_in v rt s = (if ap_redis (app v) then redis_db (redis_reply v) rt (trace s) else answers s)"

definition lookup_event :: "env \<Rightarrow> string \<Rightarrow> event" where
  "lookup_event v key = (if ap_redis (app v) then ERedis (RGet key) else EClock)"

definition cache_clock :: "env \<Rightarrow> (event list \<Rightarrow> gotime) \<Rightarrow> event list \<Rightarrow> gotime" where
  "cache_clock v rt = (if ap_redis (app v) then rt else clock v)"

definition remembered :: "env \<Rightarrow> (event list \<Rightarrow> gotime) \<Rightarrow> string \<Rightarrow> entry option \<Rightarrow> string \<Rightarrow> bff \<Rightarrow> bool" where
  "remembered v rt k a sub s \<longleftrightarrow> answers_in v rt s (answer_prefix @ k) = a \<and> ses_subject (cur_ses s) = sub"

lemma answers_event: "\<not> is_write e \<Longrightarrow> answers_in v rt (s\<lparr>trace := e # trace s\<rparr>) = answers_in v rt s"
  by (simp add: answers_in_def db_event del: redis_db.simps(2))

lemma answers_rsp [simp]: "answers_in v rt (s\<lparr>rsp := r\<rparr>) = answers_in v rt s"
  by (simp add: answers_in_def)

interpretation cached: session_invariant "remembered v rt k a sub" sub for v rt k a sub
  by unfold_locales
     (simp_all add: remembered_def answers_event, simp_all add: answers_in_def put_entry_def split: if_splits)

lemma onBehalf_answers:
  "answers_in v rt (final (onBehalf v) s) (answerKey u kind i) = answers_in v rt s (answerKey u kind i)"
  "ses_subject (cur_ses (final (onBehalf v) s)) = ses_subject (cur_ses s)"
  using keeps_final [OF cached.keeps_onBehalf, of v rt "u @ '':'' @ kind @ '':'' @ i"
      "answers_in v rt s (answerKey u kind i)" "ses_subject (cur_ses s)" s v]
  by (auto simp: remembered_def answerKey_def)

text \<open>The two routes that answer a validation: the kind, the parameter and the call of each.\<close>

definition validation_routes ::
  "((env \<Rightarrow> request \<Rightarrow> unit act) \<times> string \<times> string \<times>
    (env \<Rightarrow> service \<Rightarrow> on_behalf \<Rightarrow> string \<Rightarrow> (gerr + validation) act)) list" where
  "validation_routes = [
     (validateDocument, ''doc'', ''id'', ValidateDocument),
     (signatureValidation, ''sig'', ''sigId'', Validate_signature)]"

lemma fetch_keeps:
  assumes "(h, kind, prm, fetch) \<in> set validation_routes"
  shows "answers_in v rt (final (fetch v' c obo did) u) = answers_in v rt u"
    and "cur_ses (final (fetch v' c obo did) u) = cur_ses u"
  using assms
  by (auto simp: validation_routes_def ValidateDocument_def Validate_signature_def sig_slow_post_def
      doJSONOnBehalfSlow_def doJSONOnBehalf_def doOnBehalf_def on_ok_def world_final answers_event split: sum.split)

lemma final_validation:
  assumes "(h, kind, prm, fetch) \<in> set validation_routes" "ap_signflow (app v) = Some sf"
    and "answer (onBehalf v) s = Some obo"
  shows "final (h v q) s = final (answer_with v q (answerKey (ses_subject (cur_ses s)) kind (rq_param q prm))
      (fetch v sf obo (rq_param q prm))) (final (onBehalf v) s)"
  using assms wp_onBehalf_subject [of v s]
  by (auto simp: validation_routes_def validateDocument_def signatureValidation_def signingReady_def
      with_delegation_def final_bind wp_run)

text \<open>The first answer is stored; a stored answer that lives is served as it was stored.\<close>

lemma answer_Get_spec:
  assumes "reliable v rt"
  shows "answer (answer_Get v key) u = get_entry (cache_clock v rt (lookup_event v key # trace u)) key (answers_in v rt u)"
    and "answers_in v rt u key = None \<Longrightarrow> answers_in v rt (final (answer_Get v key) u) key = None"
    and "cur_ses (final (answer_Get v key) u) = cur_ses u"
    and "answers_in v rt u key = Some e \<Longrightarrow> live (cache_clock v rt (lookup_event v key # trace u)) e \<Longrightarrow>
      final (answer_Get v key) u = u\<lparr>trace := lookup_event v key # trace u\<rparr>"
proof -
  consider (redis) "ap_redis (app v)" "redis_reply v = redis_server rt" | (memory) "\<not> ap_redis (app v)"
    using assms by (auto simp: reliable_def)
  then show "answer (answer_Get v key) u = get_entry (cache_clock v rt (lookup_event v key # trace u)) key (answers_in v rt u)"
    and "answers_in v rt u key = None \<Longrightarrow> answers_in v rt (final (answer_Get v key) u) key = None"
    and "cur_ses (final (answer_Get v key) u) = cur_ses u"
    and "answers_in v rt u key = Some e \<Longrightarrow> live (cache_clock v rt (lookup_event v key # trace u)) e \<Longrightarrow>
      final (answer_Get v key) u = u\<lparr>trace := lookup_event v key # trace u\<rparr>"
    by (cases; auto simp: answer_Get_def redis_def now_def world_final answers_in_def lookup_event_def cache_clock_def
        redis_server_def redis_read_def redis_bytes_def get_entry_def db_server split: option.split)+
qed

lemma answer_Set_spec:
  "reliable v rt \<Longrightarrow> answers_in v rt (final (answer_Set v ttl key b) u) key
     = Some (b, cache_clock v rt (trace (final (answer_Set v ttl key b) u)) + ttl)"
  "cur_ses (final (answer_Set v ttl key b) u) = cur_ses u"
  by (auto simp: answer_Set_def redis_def now_def world_final answers_in_def cache_clock_def put_answer_def
      put_entry_def reliable_def)

text \<open>Looking up or storing another key leaves an entry that lives.\<close>

lemma answer_other_key:
  assumes "key' \<noteq> key" "answers_in v rt u key = Some e"
  shows "answers_in v rt (final (answer_Get v key') u) key = Some e"
    and "live (cache_clock v rt (trace (final (answer_Set v ttl key' b) u))) e \<Longrightarrow>
      answers_in v rt (final (answer_Set v ttl key' b) u) key = Some e"
  using assms
  by (cases "ap_redis (app v)"; auto simp: answer_Get_def answer_Set_def redis_def now_def world_final
      answers_in_def cache_clock_def put_answer_def put_entry_def drop_expired_def split: option.split)+

lemma first_answer:
  assumes "reliable v rt" "ap_answers_ttl (app v) = Some ttl" "\<not> answer (serveCachedAnswer v q key) u"
    and "answer fetch (final (serveCachedAnswer v q key) u) = Inr out"
    and "t = final (answer_with v q key fetch) u"
  shows "answers_in v rt t key = Some (Doc (enc_validation v out), cache_clock v rt (trace t) + ttl)"
    and "rsp_body (rsp t) = BJson (enc_validation v out)"
proof -
  let ?w = "final (serveCachedAnswer v q key) u"
  have "t = final (do { answer_Set v ttl key (Doc (enc_validation v out)); ctx_json (enc_validation v out) }) (final fetch ?w)"
    using assms(3,4) by (simp add: assms(5) answer_with_def or_relay_def storeAnswer_def assms(2) final_bind)
  then show "answers_in v rt t key = Some (Doc (enc_validation v out), cache_clock v rt (trace t) + ttl)"
    and "rsp_body (rsp t) = BJson (enc_validation v out)"
    using answer_Set_spec(1) [OF assms(1), of ttl key "Doc (enc_validation v out)" "final fetch ?w"]
    by (simp_all add: final_bind final_ctx_json)
qed

text \<open>An answer under another key, fetched or served, leaves an entry that lives.\<close>

lemma other_answer:
  assumes "key' \<noteq> key" "answers_in v rt u key = Some e" "\<And>w. answers_in v rt (final fetch w) = answers_in v rt w"
    and "t = final (answer_with v q key' fetch) u" "live (cache_clock v rt (trace t)) e"
  shows "answers_in v rt t key = Some e"
proof -
  let ?w = "final (serveCachedAnswer v q key') u"
  have w: "answers_in v rt ?w key = Some e"
    using answer_other_key(1) [OF assms(1,2)] assms(2)
    by (auto simp: serveCachedAnswer_def world_final set_header_def ctx_raw_def set_body_def split: option.split)
  show ?thesis
  proof (cases "answer (serveCachedAnswer v q key') u")
    case True
    then show ?thesis using w by (simp add: assms(4) answer_with_def world_final)
  next
    case miss: False
    show ?thesis
    proof (cases "answer fetch ?w")
      case (Inl e')
      obtain r where "final (relayErr v e') (final fetch ?w) = (final fetch ?w)\<lparr>rsp := r\<rparr>"
        using answers_only_relayErr unfolding answers_only_def by blast
      then show ?thesis using miss Inl w by (simp add: assms(3,4) answer_with_def or_relay_def world_final)
    next
      case (Inr out)
      let ?s = "storeAnswer v key' (enc_validation v out)"
      have t: "t = final (do { ?s; ctx_json (enc_validation v out) }) (final fetch ?w)"
        using miss Inr by (simp add: assms(4) answer_with_def or_relay_def final_bind)
      then have "live (cache_clock v rt (trace (final ?s (final fetch ?w)))) e" using assms(5) by (simp add: world_final)
      then have "answers_in v rt (final ?s (final fetch ?w)) key = Some e"
        using answer_other_key(2) [OF assms(1)] w
        by (cases "ap_answers_ttl (app v)") (simp_all add: storeAnswer_def assms(3) world_final)
      then show ?thesis by (simp add: t world_final)
    qed
  qed
qed

lemma stored_answer:
  assumes "reliable v rt" "ap_answers_ttl (app v) = Some ttl" "\<not> forceRequested q"
    and "answers_in v rt u key = Some (b, e)" "cache_clock v rt (lookup_event v key # trace u) \<le> e"
  shows "final (answer_with v q key fetch) u = u\<lparr>trace := lookup_event v key # trace u, rsp := (rsp u)\<lparr>
    rsp_headers := (rsp_headers (rsp u))(''Content-Type'' \<mapsto> ''application/json''), rsp_body := BRaw b\<rparr>\<rparr>"
proof -
  have l: "live (cache_clock v rt (lookup_event v key # trace u)) (b, e)" using assms(5) by (simp add: live_def)
  show ?thesis
    using assms(2,3) answer_Get_spec(1) [where key = key and u = u, OF assms(1)] answer_Get_spec(4) [OF assms(1,4) l] assms(4) l
    by (simp add: answer_with_def serveCachedAnswer_def get_entry_def world_final
        set_header_def ctx_raw_def set_body_def json_type_def)
qed

text \<open>
  C31. A validation is asked once per remembered time, for a document as for a signature and in
  either backend: when the signing service has answered, that answer is given and remembered; while
  it is in the cache and its lifetime has not passed since it was stored, every later request of
  the same person for the same thing, unless it asks for a fresh one, is given the same JSON
  document with nothing asked but the cache; and answers remembered under other keys in between
  leave it where it is.
\<close>

theorem validation_is_asked_once:
  assumes "ap_redis (app v) \<longrightarrow> redis_reply v = redis_server rt" "ap_answers_ttl (app v) = Some ttl"
    and "ap_signflow (app v) = Some sf" "(h, kind, prm, fetch) \<in> set validation_routes"
    and "answer (onBehalf v) s = Some obo" "key = answerKey (ses_subject (cur_ses s)) kind (rq_param q prm)"
    and "\<not> answer (serveCachedAnswer v q key) (final (onBehalf v) s)"
    and "answer (fetch v sf obo (rq_param q prm)) (final (serveCachedAnswer v q key) (final (onBehalf v) s)) = Inr out"
    and "t = final (h v q) s" "entry = (Doc (enc_validation v out), cache_clock v rt (trace t) + ttl)"
  shows "rsp_body (rsp t) = BJson (enc_validation v out) \<and> answers_in v rt t key = Some entry \<and>
    (\<forall>s' q' obo' u. answers_in v rt s' key = Some entry \<longrightarrow> ses_subject (cur_ses s') = ses_subject (cur_ses s) \<longrightarrow>
       rq_param q' prm = rq_param q prm \<longrightarrow> \<not> forceRequested q' \<longrightarrow>
       answer (onBehalf v) s' = Some obo' \<longrightarrow> final (onBehalf v) s' = u \<longrightarrow>
       live (cache_clock v rt (lookup_event v key # trace u)) entry \<longrightarrow>
       final (h v q') s' = u\<lparr>trace := lookup_event v key # trace u, rsp := (rsp u)\<lparr>
         rsp_headers := (rsp_headers (rsp u))(''Content-Type'' \<mapsto> ''application/json''),
         rsp_body := BRaw (Doc (enc_validation v out))\<rparr>\<rparr>) \<and>
    (\<forall>s' h' kind' prm' fetch' q'. answers_in v rt s' key = Some entry \<longrightarrow>
       (h', kind', prm', fetch') \<in> set validation_routes \<longrightarrow>
       answerKey (ses_subject (cur_ses s')) kind' (rq_param q' prm') \<noteq> key \<longrightarrow>
       live (cache_clock v rt (trace (final (h' v q') s'))) entry \<longrightarrow>
       answers_in v rt (final (h' v q') s') key = Some entry)"
proof -
  have rel: "reliable v rt" using assms(1) by (simp add: reliable_def)
  note first = first_answer [OF rel assms(2,7,8), of t]
  have t: "t = final (answer_with v q key (fetch v sf obo (rq_param q prm))) (final (onBehalf v) s)"
    using final_validation [OF assms(4,3,5), of q] by (simp add: assms(6,9))
  have again: "final (h v q') s' = (final (onBehalf v) s')\<lparr>trace := lookup_event v key # trace (final (onBehalf v) s'),
      rsp := (rsp (final (onBehalf v) s'))\<lparr>
        rsp_headers := (rsp_headers (rsp (final (onBehalf v) s')))(''Content-Type'' \<mapsto> ''application/json''),
        rsp_body := BRaw (Doc (enc_validation v out))\<rparr>\<rparr>"
    if c: "answers_in v rt s' key = Some entry" "ses_subject (cur_ses s') = ses_subject (cur_ses s)"
      "rq_param q' prm = rq_param q prm" "\<not> forceRequested q'" "answer (onBehalf v) s' = Some obo'"
      "live (cache_clock v rt (lookup_event v key # trace (final (onBehalf v) s'))) entry" for s' q' obo'
  proof -
    have "answers_in v rt (final (onBehalf v) s') key = Some (Doc (enc_validation v out), cache_clock v rt (trace t) + ttl)"
      using c(1) by (simp add: assms(6,10) onBehalf_answers)
    from stored_answer [OF rel assms(2) c(4) this] show ?thesis
      using c(6) by (simp add: final_validation [OF assms(4,3) c(5)] c(2,3) assms(6,10) live_def)
  qed
  have other: "answers_in v rt (final (h' v q') s') key = Some entry"
    if c: "answers_in v rt s' key = Some entry" "(h', kind', prm', fetch') \<in> set validation_routes"
      "answerKey (ses_subject (cur_ses s')) kind' (rq_param q' prm') \<noteq> key"
      "live (cache_clock v rt (trace (final (h' v q') s'))) entry" for s' h' kind' prm' fetch' q'
  proof (cases "answer (onBehalf v) s'")
    case None
    have "answers_in v rt (final (onBehalf v) s') key = Some entry"
      using c(1) by (simp add: assms(6) onBehalf_answers)
    then show ?thesis using c(2) None
      by (auto simp: validation_routes_def validateDocument_def signatureValidation_def signingReady_def assms(3)
          with_delegation_def final_bind world_final)
  next
    case (Some obo')
    have "answers_in v rt (final (onBehalf v) s') key = Some entry"
      using c(1) by (simp add: assms(6) onBehalf_answers)
    from other_answer [OF c(3) this fetch_keeps(1) [OF c(2)] _ c(4)] show ?thesis
      using final_validation [OF c(2) assms(3) Some, of q'] by simp
  qed
  show ?thesis using first [OF t] again other by (simp add: assms(10))
qed

lemma demo_validates:
  "answer (ValidateDocument demo sf \<lparr>ob_sub = ''alice'', ob_token = ''at1''\<rparr> did) w = Inr zero_validation"
  "length (trace (final (ValidateDocument demo sf \<lparr>ob_sub = ''alice'', ob_token = ''at1''\<rparr> did) w)) = Suc (length (trace w))"
  by (simp_all add: ValidateDocument_def sig_slow_post_def doJSONOnBehalfSlow_def world_final read_json_def
      ok_status_def out_validation_def out_json_def payload_empty_def)

lemma demo_routes: "(validateDocument, ''doc'', ''id'', ValidateDocument) \<in> set validation_routes"
  by (simp add: validation_routes_def)

lemma demo_validated:
  "cur_ses (final (validateDocument demo demo_request) at_desk) = demo_session"
  "length (trace (final (validateDocument demo demo_request) at_desk)) = 3"
proof -
  have a: "answers at_desk = Map.empty" by (simp add: at_desk_def signed_in_def boot_def)
  have t: "ap_answers_ttl demo_app = Some (5 * minute)" by (simp add: demo_app_def)
  show "cur_ses (final (validateDocument demo demo_request) at_desk) = demo_session"
    "length (trace (final (validateDocument demo demo_request) at_desk)) = 3"
    by (simp_all add: final_validation [OF demo_routes demo_signs(2,1)] demo_fresh answer_with_def serveCachedAnswer_def
        storeAnswer_def answer_Get_def answer_Set_def or_relay_def world_final now_def a t demo_validates fetch_keeps [OF demo_routes])
qed

theorem validation_is_asked_once_witness:
  "\<exists>t. t = final (validateDocument demo demo_request) at_desk \<and>
    rsp_body (rsp t) = BJson (enc_validation demo zero_validation) \<and>
    rsp_body (rsp (final (validateDocument demo demo_request) t)) = BRaw (Doc (enc_validation demo zero_validation))"
proof -
  let ?t = "final (validateDocument demo demo_request) at_desk"
  let ?key = "answerKey (ses_subject (cur_ses at_desk)) ''doc'' (rq_param demo_request ''id'')"
  have d: "answer (onBehalf demo) ?t = Some \<lparr>ob_sub = ''alice'', ob_token = ''at1''\<rparr>"
    "final (onBehalf demo) ?t = ?t\<lparr>trace := EClock # trace ?t\<rparr>"
    using demo_fresh [of ?t] demo_validated by simp_all
  have r: "ap_redis (app demo) \<longrightarrow> redis_reply demo = redis_server (clock demo)"
    "ap_answers_ttl (app demo) = Some (5 * minute)" "\<not> forceRequested demo_request"
    by (simp_all add: demo_app_def forceRequested_def demo_request_def)
  have e: "lookup_event demo ?key = EClock" "cache_clock demo (clock demo) = clock demo"
    by (simp_all add: lookup_event_def cache_clock_def)
  have "answers at_desk = Map.empty" by (simp add: at_desk_def signed_in_def boot_def)
  then have miss: "\<not> answer (serveCachedAnswer demo demo_request ?key) (final (onBehalf demo) at_desk)"
    by (simp add: serveCachedAnswer_def answer_Get_def demo_fresh world_final)
  have live: "live (cache_clock demo (clock demo) (lookup_event demo ?key # trace (final (onBehalf demo) ?t)))
      (Doc (enc_validation demo zero_validation), cache_clock demo (clock demo) (trace ?t) + 5 * minute)"
    using d(2) demo_validated(2) by (simp add: e live_def second_def minute_def)
  note w = validation_is_asked_once [OF r(1,2) demo_signs(2) demo_routes demo_signs(1) refl miss demo_validates(1) refl refl]
  have "ses_subject (cur_ses ?t) = ses_subject (cur_ses at_desk)" by (simp add: demo_validated(1))
  then have "final (validateDocument demo demo_request) ?t = (final (onBehalf demo) ?t)\<lparr>
      trace := lookup_event demo ?key # trace (final (onBehalf demo) ?t), rsp := (rsp (final (onBehalf demo) ?t))\<lparr>
        rsp_headers := (rsp_headers (rsp (final (onBehalf demo) ?t)))(''Content-Type'' \<mapsto> ''application/json''),
        rsp_body := BRaw (Doc (enc_validation demo zero_validation))\<rparr>\<rparr>"
    using w d(1) r(3) live by blast
  then show ?thesis using w by simp
qed

text \<open>
  Two people can share a remembered answer: the key joins the subject, the kind and the id by
  colons and nothing is escaped, so a person whose subject continues into a kind and an id of
  another's reads the answer remembered for that one, whatever the ids.
\<close>

theorem answer_keys_can_collide:
  "answerKey (a @ '':'' @ k @ '':'' @ i) k' i' = answerKey a k (i @ '':'' @ k' @ '':'' @ i')"
  by (simp add: answerKey_def)

end
