(* ===== verification/DocumentTheorems.thy ===== *)
theory DocumentTheorems
  imports Answers
begin

text \<open>What the document routes guarantee: a download is recorded and relayed whole, or refused; and
  which of the routes that hand a document to the browser leave an access record.\<close>

definition content_call :: "service \<Rightarrow> on_behalf \<Rightarrow> string \<Rightarrow> obo_call" where
  "content_call c obo did = \<lparr>oc_timeout = None, oc_audience = sv_audience c, oc_scope = scopeDocRead,
     oc_sub = ob_sub obo, oc_token = ob_token obo, oc_method = ''GET'',
     oc_url = sv_base c @ ''/api/v1/documents/'' @ did @ ''/content'', oc_content_type = [],
     oc_body = no_body\<rparr>"

text \<open>The answer after an access record and a relayed file, and after a refused one.\<close>

definition access_records :: "env \<Rightarrow> string \<Rightarrow> string \<Rightarrow> event list" where
  "access_records v user did = (if ap_audit (app v) \<and> user \<noteq> [] then [EAuditRead user did] else [])"

definition outer_status :: "int \<Rightarrow> int" where
  "outer_status st = (if st \<ge> 500 then 502 else st)"

lemma final_downloaded:
  "final (DocumentDownloaded v user did) s = s\<lparr>trace := access_records v user did @ trace s\<rparr>"
  by (simp add: DocumentDownloaded_def documentRead_def access_records_def world_final)

lemma final_relay_file:
  "trace (final (relay_file r) s) = trace s" "rsp_status (rsp (final (relay_file r) s)) = rsp_status (rsp s)"
  "rsp_body (rsp (final (relay_file r) s)) = BRaw (hr_body r)"
  "rsp_headers (rsp (final (relay_file r) s)) ''X-Content-Type-Options'' = Some ''nosniff''"
  by (simp_all add: relay_file_def relay_header_def set_header_def ctx_raw_def set_body_def world_final)

lemma answer_Content:
  assumes "ob_token obo \<noteq> []" "obo_reply v (EObo (content_call c obo did) # trace s) = Inr r"
  shows "answer (Content v c obo did) s =
      (if ok_status (hr_status r) then Inr r else Inl (HTTPError ''document'' (hr_status r) (hr_body r)))"
    and "final (Content v c obo did) s = s\<lparr>trace := EObo (content_call c obo did) # trace s\<rparr>"
  using assms
  by (simp_all add: Content_def doRawOnBehalf_def doOnBehalf_def content_call_def on_ok_def world_final)

text \<open>
  C32. A download either hands over the file or refuses, and says which: when the document service
  answers the person's read with a 2xx status, the response is that body, no other type may be
  sniffed from it, and the access was recorded just after the read; for any other status the
  response relays it, a failure of the service as 502, and no access is recorded.
\<close>

theorem download_is_recorded_or_refused:
  assumes "ap_documents (app v) = Some c" "answer (onBehalf v) s = Some obo" "ob_token obo \<noteq> []"
    and "read = EObo (content_call c obo (rq_param q ''id'')) # trace (final (onBehalf v) s)"
    and "obo_reply v read = Inr r" "final (downloadDocument v q) s = t"
  shows "if ok_status (hr_status r)
    then rsp_body (rsp t) = BRaw (hr_body r) \<and>
      rsp_headers (rsp t) ''X-Content-Type-Options'' = Some ''nosniff'' \<and>
      trace t = access_records v (ob_sub obo) (rq_param q ''id'') @ read
    else rsp_status (rsp t) = outer_status (hr_status r) \<and> trace t = read \<and>
      rsp_body (rsp t) = BError (Relayed (parse_problem v (hr_body r)) (app_name v) (outer_status (hr_status r)))"
proof -
  let ?u = "final (onBehalf v) s"
  note got = answer_Content [OF assms(3) assms(5) [unfolded assms(4)]]
  have t: "t = final (or_relay v (Content v c obo (rq_param q ''id'')) (\<lambda>r. do {
       DocumentDownloaded v (ob_sub obo) (rq_param q ''id''); relay_file r })) ?u"
    using assms(1,2,6) by (simp add: downloadDocument_def documentsReady_def with_delegation_def final_bind)
  show ?thesis
  proof (cases "ok_status (hr_status r)")
    case True
    then show ?thesis using t got
      by (simp add: or_relay_def final_bind final_downloaded final_relay_file assms(4))
  next
    case False
    then show ?thesis using t got
      by (simp add: or_relay_def final_bind relayErr_def world_final outer_status_def error_status_def assms(4))
  qed
qed

theorem download_is_recorded_or_refused_witness:
  "rsp_body (rsp (final (downloadDocument demo demo_request) (signed_in\<lparr>cur_ses := demo_session\<rparr>)))
    = BRaw (Bytes [])"
proof -
  let ?s = "signed_in\<lparr>cur_ses := demo_session\<rparr>"
  have o: "answer (onBehalf demo) ?s = Some \<lparr>ob_sub = ''alice'', ob_token = ''at1''\<rparr>"
    using demo_fresh [of ?s] by (simp add: signed_in_def boot_def)
  obtain c where c: "ap_documents (app demo) = Some c" by (cases "ap_documents demo_app") auto
  show ?thesis
    using download_is_recorded_or_refused [OF c o _ refl _ refl, of demo_request empty_ok]
    by (simp add: ok_status_def)
qed

section \<open>Which disclosures are recorded\<close>

fun is_read :: "event \<Rightarrow> bool" where
  "is_read (EAuditRead u d) \<longleftrightarrow> True"
| "is_read _ \<longleftrightarrow> False"

definition reads :: "event list \<Rightarrow> event list" where
  "reads tr = filter is_read tr"

lemma reads_simps [simp]:
  "reads (e # tr) = (if is_read e then e # reads tr else reads tr)" "reads (es @ tr) = reads es @ reads tr"
  "reads (access_records v u d) = access_records v u d"
  by (simp_all add: reads_def access_records_def)

definition unread :: "event list \<Rightarrow> bff \<Rightarrow> bool" where
  "unread old s \<longleftrightarrow> reads (trace s) = old"

lemma keeps_unread_ask: "\<not> is_read e \<Longrightarrow> keeps (unread old) (ask e f)"
  by (auto simp: unread_def wp_simps intro!: keepsI)

lemma reads_onBehalf: "reads (trace (final (onBehalf v) s)) = reads (trace s)"
proof -
  have "keeps (unread old) (onBehalf v)" for old
    by (auto simp: onBehalf_def freshToken_def Refresh_def renew_def PutSession_def redis_PutSession_def
        mem_PutSession_def redis_def now_def ctx_error_def set_status_def set_body_def unread_def
        intro!: keeps_intros keeps_unread_ask keeps_modify)
  from keeps_final [OF this, of "reads (trace s)" s] show ?thesis by (simp add: unread_def)
qed

lemma reads_raw: "reads (trace (final (doRawOnBehalf v svc aud sc url obo) s)) = reads (trace s)"
proof -
  have "keeps (unread old) (doRawOnBehalf v svc aud sc url obo)" for old
    by (auto simp: doRawOnBehalf_def doOnBehalf_def intro!: keeps_intros keeps_unread_ask)
  from keeps_final [OF this, of "reads (trace s)" s] show ?thesis by (simp add: unread_def)
qed

text \<open>A route that hands on what a service answered, after the record \<open>b\<close> asks for.\<close>

lemma opened:
  assumes "\<And>obo s. reads (trace (final (m obo) s)) = reads (trace s)"
    and "\<And>obo r s. reads (trace (final (k obo r) s)) =
      (if b then access_records v (ob_sub obo) did else []) @ reads (trace s)"
    and "\<And>obo r s e. rsp_body (rsp (final (k obo r) s)) \<noteq> BError e"
    and "t = final (with_delegation v (\<lambda>obo. or_relay v (m obo) (k obo))) s"
  shows "reads (trace t) = (if b \<and> (\<forall>e. rsp_body (rsp t) \<noteq> BError e)
    then access_records v (ses_subject (cur_ses s)) did else []) @ reads (trace s)"
proof (cases "answer (onBehalf v) s")
  case None
  then show ?thesis using onBehalf_none [OF None] reads_onBehalf
    by (auto simp: assms(4) with_delegation_def world_final)
next
  case (Some obo)
  let ?u = "final (onBehalf v) s"
  have sub: "ob_sub obo = ses_subject (cur_ses s)" using wp_onBehalf_subject [of v s] Some by (simp add: wp_run)
  show ?thesis
  proof (cases "answer (m obo) ?u")
    case (Inl e)
    obtain w where "\<And>x. rsp_body (rsp (final (relayErr v e) x)) = BError w \<and> trace (final (relayErr v e) x) = trace x"
      by (cases "as_http_error e") (auto simp: relayErr_def world_final Let_def)
    then show ?thesis using Inl Some reads_onBehalf assms(1)
      by (simp add: assms(4) with_delegation_def or_relay_def final_bind)
  next
    case (Inr r)
    then show ?thesis using Some reads_onBehalf assms(1-3) sub
      by (simp add: assms(4) with_delegation_def or_relay_def final_bind)
  qed
qed

lemma reads_relays:
  "reads (trace (final (relay_file r) s)) = reads (trace s)" "reads (trace (final (relayJSON r) s)) = reads (trace s)"
  "reads (trace (final (relay_page r) s)) = reads (trace s)"
  "rsp_body (rsp (final (relay_file r) s)) \<noteq> BError e" "rsp_body (rsp (final (relayJSON r) s)) \<noteq> BError e"
  "rsp_body (rsp (final (relay_page r) s)) \<noteq> BError e"
  by (simp_all add: relay_file_def relayJSON_def relay_page_def relay_header_def set_header_def set_status_def
      ctx_raw_def set_body_def world_final)

lemma final_previewed:
  "final (DocumentPreviewed v user did) s = s\<lparr>trace := access_records v user did @ trace s\<rparr>"
  by (simp add: DocumentPreviewed_def documentRead_def access_records_def world_final)

text \<open>
  The routes that hand a document, an inner file of it or what is rendered of one to the browser:
  those of the table whose success is a file or a relayed preview.
\<close>

definition discloses :: "route \<Rightarrow> bool" where
  "discloses r = (case r of (m, p, h) \<Rightarrow> success_of m p = File \<or> success_of m p = Relay)"

definition disclosing_routes :: "route list" where
  "disclosing_routes = filter discloses authed_routes"

lemma disclosing_listed:
  "disclosing_routes = [(''GET'', ''/documents/{id}/download'', downloadDocument),
     (''GET'', ''/documents/{id}/data-objects/{name}'', extractDataObject)] @ preview_routes"
  by (simp add: disclosing_routes_def authed_routes_def route_groups discloses_def success_of_routes)

definition opening_paths :: "string set" where
  "opening_paths = {''/documents/{id}/download'', ''/documents/{id}/preview'',
     ''/documents/{id}/data-objects/{name}/preview''}"

definition records_when :: "bool \<Rightarrow> env \<Rightarrow> request \<Rightarrow> unit act \<Rightarrow> bool" where
  "records_when b v q h \<longleftrightarrow> (\<forall>s. reads (trace (final h s)) =
     (if b \<and> (\<forall>e. rsp_body (rsp (final h s)) \<noteq> BError e)
      then access_records v (ses_subject (cur_ses s)) (rq_param q ''id'') else []) @ reads (trace s))"

lemma records_relay:
  assumes "\<And>obo s. reads (trace (final (m obo) s)) = reads (trace s)"
    and "\<And>obo r s. reads (trace (final (k obo r) s)) =
      (if b then access_records v (ob_sub obo) (rq_param q ''id'') else []) @ reads (trace s)"
    and "\<And>obo r s e. rsp_body (rsp (final (k obo r) s)) \<noteq> BError e"
  shows "records_when b v q (with_delegation v (\<lambda>obo. or_relay v (m obo) (k obo)))"
  unfolding records_when_def by (intro allI opened [OF assms refl])

lemma records_error: "records_when b v q (ctx_error v e)"
  "records_when b v q (with_delegation v (\<lambda>_. ctx_error v e))"
  using reads_onBehalf [of v] onBehalf_none [of v]
  by (auto simp: records_when_def with_delegation_def final_ctx_error final_bind final_skip split: option.split)

lemma records_ready:
  "(\<And>c. records_when b v q (h c)) \<Longrightarrow> records_when b v q (documentsReady v h)"
  "(\<And>c. records_when b v q (h c)) \<Longrightarrow> records_when b v q (previewReady v h)"
  by (simp_all add: documentsReady_def previewReady_def records_error split: option.split)

lemma records_route:
  "records_when True v q (downloadDocument v q)" "records_when True v q (previewManifest v q)"
  "records_when True v q (previewInnerManifest v q)" "records_when False v q (previewText v q)"
  "records_when False v q (previewInnerText v q)" "records_when False v q (previewPage v q)"
  "records_when False v q (previewInnerPage v q)" "records_when False v q (extractDataObject v q)"
proof -
  note defs = Content_def ExtractObject_def Manifest_def Page_def PreviewText_def InnerManifest_def InnerPage_def InnerText_def
    preview_get_def reads_raw reads_relays final_previewed final_downloaded final_bind
  show "records_when True v q (downloadDocument v q)" "records_when True v q (previewManifest v q)"
    "records_when True v q (previewInnerManifest v q)" "records_when False v q (previewText v q)"
    "records_when False v q (previewInnerText v q)" "records_when False v q (extractDataObject v q)"
    unfolding downloadDocument_def extractDataObject_def previewManifest_def previewInnerManifest_def previewText_def previewInnerText_def
    by (rule records_ready records_relay; simp add: defs)+
  show "records_when False v q (previewPage v q)" "records_when False v q (previewInnerPage v q)"
    unfolding previewPage_def previewInnerPage_def
    by (cases "rq_param_int q ''n''"; simp only: sum.case;
        (rule records_ready records_error records_relay; simp add: defs)+)+
qed

lemma route_records:
  assumes "(m, p, h) \<in> set disclosing_routes"
  shows "records_when (p \<in> opening_paths) v q (h v q)"
  using assms unfolding disclosing_listed preview_routes_def
  by (simp only: append.simps list.set insert_iff empty_iff prod.inject; elim disjE conjE;
      simp add: opening_paths_def records_route)

text \<open>
  C33. Of the routes that hand a document to the browser (the download, the extraction of an inner
  file, the previews and their pages and text), a download and the opening of a preview leave
  exactly one access record, for the session's person and the document named, exactly when access
  records are configured, the session has a subject and the answer is not an error.  In every other
  case, and on the pages and the text of a preview and the extraction of an inner file always, this
  backend leaves no record.
\<close>

theorem openings_are_recorded:
  assumes "(m, p, h) \<in> set disclosing_routes" "t = final (h v q) s" "user = ses_subject (cur_ses s)"
  shows "reads (trace t) =
    (if p \<in> opening_paths \<and> ap_audit (app v) \<and> user \<noteq> [] \<and> \<not> is_error (rsp_body (rsp t))
     then [EAuditRead user (rq_param q ''id'')] else []) @ reads (trace s)"
  using route_records [OF assms(1), of v q]
  unfolding records_when_def assms(2,3) access_records_def is_error_def
  by (auto split: body.split)

text \<open>The sample session opens a preview and reads its text, with access records configured.\<close>

definition previewing :: env where
  "previewing = demo\<lparr>app := demo_app\<lparr>ap_audit := True,
     ap_preview := Some \<lparr>sv_base = ''http://preview'', sv_audience = ''svc:preview''\<rparr>\<rparr>\<rparr>"

lemma previewing_shows:
  "rsp_body (rsp (final (previewManifest previewing demo_request) (signed_in\<lparr>cur_ses := demo_session\<rparr>))) = BRaw (Bytes [])"
proof -
  have "clock previewing = clock demo" "app previewing = demo_app\<lparr>ap_audit := True,
     ap_preview := Some \<lparr>sv_base = ''http://preview'', sv_audience = ''svc:preview''\<rparr>\<rparr>"
    "obo_reply previewing tr = Inr empty_ok" for tr
    by (simp_all add: previewing_def)
  then show ?thesis
    by (simp add: previewManifest_def previewReady_def with_delegation_def onBehalf_def freshToken_def now_def
        world_final near_expiry_def Unix_def refreshLeeway_def second_def demo_session_def signed_in_def boot_def
        or_relay_def Manifest_def preview_get_def doRawOnBehalf_def doOnBehalf_def on_ok_def ok_status_def
        final_previewed relayJSON_def set_header_def set_status_def ctx_raw_def set_body_def)
qed

theorem openings_are_recorded_witness:
  "reads (trace (final (previewManifest previewing demo_request) (signed_in\<lparr>cur_ses := demo_session\<rparr>))) =
     [EAuditRead ''alice'' ''p1''] \<and>
   reads (trace (final (previewText previewing demo_request) (signed_in\<lparr>cur_ses := demo_session\<rparr>))) = [] \<and>
   reads (trace (final (extractDataObject previewing demo_request) (signed_in\<lparr>cur_ses := demo_session\<rparr>))) = [] \<and>
   reads (trace (final (downloadDocument demo demo_request) (signed_in\<lparr>cur_ses := demo_session\<rparr>))) = []"
proof -
  let ?s = "signed_in\<lparr>cur_ses := demo_session\<rparr>"
  have r: "(''GET'', ''/documents/{id}/preview'', previewManifest) \<in> set disclosing_routes"
    "(''GET'', ''/documents/{id}/preview/text'', previewText) \<in> set disclosing_routes"
    "(''GET'', ''/documents/{id}/data-objects/{name}'', extractDataObject) \<in> set disclosing_routes"
    "(''GET'', ''/documents/{id}/download'', downloadDocument) \<in> set disclosing_routes"
    by (simp_all add: disclosing_listed preview_routes_def)
  have e: "''/documents/{id}/preview'' \<in> opening_paths" "''/documents/{id}/preview/text'' \<notin> opening_paths"
    "''/documents/{id}/data-objects/{name}'' \<notin> opening_paths"
    by (simp_all add: opening_paths_def)
  have "ap_audit (app previewing)" "ses_subject demo_session = ''alice''" "rq_param demo_request ''id'' = ''p1''"
    "\<not> ap_audit demo_app" "reads (trace ?s) = []"
    by (simp_all add: previewing_def demo_session_def demo_request_def demo_app_def signed_in_def boot_def reads_def)
  then show ?thesis
    using openings_are_recorded [OF r(1) refl refl, of previewing demo_request ?s]
      openings_are_recorded [OF r(2) refl refl, of previewing demo_request ?s]
      openings_are_recorded [OF r(3) refl refl, of previewing demo_request ?s]
      openings_are_recorded [OF r(4) refl refl, of demo demo_request ?s]
    by (simp add: e previewing_shows)
qed

end
