(* ===== verification/Spec2Isabelle.thy ===== *)
theory Spec2Isabelle
  imports Router Samples SessionTheorems FlowTheorems SignInTheorems Process Concurrent Redemptions
    CallBounds Answers Redirects RequestTheorems
    LifecycleTheorems TokenTheorems
    CookieTheorems DashboardTheorems EnvelopeTheorems SigningTheorems VerifyTheorems DocumentTheorems
begin

text \<open>
  signbyte-bff is the browser-facing service of a signing portal: it holds the cookie session of
  a person, signs them in against the Auth Service, and composes the document, envelope,
  signflow and preview services on the person's behalf; beside that it verifies signed files for
  anybody.  This development models its Go code (\<open>src/\<close>) and proves what makes it correct.

  \<^bold>\<open>The model.\<close>  A handler is a computation of the state monad (\<open>HOL-Library.State_Monad\<close>) over
  the record \<open>bff\<close> (theory World): the in-memory stores of flows, sessions and answers, what the
  signing service and the Auth Service were remembered to offer, the in-flight gate, the session
  the middleware resolved for the request, the response, and the \<open>trace\<close>.  The trace is the list
  of everything that left the process or was read from outside (calls, Redis commands, clock
  reads, random tokens, security events), newest first.  Whatever is not in the repository (the
  Auth Service client, the outbound client with its token exchange, Redis, the clock, randomness,
  the identity-code, admission and validation-report libraries, the framework's parsing and
  limiter, the crypto of the key format) is a function in the record \<open>env\<close>; its reply is a
  function of the trace, so it may answer anything, differently each time.  Errors are the values
  of \<open>gerr\<close> (Go's error values) in a sum, the answers of handlers are \<open>web_error\<close>, and a nil
  dereference is the \<open>Panic\<close> the framework recovers.  A time is a whole number of nanoseconds.  The
  process serves one request at a time (\<open>reach\<close>); requests that run side by side are two transition
  systems, the in-flight gate (\<open>gate_reach\<close>, theory Edge) and requests that come apart at the session
  gate, around the storing of a renewed session and between the flow a login return takes, the
  tokens of its code and the session it stores (\<open>run_reach\<close>, theory Concurrent).

  \<^bold>\<open>The theories, in the order of the code.\<close>
  \<^item> Prelude: the collections \<open>wp_simps\<close> and \<open>keeps_intros\<close>, \<open>wp\<close>/\<open>final\<close>/\<open>answer\<close> of a
    computation, \<open>keeps I m\<close> (the computation keeps the invariant), loops over a slice, lists.
  \<^item> GoText, GoJson: the parts of Go's standard library the source rests on (escaping of
    \<open>net/url\<close>, trimming, \<open>strconv.Itoa\<close>, base64, the sign-in method expression as a derivative
    matcher, and struct tags of \<open>encoding/json\<close> as lists of fields, with the locale \<open>codec\<close>).
  \<^item> SessionData (\<open>session/session.go\<close>, \<open>codec.go\<close>), Config (\<open>config.go\<close>), Wire (the structs of
    \<open>clients/\<close>): records, their encoders and decoders, the settings and what is derived of them.
  \<^item> World: errors, requests, responses, events, the environment, the state, the primitives.
  \<^item> Store (\<open>session/memory.go\<close>, \<open>session/redis.go\<close>, \<open>anscache.go\<close>): both stores, and the locale
    \<open>expiring_store\<close>, the contract of a store whose entries live for a fixed time.
  \<^item> Requests (\<open>routes/request/\<close>): the structs of the JSON bodies, what their \<open>validate\<close> tags admit, and
    \<open>body_json\<close>, which decodes a body and validates it.
  \<^item> StoreContract: the abstract session store \<open>spec_step\<close>, the locale \<open>store_machine\<close> of what
    implements it, with the in-memory store, the Redis store over \<open>redis_server\<close> (the documented
    behaviour of the commands used) and the store of the application as its instances.  StoreViews:
    the sessions and the flows stored, \<open>sessions_in\<close> and \<open>flows_in\<close>, whichever backend holds them,
    and what each operation and each event does to these; the facts about stored sessions and flows
    are stated over the two and so hold in memory and in Redis.  In Redis they are computed from the
    commands issued and their replies: a write that was answered with an error changed nothing.
  \<^item> Outbound (\<open>clients/clients.go\<close>), DocumentClient, EnvelopeClient, SignflowClient,
    ServiceClients: one definition per client method, and the locales \<open>event_invariant\<close>,
    \<open>call_invariant\<close>, \<open>session_invariant\<close>, \<open>handler_invariant\<close>: what a fact about the state has
    to survive to be kept by every operation built from those clients, the commands that write to
    Redis listed one by one, as the key space they write to.
  \<^item> Edge (\<open>routes/cookies.go\<close>, \<open>routes/middleware.go\<close>, the gate of \<open>routes/verify.go\<close>),
    SessionRoutes (\<open>session.go\<close>, \<open>health.go\<close>, \<open>signinmethods.go\<close>), Dashboard, EnvelopeRoutes,
    SigningRoutes, DocumentRoutes (with previews and access records), VerifyRoutes: the handlers.
  \<^item> Router (\<open>routes/router.go\<close>, \<open>app.go\<close>, \<open>auditposter.go\<close>): the route table, what the routes need
    of the application, \<open>serve\<close> (a request finds a fresh response) and the process as the step
    relation \<open>step\<close> with the reachable states \<open>reach\<close>.
  \<^item> Container (\<open>app.go\<close> and the constructors of the stores, caches and recorders): the record
    \<open>container\<close>, its accessors and setters, the stages that build it, and \<open>app_of\<close>, which reads from
    it the part the routes act on.
  \<^item> Lifecycle (\<open>app.go\<close>, \<open>audit/drain.go\<close>, \<open>cmd/server\<close>, \<open>testing.go\<close>): building the application stage
    by stage with every library error, the command line, starting, stopping, the drain task, and the
    application of the tests.
  \<^item> Samples: a concrete environment, request and session, on which the witnesses stand.
  \<^item> Process: what one request does to the state (\<open>guarded_sessions\<close>, \<open>serve_trace\<close>,
    \<open>callback_sessions\<close>) and the invariants \<open>all_vouched\<close> and \<open>well_kept\<close>; Concurrent: requests that
    overlap, split into those that arrive and those that go on;
    Redemptions: what a start of a sign-in is worth over such requests; Redirects: where answers
    send the browser; CallBounds: how often a request reaches outside, as rules that add up the
    calls along the monad's operators (\<open>spends\<close>), and \<open>views\<close>, where the sum depends on the envelope
    answered; Answers: the contract \<open>success_of\<close> of the route table, the calls a route may do without
    (\<open>best_effort\<close>), and the rules \<open>concludes\<close> by which every handler keeps the contract and answers
    no success over a refused call.
  \<^item> SessionTheorems, FlowTheorems, SignInTheorems, TokenTheorems, CookieTheorems, RequestTheorems,
    LifecycleTheorems, DashboardTheorems, EnvelopeTheorems, SigningTheorems, VerifyTheorems,
    DocumentTheorems and this theory: the properties.

  \<^bold>\<open>What the lemmas show.\<close>  The gate in front of every authenticated route: without the echoed
  anti-forgery token nothing runs, every call made carries the subject of the resolved session and a token, and
  no session but the request's own is touched.  The sign-in: what a start parks is
  what its return redeems, in the browser that started it, once, and a session only after an
  exchange; in every reachable state each session is one the Auth Service vouched for, and no start
  is redeemed more often than it was made; the browser is sent home and nowhere else.  The store:
  both backends implement one specification, and what is said of stored sessions holds in either.
  Answers: every request is answered, a failure never under a status of success, and no success is
  answered when a call the route depends on was refused.  Bodies: what is refused reaches no service.
  Documents: what is recorded of their disclosure.  The process: it listens once everything is built,
  and a service left out fails closed.  The tokens: reused, rotated, failing closed.  Races: a sign-out
  undone by a renewal under way, two renewals with one token.  Load: how often a request reaches
  outside.  The dashboard: the map of homes computes its specification, nothing is lost, nothing
  shown twice.  Envelopes: the view hides other signers, invitations name people.  Signing: begun
  in turn, with the right certificates and seal, returning to the portal, polling within bounds.
  Verification: its places, what is forwarded, what evidence is left.  The invariants that run
  over whole handlers are interpretations of \<open>handler_invariant\<close>: the lemmas of every client and
  handler are proved once, in the locale, and each property instantiates them.

  \<^bold>\<open>Bounds and fuel.\<close>  There is no fuel: every loop of the source runs over a slice and is a
  structural recursion or a fold.  Durations and Unix times that the code computes at 64 bits wrap
  (\<open>wrap64\<close>) where a product could leave the range, as does the byte past the cap on the size of a
  verified file (\<open>read_limited\<close>); JSON integers are checked to fit (\<open>int64\<close>).

  \<^bold>\<open>Not modelled.\<close>  Logging and metrics, what the command line library does with the commands
  registered, the token bucket of the limiter (its verdict is \<open>rate_limited\<close>), the wire of HTTP.  The parts of a request other than its JSON body are
  the framework's parsed values; what its parsing refuses is a \<open>Framework\<close> error.  Overlapping
  requests are interleaved at the points Concurrent names, not at every access to the store: the
  refresh handler comes apart around the storing of its tokens, while the renewal in front of a
  delegated call runs in one piece with the handler it precedes.
\<close>

section \<open>The sessions of every reachable state\<close>

text \<open>
  C3. A request behind the session gate touches no session but its own: in either backend every
  other entry of the store stays as it is; and what is stored under its own id afterwards is what
  was stored before, or the session the gate resolved with the same key, subject, anti-forgery
  token and capabilities, so a session never passes to another person.
\<close>

theorem requests_touch_their_own_session:
  assumes "(m, p, h) \<in> set authed_routes" "sid = readCookie q (cookie_name (cfg v))"
    and "t = serve v (\<lambda>v q. requireSession v q (h v q)) q s"
  shows "(\<forall>k. k \<noteq> sid \<longrightarrow> sessions_in v rt t k = sessions_in v rt s k) \<and>
    (\<forall>b e. sessions_in v rt t sid = Some (b, e) \<longrightarrow> sessions_in v rt s sid = Some (b, e) \<or>
      (\<exists>x y. answer (GetSession v sid) (arrive s) = Inr x \<and> b = Doc (enc_session y) \<and> same_but_tokens x y))"
  by (rule guarded_sessions [OF assms])

theorem requests_touch_their_own_session_witness:
  "sessions_in demo (clock demo) (serve demo (\<lambda>v q. requireSession v q (logout v q)) demo_request signed_in) ''sid2'' = None"
proof -
  have "(''POST'', ''/logout'', logout) \<in> set authed_routes"
    by (simp add: authed_routes_def session_routes_def)
  from requests_touch_their_own_session [OF this refl refl, of demo_request demo "clock demo" signed_in]
  show ?thesis by (simp add: views_memory) (simp add: signed_in_def boot_def)
qed

text \<open>
  C4. Nobody is signed in whom the Auth Service did not vouch for: in every state the process can
  reach, requests overlapping in any order, each session of the store, in memory or in a
  Redis that keeps its documented promises, is one whose subject a completed code exchange named,
  in an access token it was answered.
\<close>

theorem every_session_was_exchanged:
  assumes "run_reach v (s, ps)" "ap_redis (app v) \<longrightarrow> redis_reply v = redis_server rt"
    and "sessions_in v rt s sid = Some (b, e)"
  shows "\<exists>x. b = Doc (enc_session x) \<and> vouched v (trace s) (ses_subject x)"
proof -
  have "reliable v rt" using assms(2) by (simp add: reliable_def)
  from run_reach_vouched [OF assms(1) this] assms(3) show ?thesis
    unfolding run_vouched_def all_vouched_def by auto
qed

text \<open>The sample signs in: the start, then the return.\<close>

definition landed :: bff where
  "landed = serve dated loginCallback back_request (serve dated loginStart start_request boot)"

lemma dated_mem [simp]: "ap_redis (app dated) = False"
  by (simp add: dated_def)

lemma dated_taken:
  "answer (TakeFlow dated (callback_key dated back_request)) (arrive (serve dated loginStart start_request boot)) = Inr dated_flow"
proof -
  have k: "callback_key dated back_request = FlowKey (sha256 dated) drawn drawn"
    using back_again by (simp add: callback_key_def opt_text_def)
  have "cal dated = tally" "clock dated tr = unix_epoch + int (length tr) * second" for tr
    by (simp_all add: dated_def)
  moreover have "valid_flow tally dated_flow" by (simp add: valid_flow_def tally_reads)
  ultimately show "answer (TakeFlow dated (callback_key dated back_request)) (arrive (serve dated loginStart start_request boot)) = Inr dated_flow"
    by (simp add: TakeFlow_def mem_TakeFlow_def now_def world_final k arrive_def dated_started live_def
        second_def minute_def)
qed

lemma landed_session:
  "\<exists>x e. sessions landed drawn = Some (Doc (enc_session x), e)"
proof -
  have "MarshalKey demo_key ''key'' = Inr (std_encode ''key'')" by (simp add: MarshalKey_def demo_key_def)
  then have "ParseKey demo_key (std_encode ''key'') = Inr ''key''"
    by (rule ParseKey_MarshalKey) (simp add: demo_key_def)
  then have key: "ParseKey (key_der dated) (fl_key dated_flow) = Inr ''key''"
    by (simp add: dated_def demo_def dated_flow_def)
  have "exchange_reply dated tr = Inr demo_tokens" "random_token dated tr = Inr drawn" for tr
    by (simp_all add: dated_def demo_def)
  then show ?thesis
    by (simp add: landed_def serve_def [of _ loginCallback] callback_run [OF back_again(1)] dated_taken
        finish_login_def lift_text_def key exchangeFlow_def establishSession_def RandomToken_def on_ok_def
        now_def PutSession_def mem_PutSession_def put_entry_def setSessionCookies_def add_cookie_def
        ctx_redirect_def set_status_def set_body_def world_final) blast
qed

lemma landed_reached: "reach dated landed"
proof -
  have "(''POST'', ''/login/start'', loginStart) \<in> set Init" "(''GET'', ''/login/callback'', loginCallback) \<in> set Init"
    by (simp_all add: Init_def open_routes_def)
  then have "step dated boot (serve dated loginStart start_request boot)"
    "step dated (serve dated loginStart start_request boot) landed"
    unfolding landed_def
    by (auto intro!: step.request simp: start_request_def back_request_def demo_request_def)
  then show ?thesis by (metis reach.booted reach.served)
qed

theorem every_session_was_exchanged_witness:
  "\<exists>x e. sessions landed drawn = Some (Doc (enc_session x), e) \<and> vouched dated (trace landed) (ses_subject x)"
proof -
  obtain x e where "sessions landed drawn = Some (Doc (enc_session x), e)" using landed_session by blast
  then show ?thesis using every_session_was_exchanged [OF reach_runs [OF landed_reached], of "clock dated" drawn "Doc (enc_session x)" e]
    by (auto simp: views_memory)
qed

text \<open>
  C5. What the process holds between requests is well-formed: in every state it can reach, with a
  key library that reads back what it wrote, in either backend each parked flow and each session
  of the store is the encoding of a flow or a session whose signing-bound key can be read, so neither a
  return nor a renewal ever meets a key it cannot use; and no verification is counted as running.
\<close>

theorem reachable_states_are_well_formed:
  assumes "\<And>k der. marshal_pkcs8 (key_der v) k = Inr der \<Longrightarrow> parse_pkcs8 (key_der v) der = Inr (Some k)"
    and "ap_redis (app v) \<longrightarrow> redis_reply v = redis_server rt" "reach v s"
  shows "gate s = Map.empty \<and>
    (\<forall>k b e. flows_in v rt s k = Some (b, e) \<longrightarrow>
      (\<exists>f key. b = Doc (enc_flow (cal v) f) \<and> ParseKey (key_der v) (fl_key f) = Inr key)) \<and>
    (\<forall>k b e. sessions_in v rt s k = Some (b, e) \<longrightarrow>
      (\<exists>x key. b = Doc (enc_session x) \<and> ParseKey (key_der v) (ses_key x) = Inr key))"
proof -
  have "reliable v rt" using assms(2) by (simp add: reliable_def)
  from reach_kept [OF assms(1) this assms(3)] show ?thesis
    by (simp add: well_kept_def flow_entry_def session_entry_def key_reads_def)
qed

theorem reachable_states_are_well_formed_witness:
  "gate landed = Map.empty \<and> (\<exists>x e key. sessions landed drawn = Some (Doc (enc_session x), e) \<and>
     ParseKey (key_der dated) (ses_key x) = Inr key)"
proof -
  have "gate landed = Map.empty \<and> (\<forall>k b e. sessions landed k = Some (b, e) \<longrightarrow>
      (\<exists>x key. b = Doc (enc_session x) \<and> ParseKey (key_der dated) (ses_key x) = Inr key))"
    using reachable_states_are_well_formed [of dated "clock dated" landed] landed_reached
    by (simp add: views_memory) (simp add: dated_def demo_def demo_key_def)
  moreover obtain x e where "sessions landed drawn = Some (Doc (enc_session x), e)" using landed_session by blast
  ultimately show ?thesis by metis
qed

section \<open>A sign-out and a renewal at the same time\<close>

text \<open>
  C37. A sign-out can be undone by a renewal under way: in memory and in a Redis that keeps its
  documented promises, when a refresh of the same
  session has been answered its tokens and the sign-out is served before these are stored, the
  sign-out removes the session, and the refresh then stores it again, for the same person, with the
  new tokens.
\<close>

theorem sign_out_can_be_undone:
  assumes "rq_method q = ''POST''" "rq_method q' = ''POST''"
    and "readCookie q (cookie_name (cfg v)) = sid" "readCookie q' (cookie_name (cfg v)) = sid" "sid \<noteq> []"
    and "answer (GetSession v sid) s = Inr x" "\<not> csrf_refused q x" "\<not> csrf_refused q' x"
    and "parse_key v x = Inr key" "s1 = final (Refresh v key (ses_refresh_token x)) (final (GetSession v sid) s)"
    and "answer (Refresh v key (ses_refresh_token x)) (final (GetSession v sid) s) = Inr tk"
    and "answer (GetSession v sid) (arrive s1) = Inr x"
    and "s2 = serve v (\<lambda>v q. requireSession v q (logout v q)) q' s1"
    and "ap_redis (app v) \<longrightarrow> redis_reply v = redis_server rt"
  shows "\<exists>s3 y e. (run_step v)\<^sup>*\<^sup>* (s, ps) (s2, Renewed tk sid x # ps) \<and> sessions_in v rt s2 sid = None \<and>
    run_step v (s2, Renewed tk sid x # ps) (s3, ps) \<and>
    sessions_in v rt s3 sid = Some (Doc (enc_session y), e) \<and> same_but_tokens x y \<and> ses_access_token y = tk_access tk"
proof -
  have rel: "reliable v rt" using assms(14) by (simp add: reliable_def)
  let ?s0 = "final (GetSession v sid) s" and ?r = "\<lambda>v (q :: request). refresh v"
  let ?s3 = "final (stored_and_answered v tk) (own_context sid x s2)"
  have t: "(''POST'', ''/session/refresh'', ?r) \<in> set authed_routes"
    "(''POST'', ''/logout'', \<lambda>v q. requireSession v q (logout v q)) \<in> set Init"
    by (simp_all add: authed_routes_def session_routes_def Init_def guarded_def)
  have "run_step v (s, ps) (?s0, Passed ?r q sid x # ps)"
    by (rule run_stepI(1) [OF arrives.enter [OF t(1) assms(1,3,5,6,7)]])
  moreover have "run_step v (?s0, Passed ?r q sid x # ps) (s1, Renewed tk sid x # ps)"
    using run_stepI(2) [OF continues.redeem [OF assms(9,11), of "[]" q sid ps]] assms(10) by simp
  moreover have "run_step v (s1, Renewed tk sid x # ps) (s2, Renewed tk sid x # ps)"
    unfolding assms(13) by (rule run_stepI(1) [OF arrives.whole [OF t(2) assms(2)]])
  ultimately have "(run_step v)\<^sup>*\<^sup>* (s, ps) (s2, Renewed tk sid x # ps)"
    by (blast intro: rtranclp.rtrancl_into_rtrancl rtranclp.rtrancl_refl)
  moreover have "sessions_in v rt s2 sid = None"
    using requireSession_passed [OF assms(4,5,12,8)] assms(5)
    by (simp add: assms(13) serve_def final_logout DeleteSession_views(1) [OF rel])
  moreover have "run_step v (s2, Renewed tk sid x # ps) (?s3, ps)"
    using run_stepI(2) [OF continues.store [of v s2 "[]" tk sid x ps]] by simp
  moreover have "same_but_tokens x (applyTokens t tk x) \<and> ses_access_token (applyTokens t tk x) = tk_access tk" for t
    by (simp add: same_but_tokens_def applyTokens_def)
  ultimately show ?thesis using stored_and_answered_keeps [OF rel, of tk sid x s2] by metis
qed

text \<open>The sample session refreshes and signs out, echoing its anti-forgery token.\<close>

definition echoing :: request where
  "echoing = demo_request\<lparr>rq_header := (\<lambda>n. if n = csrfHeader then ''csrf1'' else [])\<rparr>"

lemma echoing_simps [simp]:
  "readCookie echoing ''portal_session'' = ''sid1''" "rq_method echoing = ''POST''" "\<not> csrf_refused echoing demo_session"
  by (simp_all add: echoing_def demo_request_def readCookie_def cookieName_def secureCookies_def hostPrefix_def
      csrf_refused_def demo_session_def)

lemma demo_finds:
  assumes "sessions u = sessions signed_in" "length (trace u) < 900"
  shows "answer (GetSession demo ''sid1'') u = Inr demo_session \<and>
    final (GetSession demo ''sid1'') u = u\<lparr>trace := EClock # trace u\<rparr>"
proof -
  have "wp (GetSession demo ''sid1'') (\<lambda>r t. r = Inr demo_session \<and> t = u\<lparr>trace := EClock # trace u\<rparr>) u"
    using assms
    by (simp add: GetSession_def wp_mem_GetSession get_entry_def live_def signed_in_def boot_def
        second_def valid_session_def demo_session_def int64_def)
  then show ?thesis by (simp add: wp_run)
qed

theorem sign_out_can_be_undone_witness:
  "\<exists>s2 s3 y e. (run_step demo)\<^sup>*\<^sup>* (signed_in, []) (s2, [Renewed demo_tokens ''sid1'' demo_session]) \<and>
    sessions_in demo (clock demo) s2 ''sid1'' = None \<and>
    run_step demo (s2, [Renewed demo_tokens ''sid1'' demo_session]) (s3, []) \<and>
    sessions_in demo (clock demo) s3 ''sid1'' = Some (Doc (enc_session y), e) \<and> same_but_tokens demo_session y \<and>
    ses_access_token y = ''at2''"
proof -
  note found = demo_finds [of signed_in]
  let ?s1 = "final (Refresh demo ''key'' (ses_refresh_token demo_session)) (final (GetSession demo ''sid1'') signed_in)"
  have l: "length (trace signed_in) = 0" by (simp add: signed_in_def boot_def)
  have key: "parse_key demo demo_session = Inr ''key''" by code_simp
  have tk: "answer (Refresh demo ''key'' rt) u = Inr demo_tokens" for rt u
    by (simp add: Refresh_def world_final) (simp add: demo_def)
  have "answer (GetSession demo ''sid1'') (arrive ?s1) = Inr demo_session"
    using demo_finds [of "arrive ?s1"] found l by (simp add: arrive_def Refresh_def world_final)
  from sign_out_can_be_undone [OF _ _ _ _ _ _ _ _ key refl tk this refl, of echoing echoing "clock demo" "[]"]
  show ?thesis using found l by (simp add: demo_tokens_def) blast
qed

section \<open>Two renewals at the same time\<close>




section \<open>What a start is worth\<close>

text \<open>
  C39. A start of a sign-in is good for one redemption: in either backend and over requests that overlap in any order, the
  codes redeemed with a verifier, the flows parked with it and the flows a login return holds with
  it are together never more than the times the PKCE library handed this verifier out.
\<close>

theorem starts_cover_redemptions:
  assumes "run_reach v (s, ps)" "ap_redis (app v) \<longrightarrow> redis_reply v = redis_server rt"
  shows "redeemed w (trace s) + card (waits v w (flows_in v rt s)) + in_hand w ps \<le> handed_out v w (trace s)"
proof -
  have "reliable v rt" using assms(2) by (simp add: reliable_def)
  from run_reach_covered [OF assms(1) this, of w] show ?thesis by (simp add: run_covered_def covered_def)
qed

theorem starts_cover_redemptions_witness:
  "redeemed ''verifier'' (trace landed) \<le> handed_out dated ''verifier'' (trace landed)"
  using starts_cover_redemptions [OF reach_runs [OF landed_reached], of "clock dated" "''verifier''"] by simp

section \<open>How often a request asks\<close>

text \<open>
  C40. A request asks outside the process a bounded number of times.  Whatever is answered, serving a
  route other than the composed envelope view makes at most six calls to a service, the Auth Service,
  Redis and the access-record client together.  The view makes at most four, unless the envelope
  service showed it an envelope in this very run; then it makes at most eight, and one for each slot
  and each document of the envelope it was shown.
\<close>

theorem requests_ask_a_bounded_number_of_times:
  assumes "(m, p, h) \<in> set Init" "t = serve v h q s" "n = asked_count (trace s)"
  shows "if (m, p) = (''GET'', view_path)
    then asked_count (trace t) \<le> n + 4 \<or>
      (\<exists>d. shown v q (trace s) (trace t) d \<and> asked_count (trace t) \<le> n + 8 + rows d)
    else asked_count (trace t) \<le> n + 6"
  using assms(1)
proof (cases rule: Init_cases)
  case 1
  have "(m, p) \<noteq> (''GET'', view_path)" using 1 by (auto simp: open_routes_def view_path_def)
  then show ?thesis
    using spends_serve [where h = h and v = v and q = q and s = s, OF spends_open [OF 1]]
    by (simp add: assms(2,3))
next
  case (2 g)
  show ?thesis
  proof (cases "(m, p) = (''GET'', view_path)")
    case True
    then have "g = getEnvelope" using view_route [of g] 2(1) by simp
    have "views v q (1 + 3) (requireSession v q (getEnvelope v q))"
      by (rule views_requireSession [OF views_view])
    then have "views v q 4 (h v q)" using 2(2) \<open>g = getEnvelope\<close> by simp
    then have "within v q 4 (trace s) t" unfolding assms(2) by (rule views_serve)
    then show ?thesis using True by (simp add: within_def assms(3) add.assoc)
  next
    case False
    note gated = spends_requireSession [OF spends_authed [where v = v and q = q, OF 2(1) False], of v q]
    show ?thesis using False
      spends_serve [where v = v and q = q and h = "\<lambda>v q. requireSession v q (g v q)" and s = s, OF gated]
      unfolding assms(2,3) 2(2) by (simp only: if_False)
  qed
qed

text \<open>The sample session looks at an envelope.\<close>

theorem requests_ask_a_bounded_number_of_times_witness:
  "\<exists>t. t = serve demo (\<lambda>v q. requireSession v q (getEnvelope v q)) demo_request signed_in \<and>
    (asked_count (trace t) \<le> 4 \<or> (\<exists>d. shown demo demo_request [] (trace t) d \<and> asked_count (trace t) \<le> 8 + rows d))"
proof -
  have r: "(''GET'', view_path, \<lambda>v q. requireSession v q (getEnvelope v q)) \<in> set Init"
    by (simp add: Init_def guarded_def authed_routes_def route_groups view_path_def)
  have "trace signed_in = []" by (simp add: signed_in_def boot_def)
  then show ?thesis
    using requests_ask_a_bounded_number_of_times [OF r refl refl, of demo demo_request signed_in] by simp
qed

end
